theory Spec2Isabelle
  imports Complex_Main "HOL-Library.AList"
begin

section \<open>JavaScript values and strings\<close>

text \<open>
  The harness is JavaScript. A string is modelled as a list of 8-bit characters (code
  units below 256); numbers are exact rationals, and NaN is a value of its own (no
  infinities, no rounding).
  A test case, an options object and a parsed JSON document are objects: association
  lists from property names to values, read with \<open>get\<close>, which yields
  \<open>JUndefined\<close> for a missing property as JavaScript does.
\<close>

datatype jsval =
    JUndefined
  | JNull
  | JBool bool
  | JNum rat
  | JNaN
  | JStr string
  | JArr "jsval list"
  | JObj "(string \<times> jsval) list"

type_synonym jsobj = "(string \<times> jsval) list"

datatype js_error =
    TypeError string
  | SyntaxError string
  | Error string

fun message :: "js_error \<Rightarrow> string" where
  "message (TypeError m) = m"
| "message (SyntaxError m) = m"
| "message (Error m) = m"

definition get :: "jsobj \<Rightarrow> string \<Rightarrow> jsval" where
  "get obj k = (case map_of obj k of None \<Rightarrow> JUndefined | Some v \<Rightarrow> v)"

text \<open>Truthiness, as \<open>if (v)\<close>, \<open>!v\<close>, \<open>v || w\<close> and \<open>v && w\<close> read a value.\<close>

fun truthy :: "jsval \<Rightarrow> bool" where
  "truthy JUndefined = False"
| "truthy JNull = False"
| "truthy (JBool b) = b"
| "truthy (JNum n) = (n \<noteq> 0)"
| "truthy JNaN = False"
| "truthy (JStr s) = (s \<noteq> [])"
| "truthy (JArr xs) = True"
| "truthy (JObj kvs) = True"

definition js_or :: "jsval \<Rightarrow> jsval \<Rightarrow> jsval" where
  "js_or a b = (if truthy a then a else b)"

definition js_and :: "jsval \<Rightarrow> jsval \<Rightarrow> jsval" where
  "js_and a b = (if truthy a then b else a)"

text \<open>The builtins of the runtime that the harness calls and that are not modelled
  here: they are parameters of the model.\<close>

record js_runtime =
  Number_toString :: "rat \<Rightarrow> string"
  StringToNumber :: "string \<Rightarrow> rat option"
  JSON_parse :: "string \<Rightarrow> js_error + jsval"
  JSON_stringify :: "jsval \<Rightarrow> string option"
  JSON_stringify_indent :: "jsval \<Rightarrow> js_error + string"
  RegExp_test :: "jsval \<Rightarrow> jsval \<Rightarrow> string \<Rightarrow> js_error + bool"
  sha256_hex :: "string \<Rightarrow> string"

subsection \<open>Characters\<close>

definition code :: "char \<Rightarrow> nat" where
  "code c = of_char c"

definition is_space :: "char \<Rightarrow> bool" where
  \<comment> \<open>\<open>\s\<close> and the characters \<open>trim()\<close> removes, among code units below 256\<close>
  "is_space c = (code c \<in> {9, 10, 11, 12, 13, 32, 160})"

definition is_digit :: "char \<Rightarrow> bool" where
  "is_digit c = (48 \<le> code c \<and> code c \<le> 57)"

definition is_upper :: "char \<Rightarrow> bool" where
  "is_upper c = (65 \<le> code c \<and> code c \<le> 90)"

definition is_lower :: "char \<Rightarrow> bool" where
  "is_lower c = (97 \<le> code c \<and> code c \<le> 122)"

definition is_word :: "char \<Rightarrow> bool" where
  \<comment> \<open>\<open>\w\<close>\<close>
  "is_word c = (is_upper c \<or> is_lower c \<or> is_digit c \<or> c = CHR ''_'')"

definition is_upper_latin1 :: "char \<Rightarrow> bool" where
  "is_upper_latin1 c = (192 \<le> code c \<and> code c \<le> 222 \<and> code c \<noteq> 215)"

fun set_bit5 :: "bool \<Rightarrow> char \<Rightarrow> char" where
  "set_bit5 b (Char b0 b1 b2 b3 b4 b5 b6 b7) = Char b0 b1 b2 b3 b4 b b6 b7"

definition toLowerCase_char :: "char \<Rightarrow> char" where
  "toLowerCase_char c = (if is_upper c \<or> is_upper_latin1 c then set_bit5 True c else c)"

definition toUpperCase_char :: "char \<Rightarrow> char" where
  \<comment> \<open>the letters whose capital is again below 256; the others are left as they are\<close>
  "toUpperCase_char c =
     (if is_lower c \<or> (224 \<le> code c \<and> code c \<le> 254 \<and> code c \<noteq> 247)
      then set_bit5 False c else c)"

definition toLowerCase :: "string \<Rightarrow> string" where
  "toLowerCase s = map toLowerCase_char s"

definition toUpperCase :: "string \<Rightarrow> string" where
  "toUpperCase s = map toUpperCase_char s"

definition trim :: "string \<Rightarrow> string" where
  "trim s = rev (dropWhile is_space (rev (dropWhile is_space s)))"

subsection \<open>Searching\<close>

text \<open>\<open>starts p s\<close> is the rest of \<open>s\<close> after the prefix \<open>p\<close>, when \<open>s\<close> starts with it.\<close>

fun starts :: "string \<Rightarrow> string \<Rightarrow> string option" where
  "starts [] s = Some s"
| "starts (p # ps) [] = None"
| "starts (p # ps) (c # cs) = (if c = p then starts ps cs else None)"

text \<open>The same without regard to case: how a literal of a regular expression with the
  flag \<open>i\<close> matches. The literals below are ASCII.\<close>

fun starts_ci :: "string \<Rightarrow> string \<Rightarrow> string option" where
  "starts_ci [] s = Some s"
| "starts_ci (p # ps) [] = None"
| "starts_ci (p # ps) (c # cs) =
     (if toLowerCase_char c = toLowerCase_char p then starts_ci ps cs else None)"

text \<open>An unanchored match: the leftmost position where the matcher \<open>m\<close> succeeds.\<close>

fun first_match :: "(string \<Rightarrow> 'a option) \<Rightarrow> string \<Rightarrow> 'a option" where
  "first_match m [] = m []"
| "first_match m (c # cs) =
     (case m (c # cs) of Some r \<Rightarrow> Some r | None \<Rightarrow> first_match m cs)"

text \<open>What follows a greedy \<open>.*\<close> (with the flag \<open>s\<close>) or \<open>[\s\S]*\<close>: the last
  position where the rest of the pattern matches.\<close>

fun last_match :: "(string \<Rightarrow> 'a option) \<Rightarrow> string \<Rightarrow> 'a option" where
  "last_match m [] = m []"
| "last_match m (c # cs) =
     (case last_match m cs of Some r \<Rightarrow> Some r | None \<Rightarrow> m (c # cs))"

definition includes_str :: "string \<Rightarrow> string \<Rightarrow> bool" where
  \<comment> \<open>\<open>s.includes(p)\<close>\<close>
  "includes_str s p = (first_match (starts p) s \<noteq> None)"

definition test_ci :: "string \<Rightarrow> string \<Rightarrow> bool" where
  \<comment> \<open>\<open>/p/i.test(s)\<close> for a literal \<open>p\<close>\<close>
  "test_ci p s = (first_match (starts_ci p) s \<noteq> None)"

text \<open>\<open>s.replace(/re/g, '')\<close>: \<open>m\<close> gives the length of the match of \<open>re\<close> that
  starts at the head of its argument. Scanning from the left, a match is dropped and the
  scan goes on after it; the counter is the number of matched characters still to drop.\<close>

fun remove_from :: "(string \<Rightarrow> nat option) \<Rightarrow> nat \<Rightarrow> string \<Rightarrow> string" where
  "remove_from m k [] = []"
| "remove_from m (Suc k) (c # cs) = remove_from m k cs"
| "remove_from m 0 (c # cs) =
     (case m (c # cs) of
        Some (Suc n) \<Rightarrow> remove_from m n cs
      | _ \<Rightarrow> c # remove_from m 0 cs)"

definition remove_all :: "(string \<Rightarrow> nat option) \<Rightarrow> string \<Rightarrow> string" where
  "remove_all m s = remove_from m 0 s"

section \<open>The sanitizer\<close>

text \<open>The length of the match of \<open><tag>[\s\S]*?</tag>\<close> (flag \<open>i\<close>) at the head of the
  text: the opening tag, then the shortest text up to a closing tag.\<close>

fun index_ci :: "string \<Rightarrow> string \<Rightarrow> nat option" where
  "index_ci p [] = (if p = [] then Some 0 else None)"
| "index_ci p (c # cs) =
     (case starts_ci p (c # cs) of
        Some r \<Rightarrow> Some 0
      | None \<Rightarrow> map_option Suc (index_ci p cs))"

definition paired :: "string \<Rightarrow> string \<Rightarrow> string \<Rightarrow> nat option" where
  "paired opn cls s =
     (case starts_ci opn s of
        None \<Rightarrow> None
      | Some r \<Rightarrow>
          (case index_ci cls r of
             None \<Rightarrow> None
           | Some k \<Rightarrow> Some (length opn + k + length cls)))"

text \<open>The length of the match of \<open><tag>[\s\S]*$\<close> (flag \<open>i\<close>): the opening tag and all
  that follows, to the end of the text.\<close>

definition unclosed :: "string \<Rightarrow> string \<Rightarrow> nat option" where
  "unclosed opn s = (case starts_ci opn s of None \<Rightarrow> None | Some r \<Rightarrow> Some (length s))"

definition strip_text :: "string \<Rightarrow> string" where
  "strip_text response =
     (let cleaned = remove_all (paired ''<think>'' ''</think>'') response;
          cleaned = remove_all (paired ''<thinking>'' ''</thinking>'') cleaned;
          cleaned = remove_all (unclosed ''<think>'') cleaned;
          cleaned = remove_all (unclosed ''<thinking>'') cleaned
      in trim cleaned)"

definition stripThinkingTags :: "jsval \<Rightarrow> js_error + string" where
  "stripThinkingTags response =
     (if \<not> truthy response then Inr []
      else case response of
             JStr s \<Rightarrow> Inr (strip_text s)
           | _ \<Rightarrow> Inl (TypeError ''response.replace is not a function''))"

section \<open>Evaluators\<close>

subsection \<open>Conversions to text\<close>

fun intercalate :: "string \<Rightarrow> string list \<Rightarrow> string" where
  "intercalate sep [] = []"
| "intercalate sep [x] = x"
| "intercalate sep (x # y # ys) = x @ sep @ intercalate sep (y # ys)"

text \<open>\<open>String(v)\<close>, as a template literal converts a value; an element of an array
  that is \<open>null\<close> or \<open>undefined\<close> is written as the empty text.\<close>

fun toString :: "js_runtime \<Rightarrow> jsval \<Rightarrow> string" where
  "toString rt JUndefined = ''undefined''"
| "toString rt JNull = ''null''"
| "toString rt (JBool b) = (if b then ''true'' else ''false'')"
| "toString rt (JNum n) = Number_toString rt n"
| "toString rt JNaN = ''NaN''"
| "toString rt (JStr s) = s"
| "toString rt (JArr xs) =
     intercalate '','' (map (\<lambda>x. if x = JUndefined \<or> x = JNull then [] else toString rt x) xs)"
| "toString rt (JObj kvs) = ''[object Object]''"

definition join :: "js_runtime \<Rightarrow> string \<Rightarrow> jsval list \<Rightarrow> string" where
  \<comment> \<open>\<open>xs.join(sep)\<close>\<close>
  "join rt sep xs =
     intercalate sep (map (\<lambda>x. if x = JUndefined \<or> x = JNull then [] else toString rt x) xs)"

text \<open>The method call \<open>v.toString()\<close>: a TypeError on \<open>undefined\<close> and \<open>null\<close>.\<close>

definition call_toString :: "js_runtime \<Rightarrow> jsval \<Rightarrow> js_error + string" where
  "call_toString rt v =
     (if v = JUndefined \<or> v = JNull
      then Inl (TypeError ''Cannot read properties of undefined'')
      else Inr (toString rt v))"

subsection \<open>Verdicts\<close>

record verdict =
  pass :: jsval
  score :: jsval
  reason :: string
  evalType :: string
  extra :: jsobj

subsection \<open>exact_match, contains, regex\<close>

definition exactMatch :: "js_runtime \<Rightarrow> jsobj \<Rightarrow> string \<Rightarrow> verdict" where
  "exactMatch rt testCase response =
     (let expected = toLowerCase (trim (toString rt (js_or (get testCase ''expected'') (JStr []))));
          actual = toLowerCase (trim response);
          p = (actual = expected)
      in \<lparr> pass = JBool p,
           score = JNum (if p then 1 else 0),
           reason = (if p then ''Exact match''
                     else ''Expected \"'' @ toString rt (get testCase ''expected'') @ ''\", got \"''
                          @ take 100 response @ ''...\"''),
           evalType = ''exact_match'',
           extra = [] \<rparr>)"

text \<open>\<open>expectedList.filter(e => responseLower.includes(e.toString().toLowerCase()))\<close>:
  the first \<open>null\<close> or \<open>undefined\<close> element raises.\<close>

fun contained :: "js_runtime \<Rightarrow> string \<Rightarrow> jsval list \<Rightarrow> js_error + jsval list" where
  "contained rt responseLower [] = Inr []"
| "contained rt responseLower (e # es) =
     (case call_toString rt e of
        Inl err \<Rightarrow> Inl err
      | Inr t \<Rightarrow>
          (case contained rt responseLower es of
             Inl err \<Rightarrow> Inl err
           | Inr ms \<Rightarrow> Inr (if includes_str responseLower (toLowerCase t) then e # ms else ms)))"

definition containsMatch :: "js_runtime \<Rightarrow> jsobj \<Rightarrow> string \<Rightarrow> js_error + verdict" where
  "containsMatch rt testCase response =
     (let expected = js_or (get testCase ''expected_contains'') (get testCase ''expected'');
          expectedList = (case expected of JArr xs \<Rightarrow> xs | _ \<Rightarrow> [expected]);
          responseLower = toLowerCase response
      in case contained rt responseLower expectedList of
           Inl err \<Rightarrow> Inl err
         | Inr matches \<Rightarrow>
             (let p = (length matches = length expectedList);
                  sc = (if length expectedList > 0
                        then of_nat (length matches) / of_nat (length expectedList) else 0)
              in Inr \<lparr> pass = JBool p,
                       score = JNum sc,
                       reason = (if p then ''Contains all expected: '' @ join rt '', '' matches
                                 else ''Missing: '' @
                                   join rt '', '' (filter (\<lambda>e. e \<notin> set matches) expectedList)),
                       evalType = ''contains'',
                       extra = [] \<rparr>))"

definition regexMatch :: "js_runtime \<Rightarrow> jsobj \<Rightarrow> string \<Rightarrow> verdict" where
  "regexMatch rt testCase response =
     (let pattern = js_or (get testCase ''expected_regex'') (get testCase ''expected'');
          flags = js_or (get testCase ''regex_flags'') (JStr ''i'')
      in case RegExp_test rt pattern flags response of
           Inr p \<Rightarrow>
             \<lparr> pass = JBool p,
               score = JNum (if p then 1 else 0),
               reason = (if p then ''Matches pattern: '' @ toString rt pattern
                         else ''Does not match pattern: '' @ toString rt pattern),
               evalType = ''regex'',
               extra = [] \<rparr>
         | Inl err \<Rightarrow>
             \<lparr> pass = JBool False,
               score = JNum 0,
               reason = ''Invalid regex: '' @ message err,
               evalType = ''regex'',
               extra = [] \<rparr>)"

subsection \<open>tool_call\<close>

text \<open>The tail \<open>\s*(\w+)\s*\(([^)]*)\)\<close> of the first two call syntaxes: every
  repetition is greedy and no two adjacent pieces can match the same character, so the
  match is the one found without backtracking.\<close>

definition call_tail :: "string \<Rightarrow> (string \<times> string) option" where
  "call_tail s =
     (let r = dropWhile is_space s;
          name = takeWhile is_word r;
          r = dropWhile is_space (dropWhile is_word r)
      in if name = [] then None
         else case r of
                c # r' \<Rightarrow>
                  (if c = CHR ''(''
                   then (case dropWhile (\<lambda>x. x \<noteq> CHR '')'') r' of
                           [] \<Rightarrow> None
                         | d # r'' \<Rightarrow> Some (name, takeWhile (\<lambda>x. x \<noteq> CHR '')'') r'))
                   else None)
              | [] \<Rightarrow> None)"

definition tool_pattern1 :: "string \<Rightarrow> (string \<times> string) option" where
  \<comment> \<open>\<open>/TOOL:\s*(\w+)\s*\(([^)]*)\)/i\<close> at the head of the text\<close>
  "tool_pattern1 s = (case starts_ci ''TOOL:'' s of None \<Rightarrow> None | Some r \<Rightarrow> call_tail r)"

definition call_colon :: "string \<Rightarrow> (string \<times> string) option" where
  "call_colon s = (case starts_ci ''call:'' s of None \<Rightarrow> None | Some r \<Rightarrow> call_tail r)"

definition tool_pattern2 :: "string \<Rightarrow> (string \<times> string) option" where
  \<comment> \<open>\<open>/tool[_\s]?call:\s*(\w+)\s*\(([^)]*)\)/i\<close> at the head of the text\<close>
  "tool_pattern2 s =
     (case starts_ci ''tool'' s of
        None \<Rightarrow> None
      | Some r \<Rightarrow>
          (case r of
             c # r' \<Rightarrow>
               (if c = CHR ''_'' \<or> is_space c
                then (case call_colon r' of Some m \<Rightarrow> Some m | None \<Rightarrow> call_colon r)
                else call_colon r)
           | [] \<Rightarrow> None))"

definition args_tail :: "string \<Rightarrow> string option" where
  \<comment> \<open>\<open>"args"\s*:\s*\[([^\]]*)\]\<close> at the head of the text\<close>
  "args_tail s =
     (case starts_ci ''\"args\"'' s of
        None \<Rightarrow> None
      | Some r \<Rightarrow>
          (case starts '':'' (dropWhile is_space r) of
             None \<Rightarrow> None
           | Some r \<Rightarrow>
               (case starts ''['' (dropWhile is_space r) of
                  None \<Rightarrow> None
                | Some r \<Rightarrow>
                    (case dropWhile (\<lambda>x. x \<noteq> CHR '']'') r of
                       [] \<Rightarrow> None
                     | d # r' \<Rightarrow> Some (takeWhile (\<lambda>x. x \<noteq> CHR '']'') r)))))"

definition tool_pattern3 :: "string \<Rightarrow> (string \<times> string) option" where
  \<comment> \<open>\<open>/"tool"\s*:\s*"(\w+)".*"args"\s*:\s*\[([^\]]*)\]/is\<close> at the head of the text\<close>
  "tool_pattern3 s =
     (case starts_ci ''\"tool\"'' s of
        None \<Rightarrow> None
      | Some r \<Rightarrow>
          (case starts '':'' (dropWhile is_space r) of
             None \<Rightarrow> None
           | Some r \<Rightarrow>
               (case starts ''\"'' (dropWhile is_space r) of
                  None \<Rightarrow> None
                | Some r \<Rightarrow>
                    (let name = takeWhile is_word r in
                     if name = [] then None
                     else case starts ''\"'' (dropWhile is_word r) of
                            None \<Rightarrow> None
                          | Some r \<Rightarrow>
                              (case last_match args_tail r of
                                 None \<Rightarrow> None
                               | Some a \<Rightarrow> Some (name, a))))))"

text \<open>The loop over the three syntaxes: the first one that matches anywhere wins.\<close>

fun parse_tool :: "(string \<Rightarrow> (string \<times> string) option) list \<Rightarrow> string
    \<Rightarrow> (string \<times> string) option" where
  "parse_tool [] response = None"
| "parse_tool (pattern # patterns) response =
     (case first_match pattern response of
        Some m \<Rightarrow> Some m
      | None \<Rightarrow> parse_tool patterns response)"

definition toolCallPatterns :: "(string \<Rightarrow> (string \<times> string) option) list" where
  "toolCallPatterns = [tool_pattern1, tool_pattern2, tool_pattern3]"

fun split_on :: "char \<Rightarrow> string \<Rightarrow> string list" where
  "split_on d [] = [[]]"
| "split_on d (c # cs) =
     (if c = d then [] # split_on d cs
      else case split_on d cs of
             w # ws \<Rightarrow> (c # w) # ws
           | [] \<Rightarrow> [[c]])"

definition parse_args :: "string \<Rightarrow> string list" where
  \<comment> \<open>\<open>match[2].split(',').map(a => a.trim().replace(/["']/g, '')).filter(a => a)\<close>\<close>
  "parse_args s =
     filter (\<lambda>a. a \<noteq> [])
       (map (\<lambda>a. filter (\<lambda>c. c \<noteq> CHR 0x22 \<and> c \<noteq> CHR 0x27) (trim a)) (split_on CHR '','' s))"

definition none_signal :: "string \<Rightarrow> bool" where
  \<comment> \<open>\<open>/TOOL:\s*none/i.test(response) || /no tool/i.test(response)\<close>\<close>
  "none_signal response =
     (first_match (\<lambda>s. case starts_ci ''TOOL:'' s of
                          None \<Rightarrow> None
                        | Some r \<Rightarrow> starts_ci ''none'' (dropWhile is_space r)) response \<noteq> None
      \<or> test_ci ''no tool'' response)"

text \<open>\<open>expectedArgs.every(arg => parsedArgs.some(pa =>
  pa.toLowerCase().includes(arg.toString().toLowerCase())))\<close>: with no parsed argument
  \<open>some\<close> is false before \<open>arg\<close> is read; otherwise \<open>arg.toString()\<close> raises on
  \<open>null\<close> and \<open>undefined\<close>.\<close>

fun every_arg :: "js_runtime \<Rightarrow> string list \<Rightarrow> jsval list \<Rightarrow> js_error + bool" where
  "every_arg rt parsedArgs [] = Inr True"
| "every_arg rt parsedArgs (arg # args) =
     (if parsedArgs = [] then Inr False
      else case call_toString rt arg of
             Inl err \<Rightarrow> Inl err
           | Inr t \<Rightarrow>
               (if list_ex (\<lambda>pa. includes_str (toLowerCase pa) (toLowerCase t)) parsedArgs
                then every_arg rt parsedArgs args
                else Inr False))"

definition args_match :: "js_runtime \<Rightarrow> jsval \<Rightarrow> string list \<Rightarrow> js_error + bool" where
  \<comment> \<open>\<open>expectedArgs.length === 0 || expectedArgs.every(...)\<close>\<close>
  "args_match rt expectedArgs parsedArgs =
     (case expectedArgs of
        JArr xs \<Rightarrow> (if xs = [] then Inr True else every_arg rt parsedArgs xs)
      | JStr s \<Rightarrow> Inl (TypeError ''expectedArgs.every is not a function'')
      | JObj kvs \<Rightarrow>
          (if get kvs ''length'' = JNum 0 then Inr True
           else Inl (TypeError ''expectedArgs.every is not a function''))
      | _ \<Rightarrow> Inl (TypeError ''expectedArgs.every is not a function''))"

definition parsedTool_of :: "string \<Rightarrow> string option" where
  \<comment> \<open>\<open>parsedTool\<close> after the loop and the check for "none"; \<open>None\<close> is \<open>null\<close>\<close>
  "parsedTool_of response =
     (case parse_tool toolCallPatterns response of
        Some (t, a) \<Rightarrow> Some (toLowerCase t)
      | None \<Rightarrow> (if none_signal response then Some ''none'' else None))"

definition parsedArgs_of :: "string \<Rightarrow> string list" where
  "parsedArgs_of response =
     (case parse_tool toolCallPatterns response of
        Some (t, a) \<Rightarrow> parse_args a
      | None \<Rightarrow> [])"

definition toolCallMatch :: "js_runtime \<Rightarrow> jsobj \<Rightarrow> string \<Rightarrow> js_error + verdict" where
  "toolCallMatch rt testCase response =
     (let expectedTool = get testCase ''expected_tool'';
          expectedArgs = js_or (get testCase ''expected_args'') (JArr []);
          parsedTool = parsedTool_of response;
          parsedArgs = parsedArgs_of response
      in case expectedTool of
           JStr tool \<Rightarrow>
             (let toolMatch = (parsedTool = Some (toLowerCase tool)) in
              case args_match rt expectedArgs parsedArgs of
                Inl err \<Rightarrow> Inl err
              | Inr argsMatch \<Rightarrow>
                  (let p = (toolMatch \<and> argsMatch);
                       sc = (if toolMatch then 1/2 else 0) + (if argsMatch then 1/2 else 0);
                       shown = intercalate '', '' parsedArgs
                   in Inr \<lparr> pass = JBool p,
                            score = JNum sc,
                            reason =
                              (if p then ''Correct tool: '' @ the parsedTool @ ''('' @ shown @ '')''
                               else if parsedTool = None
                               then ''Could not parse tool call from response''
                               else if \<not> toolMatch
                               then ''Wrong tool: expected '' @ tool @ '', got '' @ the parsedTool
                               else ''Wrong args: expected '' @
                                 (case expectedArgs of JArr xs \<Rightarrow> join rt '', '' xs | _ \<Rightarrow> [])
                                 @ '', got '' @ shown),
                            evalType = ''tool_call'',
                            extra = [(''parsed'',
                              JObj [(''tool'', case parsedTool of None \<Rightarrow> JNull | Some t \<Rightarrow> JStr t),
                                    (''args'', JArr (map JStr parsedArgs))])] \<rparr>))
         | JUndefined \<Rightarrow> Inl (TypeError ''Cannot read properties of undefined'')
         | JNull \<Rightarrow> Inl (TypeError ''Cannot read properties of null'')
         | _ \<Rightarrow> Inl (TypeError ''expectedTool.toLowerCase is not a function''))"

subsection \<open>json_match\<close>

fun digits_to_nat :: "nat \<Rightarrow> string \<Rightarrow> nat" where
  "digits_to_nat acc [] = acc"
| "digits_to_nat acc (c # cs) = digits_to_nat (10 * acc + (code c - 48)) cs"

definition parseInt :: "string \<Rightarrow> int option" where
  \<comment> \<open>\<open>parseInt(s, 10)\<close>: leading white space, a sign, the longest run of digits;
      \<open>None\<close> is NaN\<close>
  "parseInt s =
     (let r = dropWhile is_space s;
          neg = (case r of c # _ \<Rightarrow> c = CHR ''-'' | [] \<Rightarrow> False);
          r = (case r of c # r' \<Rightarrow> if c = CHR ''-'' \<or> c = CHR ''+'' then r' else r | [] \<Rightarrow> r);
          ds = takeWhile is_digit r
      in if ds = [] then None
         else Some (if neg then - int (digits_to_nat 0 ds) else int (digits_to_nat 0 ds)))"

definition index_of_key :: "string \<Rightarrow> nat option" where
  \<comment> \<open>the array index a property name denotes: a decimal numeral without leading zero\<close>
  "index_of_key k =
     (if k \<noteq> [] \<and> list_all is_digit k \<and> (k = ''0'' \<or> hd k \<noteq> CHR ''0'')
      then Some (digits_to_nat 0 k) else None)"

definition digit_char :: "nat \<Rightarrow> char" where
  "digit_char d = ''0123456789'' ! (d mod 10)"

fun nat_to_string :: "nat \<Rightarrow> string" where
  "nat_to_string n = (if n < 10 then [digit_char n] else nat_to_string (n div 10) @ [digit_char n])"

declare nat_to_string.simps [simp del]

definition own_property :: "jsval \<Rightarrow> string \<Rightarrow> jsval option" where
  "own_property v k =
     (case v of
        JObj kvs \<Rightarrow> map_of kvs k
      | JArr xs \<Rightarrow>
          (if k = ''length'' then Some (JNum (of_nat (length xs)))
           else case index_of_key k of
                  Some i \<Rightarrow> (if i < length xs then Some (xs ! i) else None)
                | None \<Rightarrow> None)
      | JStr s \<Rightarrow>
          (if k = ''length'' then Some (JNum (of_nat (length s)))
           else case index_of_key k of
                  Some i \<Rightarrow> (if i < length s then Some (JStr [s ! i]) else None)
                | None \<Rightarrow> None)
      | _ \<Rightarrow> None)"

text \<open>\<open>v[k]\<close>: an own property, else one inherited from the prototype (a parameter:
  \<open>inherited v k\<close>), else \<open>undefined\<close>; a TypeError on \<open>undefined\<close> and \<open>null\<close>.\<close>

definition property :: "(jsval \<Rightarrow> string \<Rightarrow> jsval option) \<Rightarrow> jsval \<Rightarrow> string \<Rightarrow> js_error + jsval" where
  "property inherited v k =
     (if v = JUndefined \<or> v = JNull then Inl (TypeError ''Cannot read properties of undefined'')
      else case own_property v k of
             Some x \<Rightarrow> Inr x
           | None \<Rightarrow> (case inherited v k of Some x \<Rightarrow> Inr x | None \<Rightarrow> Inr JUndefined))"

text \<open>\<open>k in v\<close>: own or inherited; a TypeError unless \<open>v\<close> is an object or an array.\<close>

definition js_in :: "(jsval \<Rightarrow> string \<Rightarrow> jsval option) \<Rightarrow> string \<Rightarrow> jsval \<Rightarrow> js_error + bool" where
  "js_in inherited k v =
     (case v of
        JObj kvs \<Rightarrow> Inr (own_property v k \<noteq> None \<or> inherited v k \<noteq> None)
      | JArr xs \<Rightarrow> Inr (own_property v k \<noteq> None \<or> inherited v k \<noteq> None)
      | _ \<Rightarrow> Inl (TypeError ''Cannot use in operator to search for a key''))"

definition object_keys :: "jsval \<Rightarrow> js_error + string list" where
  \<comment> \<open>\<open>Object.keys(v)\<close>, an object's keys in the order of the association list\<close>
  "object_keys v =
     (case v of
        JObj kvs \<Rightarrow> Inr (map fst kvs)
      | JArr xs \<Rightarrow> Inr (map nat_to_string [0..<length xs])
      | JStr s \<Rightarrow> Inr (map nat_to_string [0..<length s])
      | JUndefined \<Rightarrow> Inl (TypeError ''Cannot convert undefined or null to object'')
      | JNull \<Rightarrow> Inl (TypeError ''Cannot convert undefined or null to object'')
      | _ \<Rightarrow> Inr [])"

text \<open>The prefix of a text up to and including the last occurrence of a character:
  what a greedy \<open>[\s\S]*\<close> followed by that character matches.\<close>

fun upto_last :: "char \<Rightarrow> string \<Rightarrow> string option" where
  "upto_last c [] = None"
| "upto_last c (x # xs) =
     (case upto_last c xs of
        Some p \<Rightarrow> Some (x # p)
      | None \<Rightarrow> (if x = c then Some [x] else None))"

definition json_span :: "string \<Rightarrow> string option" where
  \<comment> \<open>\<open>/\{[\s\S]*\}|\[[\s\S]*\]/\<close> at the head of the text\<close>
  "json_span s =
     (case s of
        [] \<Rightarrow> None
      | c # r \<Rightarrow>
          (if c = CHR ''{'' then map_option (Cons c) (upto_last CHR ''}'' r)
           else if c = CHR ''['' then map_option (Cons c) (upto_last CHR '']'' r)
           else None))"

definition extract_json :: "string \<Rightarrow> string option" where
  "extract_json response = first_match json_span response"

record js_host =
  inherited :: "jsval \<Rightarrow> string \<Rightarrow> jsval option"
  env :: "string \<Rightarrow> string option"

text \<open>The test of one required key, the callback of \<open>requiredKeys.filter\<close>.\<close>

definition key_matches :: "js_runtime \<Rightarrow> js_host \<Rightarrow> jsval \<Rightarrow> jsval \<Rightarrow> string \<Rightarrow> js_error + bool" where
  "key_matches rt host expected actualJson key =
     (case property (inherited host) expected key of
        Inl err \<Rightarrow> Inl err
      | Inr want \<Rightarrow>
          (if want = JStr ''*'' then js_in (inherited host) key actualJson
           else case property (inherited host) actualJson key of
                  Inl err \<Rightarrow> Inl err
                | Inr have \<Rightarrow> Inr (JSON_stringify rt have = JSON_stringify rt want)))"

text \<open>The value of that callback when the expected structure and the response are
  both objects, where nothing raises.\<close>

definition key_holds :: "js_runtime \<Rightarrow> js_host \<Rightarrow> jsobj \<Rightarrow> jsobj \<Rightarrow> string \<Rightarrow> bool" where
  "key_holds rt host expected actual key =
     (if get expected key = JStr ''*''
      then map_of actual key \<noteq> None \<or> inherited host (JObj actual) key \<noteq> None
      else JSON_stringify rt
             (case map_of actual key of
                Some x \<Rightarrow> x
              | None \<Rightarrow> (case inherited host (JObj actual) key of Some x \<Rightarrow> x | None \<Rightarrow> JUndefined))
           = JSON_stringify rt (get expected key))"

fun filter_keys :: "(string \<Rightarrow> js_error + bool) \<Rightarrow> string list \<Rightarrow> js_error + string list" where
  "filter_keys f [] = Inr []"
| "filter_keys f (k # ks) =
     (case f k of
        Inl err \<Rightarrow> Inl err
      | Inr b \<Rightarrow>
          (case filter_keys f ks of
             Inl err \<Rightarrow> Inl err
           | Inr ms \<Rightarrow> Inr (if b then k # ms else ms)))"

text \<open>The body of the \<open>try\<close> block of \<open>jsonMatch\<close>.\<close>

definition jsonMatch_try :: "js_runtime \<Rightarrow> js_host \<Rightarrow> jsobj \<Rightarrow> string \<Rightarrow> js_error + verdict" where
  "jsonMatch_try rt host testCase response =
     (let expectedJson = get testCase ''expected_json'' in
      case extract_json response of
        None \<Rightarrow>
          Inr \<lparr> pass = JBool False, score = JNum 0, reason = ''No JSON found in response'',
                evalType = ''json_match'', extra = [] \<rparr>
      | Some text \<Rightarrow>
          (case JSON_parse rt text of
             Inl err \<Rightarrow> Inl err
           | Inr actualJson \<Rightarrow>
               (case (case expectedJson of JStr e \<Rightarrow> JSON_parse rt e | _ \<Rightarrow> Inr expectedJson) of
                  Inl err \<Rightarrow> Inl err
                | Inr expected \<Rightarrow>
                    (case object_keys expected of
                       Inl err \<Rightarrow> Inl err
                     | Inr requiredKeys \<Rightarrow>
                         (case filter_keys (key_matches rt host expected actualJson) requiredKeys of
                            Inl err \<Rightarrow> Inl err
                          | Inr matchedKeys \<Rightarrow>
                              (let p = (length matchedKeys = length requiredKeys);
                                   sc = (if length requiredKeys > 0
                                         then of_nat (length matchedKeys) / of_nat (length requiredKeys)
                                         else 1)
                               in Inr \<lparr> pass = JBool p,
                                        score = JNum sc,
                                        reason =
                                          (if p then ''JSON structure matches''
                                           else ''Missing/wrong keys: '' @
                                             intercalate '', ''
                                               (filter (\<lambda>k. k \<notin> set matchedKeys) requiredKeys)),
                                        evalType = ''json_match'',
                                        extra = [] \<rparr>))))))"

definition jsonMatch :: "js_runtime \<Rightarrow> js_host \<Rightarrow> jsobj \<Rightarrow> string \<Rightarrow> verdict" where
  "jsonMatch rt host testCase response =
     (case jsonMatch_try rt host testCase response of
        Inr v \<Rightarrow> v
      | Inl err \<Rightarrow>
          \<lparr> pass = JBool False, score = JNum 0,
            reason = ''JSON parse error: '' @ message err,
            evalType = ''json_match'', extra = [] \<rparr>)"

subsection \<open>llm_judge\<close>

record provider =
  provider_name :: string
  complete :: "jsval \<Rightarrow> jsobj \<Rightarrow> js_error + jsval"

record eval_options =
  judgeProvider :: "provider option"
  judgeModel :: jsval

text \<open>\<open>getProvider(name)\<close> of the provider factory: \<open>PROVIDERS\<close> is the table of the
  known providers, a parameter.\<close>

definition getProvider :: "(string \<times> provider) list \<Rightarrow> string \<Rightarrow> js_error + provider" where
  "getProvider PROVIDERS name =
     (case map_of PROVIDERS (toLowerCase name) of
        None \<Rightarrow>
          Inl (Error (''Unknown provider: '' @ name @ ''. Available: '' @
                      intercalate '', '' (map fst PROVIDERS)))
      | Some p \<Rightarrow> Inr p)"

definition env_or :: "string option \<Rightarrow> string \<Rightarrow> string" where
  \<comment> \<open>\<open>process.env.X || d\<close>\<close>
  "env_or v d = (case v of None \<Rightarrow> d | Some x \<Rightarrow> if x = [] then d else x)"

definition getDefaultJudgeProvider :: "js_host \<Rightarrow> (string \<times> provider) list \<Rightarrow> js_error + provider" where
  "getDefaultJudgeProvider host PROVIDERS =
     (case getProvider PROVIDERS
             (env_or (env host ''JUDGE_PROVIDER'') (env_or (env host ''DEFAULT_PROVIDER'') ''ollama''))
      of Inr p \<Rightarrow> Inr p
       | Inl err \<Rightarrow> Inl (Error ''No judge provider available''))"

definition nl :: string where
  "nl = [CHR 0x0A]"

definition judgePrompt :: "js_runtime \<Rightarrow> jsobj \<Rightarrow> string \<Rightarrow> string" where
  "judgePrompt rt testCase response =
     (let criteria = js_or (get testCase ''criteria'') (JArr [JStr ''relevance'', JStr ''accuracy'']);
          criteriaList = (case criteria of JArr xs \<Rightarrow> xs | _ \<Rightarrow> [criteria])
      in ''You are an evaluation judge. Grade the following response based on these criteria: ''
         @ join rt '', '' criteriaList @ ''.'' @ nl @ nl
         @ ''QUESTION/PROMPT:'' @ nl
         @ toString rt (get testCase ''prompt'') @ nl @ nl
         @ ''RESPONSE TO EVALUATE:'' @ nl
         @ response @ nl @ nl
         @ (if truthy (get testCase ''expected'')
            then ''EXPECTED/REFERENCE (if helpful):'' @ nl @ toString rt (get testCase ''expected'')
            else []) @ nl @ nl
         @ ''Instructions:'' @ nl
         @ ''1. Evaluate the response against each criterion'' @ nl
         @ ''2. Give a score from 0-100'' @ nl
         @ ''3. Provide brief reasoning'' @ nl @ nl
         @ ''Respond in this exact format:'' @ nl
         @ ''SCORE: [number 0-100]'' @ nl
         @ ''PASS: [YES or NO]'' @ nl
         @ ''REASON: [one sentence explanation]'')"

definition score_at :: "string \<Rightarrow> string option" where
  \<comment> \<open>\<open>/SCORE:\s*(\d+)/i\<close> at the head of the text: the digits\<close>
  "score_at s =
     (case starts_ci ''SCORE:'' s of
        None \<Rightarrow> None
      | Some r \<Rightarrow>
          (let ds = takeWhile is_digit (dropWhile is_space r)
           in if ds = [] then None else Some ds))"

definition pass_at :: "string \<Rightarrow> string option" where
  \<comment> \<open>\<open>/PASS:\s*(YES|NO)/i\<close> at the head of the text: the word as written\<close>
  "pass_at s =
     (case starts_ci ''PASS:'' s of
        None \<Rightarrow> None
      | Some r \<Rightarrow>
          (let r = dropWhile is_space r in
           case starts_ci ''YES'' r of
             Some _ \<Rightarrow> Some (take 3 r)
           | None \<Rightarrow> (case starts_ci ''NO'' r of Some _ \<Rightarrow> Some (take 2 r) | None \<Rightarrow> None)))"

definition reason_at :: "string \<Rightarrow> string option" where
  \<comment> \<open>\<open>/REASON:\s*(.+?)(?:\n|$)/is\<close> at the head of the text. After the white space
      the group takes one character and then as few as possible up to a line feed or
      the end; when only white space follows the colon, \<open>\s*\<close> gives its last
      character back to the group.\<close>
  "reason_at s =
     (case starts_ci ''REASON:'' s of
        None \<Rightarrow> None
      | Some r \<Rightarrow>
          (case dropWhile is_space r of
             c # cs \<Rightarrow> Some (c # takeWhile (\<lambda>x. x \<noteq> CHR 0x0A) cs)
           | [] \<Rightarrow> (if r = [] then None else Some [last r])))"

text \<open>The parsing of the judge's reply, once sanitized.\<close>

definition judge_verdict :: "string \<Rightarrow> verdict" where
  "judge_verdict judgeResponse =
     (let scoreMatch = first_match score_at judgeResponse;
          passMatch = first_match pass_at judgeResponse;
          reasonMatch = first_match reason_at judgeResponse;
          sc = (case scoreMatch of
                  Some ds \<Rightarrow> of_nat (digits_to_nat 0 ds) / 100
                | None \<Rightarrow> 1/2);
          p = (case passMatch of
                 Some w \<Rightarrow> toUpperCase w = ''YES''
               | None \<Rightarrow> sc \<ge> 7/10);
          rs = (case reasonMatch of
                  Some r \<Rightarrow> trim r
                | None \<Rightarrow> ''LLM judge evaluation'')
      in \<lparr> pass = JBool p, score = JNum sc, reason = rs,
           evalType = ''llm_judge'',
           extra = [(''judgeResponse'', JStr (take 500 judgeResponse))] \<rparr>)"

definition judge_messages :: "string \<Rightarrow> jsval" where
  "judge_messages prompt = JArr [JObj [(''role'', JStr ''user''), (''content'', JStr prompt)]]"

definition judge_call_options :: "jsval \<Rightarrow> jsobj" where
  "judge_call_options model =
     [(''model'', model), (''temperature'', JNum (1/10)), (''max_tokens'', JNum 200)]"

text \<open>The body of the \<open>try\<close> block of \<open>llmJudge\<close>.\<close>

definition llmJudge_try :: "js_host \<Rightarrow> provider \<Rightarrow> jsval \<Rightarrow> string \<Rightarrow> js_error + verdict" where
  "llmJudge_try host judge model prompt =
     (case complete judge (judge_messages prompt) (judge_call_options model) of
        Inl err \<Rightarrow> Inl err
      | Inr result \<Rightarrow>
          (case property (inherited host) result ''text'' of
             Inl err \<Rightarrow> Inl err
           | Inr text \<Rightarrow>
               (case stripThinkingTags text of
                  Inl err \<Rightarrow> Inl err
                | Inr judgeResponse \<Rightarrow> Inr (judge_verdict judgeResponse))))"

definition llmJudge :: "js_runtime \<Rightarrow> js_host \<Rightarrow> (string \<times> provider) list \<Rightarrow> jsobj \<Rightarrow> string
    \<Rightarrow> eval_options \<Rightarrow> js_error + verdict" where
  "llmJudge rt host PROVIDERS testCase response options =
     (case (case judgeProvider options of
              Some p \<Rightarrow> Inr p
            | None \<Rightarrow> getDefaultJudgeProvider host PROVIDERS) of
        Inl err \<Rightarrow> Inl err
      | Inr judge \<Rightarrow>
          (let model = js_or (judgeModel options) (JStr ''qwen3:8b'') in
           case llmJudge_try host judge model (judgePrompt rt testCase response) of
             Inr v \<Rightarrow> Inr v
           | Inl err \<Rightarrow>
               Inr \<lparr> pass = JBool False, score = JNum 0,
                     reason = ''LLM judge error: '' @ message err,
                     evalType = ''llm_judge'', extra = [] \<rparr>))"

subsection \<open>The dispatch\<close>

definition customEval :: "jsobj \<Rightarrow> string \<Rightarrow> verdict" where
  "customEval testCase response =
     \<lparr> pass = JBool True, score = JNum 1, reason = ''Custom evaluation not implemented'',
       evalType = ''custom'', extra = [] \<rparr>"

definition detectEvalType :: "jsobj \<Rightarrow> string" where
  "detectEvalType testCase =
     (if truthy (get testCase ''expected_tool'') then ''tool_call''
      else if truthy (get testCase ''expected_json'') then ''json_match''
      else if truthy (get testCase ''expected_regex'') then ''regex''
      else if truthy (get testCase ''expected_contains'') then ''contains''
      else if truthy (get testCase ''expected_semantic'') then ''semantic_similarity''
      else if truthy (get testCase ''safety_check'') then ''safety''
      else if truthy (get testCase ''expected'') then ''exact_match''
      else if truthy (get testCase ''criteria'') then ''llm_judge''
      else ''existence'')"

text \<open>The evaluators of the other modules (semantic similarity and safety) are
  parameters of the dispatch.\<close>

record collaborators =
  semanticSimilarityEval :: "jsobj \<Rightarrow> string \<Rightarrow> eval_options \<Rightarrow> js_error + verdict"
  safetyEval :: "jsobj \<Rightarrow> string \<Rightarrow> js_error + verdict"
  calculateCost :: "jsval \<Rightarrow> jsval \<Rightarrow> js_error + jsval"

definition evaluate :: "js_runtime \<Rightarrow> js_host \<Rightarrow> (string \<times> provider) list \<Rightarrow> collaborators
    \<Rightarrow> jsobj \<Rightarrow> jsval \<Rightarrow> eval_options \<Rightarrow> js_error + verdict" where
  "evaluate rt host PROVIDERS others testCase response options =
     (case stripThinkingTags response of
        Inl err \<Rightarrow> Inl err
      | Inr cleanedResponse \<Rightarrow>
          (let evalType = js_or (get testCase ''eval_type'') (JStr (detectEvalType testCase)) in
           if evalType = JStr ''exact_match'' then Inr (exactMatch rt testCase cleanedResponse)
           else if evalType = JStr ''contains'' then containsMatch rt testCase cleanedResponse
           else if evalType = JStr ''regex'' then Inr (regexMatch rt testCase cleanedResponse)
           else if evalType = JStr ''tool_call'' then toolCallMatch rt testCase cleanedResponse
           else if evalType = JStr ''json_match''
           then Inr (jsonMatch rt host testCase cleanedResponse)
           else if evalType = JStr ''llm_judge''
           then llmJudge rt host PROVIDERS testCase cleanedResponse options
           else if evalType = JStr ''semantic_similarity''
           then semanticSimilarityEval others testCase cleanedResponse options
           else if evalType = JStr ''safety'' then safetyEval others testCase cleanedResponse
           else if evalType = JStr ''custom'' then Inr (customEval testCase cleanedResponse)
           else if \<not> truthy (get testCase ''expected'') \<and> \<not> truthy (get testCase ''criteria'')
           then Inr \<lparr> pass = js_and (JStr cleanedResponse) (JBool (length cleanedResponse > 0)),
                      score = JNum (if truthy (js_and (JStr cleanedResponse)
                                                 (JBool (length cleanedResponse > 0)))
                                    then 1 else 0),
                      reason = (if truthy (JStr cleanedResponse) then ''Response received''
                                else ''No response (or only thinking tags)''),
                      evalType = ''existence'', extra = [] \<rparr>
           else if truthy (get testCase ''criteria'')
           then llmJudge rt host PROVIDERS testCase cleanedResponse options
           else Inr (exactMatch rt testCase cleanedResponse)))"

section \<open>Running a test case\<close>

text \<open>An execution record is the object \<open>runTestCase\<close> returns: an association
  list, read with \<open>get\<close> and written with \<open>set_prop\<close>.\<close>

definition set_prop :: "jsobj \<Rightarrow> string \<Rightarrow> jsval \<Rightarrow> jsobj" where
  \<comment> \<open>\<open>obj.k = v\<close>: the value is replaced in place, a new property comes last\<close>
  "set_prop obj k v = AList.update k v obj"

record run_options = eval_options +
  skipJudge :: bool
  verbose :: bool
  noCache :: bool

text \<open>
  \<open>runTestCase\<close>. The cache lookup and the rate-limited call of the provider (the
  first part of the \<open>try\<close> block) are input and output: their outcome \<open>fetched\<close> is
  an input of the model, \<open>Inl err\<close> when one of them raises, else the result object and
  whether it came from the cache. \<open>elapsed\<close> is \<open>Date.now() - startTime\<close> in the
  \<open>catch\<close> block.
\<close>

definition verdict_skipped :: verdict where
  "verdict_skipped =
     \<lparr> pass = JNull, score = JNull, reason = ''Evaluation skipped'', evalType = ''none'',
       extra = [] \<rparr>"

definition runTestCase_try :: "js_runtime \<Rightarrow> js_host \<Rightarrow> (string \<times> provider) list
    \<Rightarrow> collaborators \<Rightarrow> jsobj \<Rightarrow> jsobj \<Rightarrow> provider \<Rightarrow> run_options
    \<Rightarrow> js_error + jsval \<times> bool \<Rightarrow> js_error + jsobj" where
  "runTestCase_try rt host PROVIDERS others testCase modelConfig prov options fetched =
     (case fetched of
        Inl err \<Rightarrow> Inl err
      | Inr (result, fromCache) \<Rightarrow>
          (case property (inherited host) result ''usage'' of
             Inl err \<Rightarrow> Inl err
           | Inr usage \<Rightarrow>
               (case property (inherited host) result ''cost'' of
                  Inl err \<Rightarrow> Inl err
                | Inr cost0 \<Rightarrow>
                    (case (if truthy usage \<and> \<not> truthy cost0
                           then calculateCost others (get modelConfig ''model'') usage
                           else Inr cost0) of
                       Inl err \<Rightarrow> Inl err
                     | Inr cost \<Rightarrow>
                         (case property (inherited host) result ''text'' of
                            Inl err \<Rightarrow> Inl err
                          | Inr text \<Rightarrow>
                              (case (if \<not> skipJudge options
                                     then evaluate rt host PROVIDERS others testCase text
                                            \<lparr> judgeProvider = judgeProvider options,
                                              judgeModel = judgeModel options \<rparr>
                                     else Inr verdict_skipped) of
                                 Inl err \<Rightarrow> Inl err
                               | Inr evalResult \<Rightarrow>
                                   (case property (inherited host) result ''latencyMs'' of
                                      Inl err \<Rightarrow> Inl err
                                    | Inr latency \<Rightarrow>
                                        Inr [(''success'', JBool True),
                                             (''testCase'', get testCase ''name''),
                                             (''model'', get modelConfig ''model''),
                                             (''provider'', JStr (provider_name prov)),
                                             (''text'', text),
                                             (''usage'', usage),
                                             (''latencyMs'', latency),
                                             (''cost'', cost),
                                             (''error'', JNull),
                                             (''pass'', pass evalResult),
                                             (''score'', score evalResult),
                                             (''evalReason'', JStr (reason evalResult)),
                                             (''evalType'', JStr (evalType evalResult)),
                                             (''fromCache'', JBool fromCache),
                                             (''prompt'', get testCase ''prompt''),
                                             (''systemPrompt'', get testCase ''system_prompt'')])))))))"

definition runTestCase :: "js_runtime \<Rightarrow> js_host \<Rightarrow> (string \<times> provider) list
    \<Rightarrow> collaborators \<Rightarrow> jsobj \<Rightarrow> jsobj \<Rightarrow> provider \<Rightarrow> run_options
    \<Rightarrow> int \<Rightarrow> js_error + jsval \<times> bool \<Rightarrow> jsobj" where
  "runTestCase rt host PROVIDERS others testCase modelConfig prov options elapsed fetched =
     (case runTestCase_try rt host PROVIDERS others testCase modelConfig prov options fetched of
        Inr r \<Rightarrow> r
      | Inl err \<Rightarrow>
          [(''success'', JBool False),
           (''testCase'', get testCase ''name''),
           (''model'', get modelConfig ''model''),
           (''provider'', JStr (provider_name prov)),
           (''text'', JNull),
           (''usage'', JNull),
           (''latencyMs'', JNum (of_int elapsed)),
           (''cost'', JNull),
           (''error'', JStr (message err)),
           (''pass'', JBool False),
           (''score'', JNum 0),
           (''evalReason'', JStr (''Error: '' @ message err)),
           (''evalType'', JStr ''error''),
           (''prompt'', get testCase ''prompt''),
           (''systemPrompt'', get testCase ''system_prompt'')])"

subsection \<open>The retry orchestrator\<close>

definition non_retryable :: "jsval \<Rightarrow> bool" where
  \<comment> \<open>\<open>result.error?.includes('API key') || result.error?.includes('not configured')\<close>,
      for the error of a record: a text or \<open>null\<close>\<close>
  "non_retryable e =
     (case e of
        JStr s \<Rightarrow> includes_str s ''API key'' \<or> includes_str s ''not configured''
      | _ \<Rightarrow> False)"

definition fails_retryably :: "jsobj \<Rightarrow> bool" where
  \<comment> \<open>a record after which the loop goes on: no success, and an error that is retried\<close>
  "fails_retryably r = (\<not> truthy (get r ''success'') \<and> \<not> non_retryable (get r ''error''))"

definition number :: "int option \<Rightarrow> jsval" where
  \<comment> \<open>the value of a number that \<open>parseInt\<close> has read; \<open>None\<close> is NaN\<close>
  "number n = (case n of Some i \<Rightarrow> JNum (of_int i) | None \<Rightarrow> JNaN)"

definition MAX_RETRIES :: "js_host \<Rightarrow> int option" where
  \<comment> \<open>\<open>parseInt(process.env.MAX_RETRIES || '2', 10)\<close>\<close>
  "MAX_RETRIES host = parseInt (env_or (env host ''MAX_RETRIES'') ''2'')"

definition exhausted :: "js_runtime \<Rightarrow> int option \<Rightarrow> jsobj \<Rightarrow> jsobj \<Rightarrow> provider \<Rightarrow> jsval
    \<Rightarrow> jsobj" where
  \<comment> \<open>the record built after the loop; \<open>maxRetries\<close> is the value of \<open>MAX_RETRIES\<close>\<close>
  "exhausted rt maxRetries testCase modelConfig prov lastError =
     [(''success'', JBool False),
      (''testCase'', get testCase ''name''),
      (''model'', get modelConfig ''model''),
      (''provider'', JStr (provider_name prov)),
      (''text'', JNull),
      (''usage'', JNull),
      (''latencyMs'', JNum 0),
      (''cost'', JNull),
      (''error'', lastError),
      (''pass'', JBool False),
      (''score'', JNum 0),
      (''evalReason'', JStr (''Failed after '' @ toString rt (number maxRetries)
                            @ '' retries: '' @ toString rt lastError)),
      (''evalType'', JStr ''error''),
      (''retries'', number maxRetries)]"

text \<open>
  The loop of \<open>runTestCaseWithRetry\<close>, from the iteration \<open>attempt\<close> on, when
  \<open>MAX_RETRIES\<close> is the integer \<open>m\<close>. \<open>run k\<close> is the record the \<open>k\<close>-th call of
  \<open>runTestCase\<close> returns. The result is the record returned, the number of calls of
  \<open>runTestCase\<close> made from here on, and the delays slept (in units of
  \<open>RETRY_DELAY_MS\<close>).
\<close>

function retry_loop :: "js_runtime \<Rightarrow> int \<Rightarrow> jsobj \<Rightarrow> jsobj \<Rightarrow> provider \<Rightarrow> (nat \<Rightarrow> jsobj)
    \<Rightarrow> nat \<Rightarrow> jsval \<Rightarrow> jsobj \<times> nat \<times> nat list" where
  "retry_loop rt m testCase modelConfig prov run attempt lastError =
     (if int attempt \<le> m + 1
      then (let result = run attempt in
            if truthy (get result ''success'')
            then ((if attempt > 1 then set_prop result ''retries'' (JNum (of_nat (attempt - 1)))
                   else result), 1, [])
            else if non_retryable (get result ''error'') then (result, 1, [])
            else (case retry_loop rt m testCase modelConfig prov run (Suc attempt)
                         (get result ''error'') of
                    (r, calls, slept) \<Rightarrow>
                      (r, Suc calls,
                       (if int attempt \<le> m then [attempt] else []) @ slept)))
      else (exhausted rt (Some m) testCase modelConfig prov lastError, 0, []))"
  by pat_completeness auto
termination
  by (relation "measure (\<lambda>(rt, m, testCase, modelConfig, prov, run, attempt, lastError).
        nat (m + 2 - int attempt))") auto

declare retry_loop.simps [simp del]

text \<open>
  \<open>runTestCaseWithRetry\<close>, with the value \<open>maxRetries\<close> of \<open>MAX_RETRIES\<close>. When that
  value is NaN the test \<open>attempt <= MAX_RETRIES + 1\<close> is false from the start: no call
  is made and the record after the loop is returned.
\<close>

definition runTestCaseWithRetry :: "js_runtime \<Rightarrow> int option \<Rightarrow> jsobj \<Rightarrow> jsobj \<Rightarrow> provider
    \<Rightarrow> (nat \<Rightarrow> jsobj) \<Rightarrow> jsobj \<times> nat \<times> nat list" where
  "runTestCaseWithRetry rt maxRetries testCase modelConfig prov run =
     (case maxRetries of
        Some m \<Rightarrow> retry_loop rt m testCase modelConfig prov run 1 JNull
      | None \<Rightarrow> (exhausted rt None testCase modelConfig prov JNull, 0, []))"

subsection \<open>The summary of a run\<close>

record summary =
  passed :: nat
  failed :: nat
  errors :: nat
  total :: nat

definition summarize :: "jsobj list \<Rightarrow> summary" where
  "summarize results =
     \<lparr> passed = length (filter (\<lambda>r. get r ''pass'' = JBool True) results),
       failed = length (filter (\<lambda>r. get r ''pass'' = JBool False) results),
       errors = length (filter (\<lambda>r. \<not> truthy (get r ''success'')) results),
       total = length results \<rparr>"

section \<open>The response cache\<close>



text \<open>The cache directory: a file is absent (\<open>None\<close>), or reading it raises, or it has
  a content. Writing to a path may raise (\<open>write_error\<close>).\<close>

record cache_dir =
  files :: "string \<Rightarrow> (js_error + string) option"
  write_error :: "string \<Rightarrow> js_error option"

definition cache_path :: "string \<Rightarrow> string" where
  \<comment> \<open>\<open>join(CACHE_DIR, `${cacheKey}.json`)\<close>, relative to the cache directory\<close>
  "cache_path cacheKey = cacheKey @ ''.json''"

definition ToNumber :: "js_runtime \<Rightarrow> jsval \<Rightarrow> rat option" where
  \<comment> \<open>the number an operand of \<open>-\<close> denotes; \<open>None\<close> is NaN\<close>
  "ToNumber rt v =
     (case v of
        JUndefined \<Rightarrow> None
      | JNull \<Rightarrow> Some 0
      | JBool b \<Rightarrow> Some (if b then 1 else 0)
      | JNum n \<Rightarrow> Some n
      | JNaN \<Rightarrow> None
      | JStr s \<Rightarrow> StringToNumber rt s
      | JArr xs \<Rightarrow> StringToNumber rt (toString rt (JArr xs))
      | JObj kvs \<Rightarrow> None)"

definition ttlMs :: "js_host \<Rightarrow> int option" where
  \<comment> \<open>\<open>parseInt(process.env.CACHE_TTL_MS || '86400000', 10)\<close>\<close>
  "ttlMs host = parseInt (env_or (env host ''CACHE_TTL_MS'') ''86400000'')"

definition expired :: "js_runtime \<Rightarrow> js_host \<Rightarrow> int \<Rightarrow> jsval \<Rightarrow> bool" where
  \<comment> \<open>\<open>Date.now() - data.timestamp > ttlMs\<close>, false when either side is NaN\<close>
  "expired rt host now timestamp =
     (case (ToNumber rt timestamp, ttlMs host) of
        (Some t, Some ttl) \<Rightarrow> of_int now - t > of_int ttl
      | _ \<Rightarrow> False)"

definition getCachedResponse_try :: "js_runtime \<Rightarrow> js_host \<Rightarrow> cache_dir \<Rightarrow> int \<Rightarrow> string
    \<Rightarrow> js_error + jsval" where
  \<comment> \<open>the \<open>try\<close> block, for a file that exists\<close>
  "getCachedResponse_try rt host dir now cachePath =
     (case files dir cachePath of
        None \<Rightarrow> Inl (Error ''ENOENT: no such file or directory'')
      | Some (Inl err) \<Rightarrow> Inl err
      | Some (Inr content) \<Rightarrow>
          (case JSON_parse rt content of
             Inl err \<Rightarrow> Inl err
           | Inr data \<Rightarrow>
               (case property (inherited host) data ''timestamp'' of
                  Inl err \<Rightarrow> Inl err
                | Inr timestamp \<Rightarrow>
                    (if expired rt host now timestamp then Inr JNull
                     else property (inherited host) data ''response''))))"

definition getCachedResponse :: "js_runtime \<Rightarrow> js_host \<Rightarrow> cache_dir \<Rightarrow> int \<Rightarrow> string
    \<Rightarrow> js_error + jsval" where
  "getCachedResponse rt host dir now cacheKey =
     (let cachePath = cache_path cacheKey in
      if files dir cachePath = None then Inr JNull
      else case getCachedResponse_try rt host dir now cachePath of
             Inr v \<Rightarrow> Inr v
           | Inl err \<Rightarrow> Inr JNull)"

text \<open>\<open>setCachedResponse\<close> returns nothing; its effects are the new state of the
  directory and the lines written by \<open>console.warn\<close>.\<close>

definition writeFileSync :: "cache_dir \<Rightarrow> string \<Rightarrow> string \<Rightarrow> js_error + cache_dir" where
  "writeFileSync dir path content =
     (case write_error dir path of
        Some err \<Rightarrow> Inl err
      | None \<Rightarrow> Inr (dir\<lparr> files := (files dir)(path := Some (Inr content)) \<rparr>))"

definition setCachedResponse :: "js_runtime \<Rightarrow> cache_dir \<Rightarrow> int \<Rightarrow> string \<Rightarrow> jsval
    \<Rightarrow> js_error + cache_dir \<times> string list" where
  "setCachedResponse rt dir now cacheKey response =
     (let cachePath = cache_path cacheKey;
          data = JObj [(''timestamp'', JNum (of_int now)), (''response'', response)]
      in case (case JSON_stringify_indent rt data of
                 Inl err \<Rightarrow> Inl err
               | Inr content \<Rightarrow> writeFileSync dir cachePath content) of
           Inr dir' \<Rightarrow> Inr (dir', [])
         | Inl err \<Rightarrow> Inr (dir, [''Cache write failed: '' @ message err]))"

section \<open>The rate limiter\<close>

record RateLimiter =
  requestsPerMinute :: rat
  tokensPerMinute :: rat
  retryAfterMs :: rat
  requestTokens :: rat
  tokenBucket :: rat
  lastRefill :: int

definition num_or :: "rat option \<Rightarrow> rat \<Rightarrow> rat" where
  \<comment> \<open>\<open>options.x || d\<close> for a number\<close>
  "num_or v d = (case v of None \<Rightarrow> d | Some x \<Rightarrow> if x = 0 then d else x)"

definition new_RateLimiter :: "rat option \<Rightarrow> rat option \<Rightarrow> rat option \<Rightarrow> int \<Rightarrow> RateLimiter" where
  "new_RateLimiter rpm tpm retryAfter now =
     \<lparr> requestsPerMinute = num_or rpm 60,
       tokensPerMinute = num_or tpm 100000,
       retryAfterMs = num_or retryAfter 1000,
       requestTokens = num_or rpm 60,
       tokenBucket = num_or tpm 100000,
       lastRefill = now \<rparr>"



definition consume :: "rat \<Rightarrow> RateLimiter \<Rightarrow> RateLimiter" where
  "consume actualTokens this =
     this\<lparr> requestTokens := requestTokens this - 1,
           tokenBucket := tokenBucket this - actualTokens \<rparr>"


section \<open>What the specification says of json_match\<close>

text \<open>
  The specification's words for the extraction of \<open>json_match\<close>, to be compared with
  \<open>extract_json\<close>: "the first balanced object-or-array literal". \<open>balanced_prefix\<close>
  follows the nesting of braces and brackets from an opening one to the closing one
  that brings the depth back to zero.
\<close>

fun balanced_prefix :: "nat \<Rightarrow> string \<Rightarrow> string option" where
  "balanced_prefix d [] = None"
| "balanced_prefix d (c # cs) =
     (if c = CHR ''{'' \<or> c = CHR ''['' then map_option (Cons c) (balanced_prefix (Suc d) cs)
      else if c = CHR ''}'' \<or> c = CHR '']''
      then (case d of
              0 \<Rightarrow> None
            | Suc 0 \<Rightarrow> Some [c]
            | Suc (Suc d') \<Rightarrow> map_option (Cons c) (balanced_prefix (Suc d') cs))
      else map_option (Cons c) (balanced_prefix d cs))"

definition spec_first_balanced :: "string \<Rightarrow> string option" where
  "spec_first_balanced response =
     first_match (\<lambda>s. case s of
                        [] \<Rightarrow> None
                      | c # cs \<Rightarrow> if c = CHR ''{'' \<or> c = CHR ''['' then balanced_prefix 0 s else None)
                 response"

text \<open>
  The specification's words for the comparison of a value with the expected one:
  "deep-equal". Two arrays are deep-equal when their elements are, in order; two objects
  are when they have the same keys with deep-equal values, in whatever order the keys
  come; other values are when they are the same.
\<close>

fun spec_deep_equal :: "jsval \<Rightarrow> jsval \<Rightarrow> bool" where
  "spec_deep_equal (JArr xs) (JArr ys) = list_all2 spec_deep_equal xs ys"
| "spec_deep_equal (JObj a) (JObj b) =
     (list_all (\<lambda>(k, v). case map_of b k of Some w \<Rightarrow> spec_deep_equal v w | None \<Rightarrow> False) a
      \<and> list_all (\<lambda>k. map_of a k \<noteq> None) (map fst b))"
| "spec_deep_equal v w = (v = w)"

section \<open>A runtime for the worked examples\<close>

text \<open>The worked examples below need some runtime. This one parses the three JSON texts
  of the examples only and refuses every other text; it serializes without escapes and
  writes the integer part of a number; its digest is the text itself.\<close>

definition example_parse :: "string \<Rightarrow> js_error + jsval" where
  "example_parse s =
     (if s = ''{\"status\":\"ok\",\"x\":1}''
      then Inr (JObj [(''status'', JStr ''ok''), (''x'', JNum 1)])
      else if s = ''{\"timestamp\":1000,\"response\":{\"text\":\"hi\"}}''
      then Inr (JObj [(''timestamp'', JNum 1000), (''response'', JObj [(''text'', JStr ''hi'')])])
      else if s = ''{\"a\":{\"y\":2,\"x\":1}}''
      then Inr (JObj [(''a'', JObj [(''y'', JNum 2), (''x'', JNum 1)])])
      else Inl (SyntaxError ''Unexpected token''))"

definition example_number :: "rat \<Rightarrow> string" where
  "example_number n =
     (if n < 0 then ''-'' else []) @ nat_to_string (nat \<lfloor>\<bar>n\<bar>\<rfloor>)"

fun example_text :: "jsval \<Rightarrow> string" where
  "example_text JUndefined = ''null''"
| "example_text JNull = ''null''"
| "example_text (JBool b) = (if b then ''true'' else ''false'')"
| "example_text (JNum n) = example_number n"
| "example_text JNaN = ''null''"
| "example_text (JStr s) = ''\"'' @ s @ ''\"''"
| "example_text (JArr xs) = ''['' @ intercalate '','' (map example_text xs) @ '']''"
| "example_text (JObj kvs) =
     ''{'' @ intercalate '',''
              (map (\<lambda>(k, v). ''\"'' @ k @ ''\":'' @ example_text v)
                   (filter (\<lambda>(k, v). v \<noteq> JUndefined) kvs)) @ ''}''"

definition example_stringify :: "jsval \<Rightarrow> string option" where
  "example_stringify v = (if v = JUndefined then None else Some (example_text v))"

definition example_runtime :: js_runtime where
  "example_runtime =
     \<lparr> Number_toString = example_number,
       StringToNumber = (\<lambda>s. None),
       JSON_parse = example_parse,
       JSON_stringify = example_stringify,
       JSON_stringify_indent = (\<lambda>v. Inr (example_text v)),
       RegExp_test = (\<lambda>pattern flags s. Inl (SyntaxError ''Invalid regular expression'')),
       sha256_hex = (\<lambda>s. s) \<rparr>"

definition example_host :: js_host where
  "example_host = \<lparr> inherited = (\<lambda>v k. None), env = (\<lambda>k. None) \<rparr>"

definition failing_judge :: provider where
  "failing_judge =
     \<lparr> provider_name = ''ollama'', complete = (\<lambda>messages options. Inl (Error ''Ollama error: 500'')) \<rparr>"

definition terse_judge :: provider where
  "terse_judge =
     \<lparr> provider_name = ''ollama'',
       complete = (\<lambda>messages options. Inr (JObj [(''text'', JStr ''REASON: fine'')])) \<rparr>"

definition judge_replying :: "string \<Rightarrow> provider" where
  "judge_replying reply =
     \<lparr> provider_name = ''ollama'',
       complete = (\<lambda>messages options. Inr (JObj [(''text'', JStr reply)])) \<rparr>"

definition example_failure :: "string \<Rightarrow> jsobj" where
  "example_failure msg =
     [(''success'', JBool False), (''error'', JStr msg), (''pass'', JBool False), (''score'', JNum 0)]"

definition example_success :: jsobj where
  "example_success =
     [(''success'', JBool True), (''error'', JNull), (''pass'', JBool True), (''score'', JNum 1)]"

definition example_cache :: cache_dir where
  "example_cache =
     \<lparr> files = (\<lambda>path. if path = ''k.json''
                       then Some (Inr ''{\"timestamp\":1000,\"response\":{\"text\":\"hi\"}}'')
                       else None),
       write_error = (\<lambda>path. Some (Error ''EACCES: permission denied'')) \<rparr>"


definition pondering_judge :: provider where
  "pondering_judge =
     \<lparr> provider_name = ''ollama'',
       complete = (\<lambda>messages options.
          Inr (JObj [(''text'', JStr ''<think>hm</think> REASON: fine'')])) \<rparr>"

definition example_collaborators :: collaborators where
  "example_collaborators =
     \<lparr> semanticSimilarityEval = (\<lambda>testCase response options. Inl (Error ''Embedding failed'')),
       safetyEval = (\<lambda>testCase response. Inl (Error ''Safety check failed'')),
       calculateCost = (\<lambda>model usage. Inr JNull) \<rparr>"

text \<open>
  A test case with no expectation, a provider reply with an empty text, and the run of
  that test case through \<open>runTestCaseWithRetry\<close>.
\<close>

definition silent_reply :: "js_error + jsval \<times> bool" where
  "silent_reply =
     Inr (JObj [(''text'', JStr []), (''usage'', JNull), (''latencyMs'', JNum 12),
                (''cost'', JNull)], False)"

definition existence_case :: jsobj where
  "existence_case = [(''name'', JStr ''greeting''), (''prompt'', JStr ''Say hello'')]"

definition default_options :: run_options where
  "default_options =
     \<lparr> judgeProvider = None, judgeModel = JUndefined,
       skipJudge = False, verbose = False, noCache = False \<rparr>"

definition silent_run :: "js_runtime \<Rightarrow> js_host \<Rightarrow> (string \<times> provider) list \<Rightarrow> collaborators
    \<Rightarrow> jsobj \<Rightarrow> provider \<Rightarrow> jsobj" where
  "silent_run rt host PROVIDERS others modelConfig prov =
     fst (runTestCaseWithRetry rt (Some 2) existence_case modelConfig prov
            (\<lambda>attempt. runTestCase rt host PROVIDERS others existence_case modelConfig prov
                          default_options 0 silent_reply))"

definition refused_run :: jsobj where
  "refused_run =
     fst (runTestCaseWithRetry example_runtime (Some 2) existence_case [] terse_judge
            (\<lambda>attempt. runTestCase example_runtime example_host [] example_collaborators
                          existence_case [] terse_judge default_options 0
                          (Inl (Error ''Anthropic API key not configured''))))"

text \<open>A record that reports no success has failed with score 0.\<close>

definition failure_shape :: "jsobj \<Rightarrow> bool" where
  "failure_shape r = (\<not> truthy (get r ''success'') \<longrightarrow>
       get r ''pass'' = JBool False \<and> get r ''score'' = JNum 0)"

text \<open>
  Outcomes of the provider call for the attempts of one test case: a provider that is
  not configured, one that answers at once, one that times out twice and then answers,
  and one that always times out.
\<close>

definition example_reply :: "js_error + jsval \<times> bool" where
  "example_reply =
     Inr (JObj [(''text'', JStr ''Hello''), (''usage'', JNull), (''latencyMs'', JNum 12),
                (''cost'', JNull)], False)"

definition unconfigured :: "nat \<Rightarrow> js_error + jsval \<times> bool" where
  "unconfigured attempt = Inl (Error ''Anthropic API key not configured'')"

definition flaky :: "nat \<Rightarrow> js_error + jsval \<times> bool" where
  "flaky attempt = (if attempt < 3 then Inl (Error ''Request timed out'') else example_reply)"

definition down :: "nat \<Rightarrow> js_error + jsval \<times> bool" where
  "down attempt = Inl (Error ''Request timed out'')"

definition ready :: "nat \<Rightarrow> js_error + jsval \<times> bool" where
  "ready attempt = example_reply"

definition example_run :: "(nat \<Rightarrow> js_error + jsval \<times> bool) \<Rightarrow> nat \<Rightarrow> jsobj" where
  "example_run fetched attempt =
     runTestCase example_runtime example_host [] example_collaborators existence_case []
       terse_judge default_options 0 (fetched attempt)"

section \<open>Properties of the evaluators\<close>

subsection \<open>tool_call\<close>

lemma parsedTool_of_hello: "parsedTool_of ''hello'' = None"
  by code_simp

lemma parsedTool_of_call: "parsedTool_of ''TOOL: Get_Weather(Paris)'' = Some ''get_weather''"
  by code_simp

lemma toLowerCase_Get_Weather: "toLowerCase ''Get_Weather'' = ''get_weather''"
  by code_simp

lemma parsedTool_of_other: "parsedTool_of ''TOOL: delete_all(x)'' = Some ''delete_all''"
  by code_simp

lemma parsedTool_of_refusal: "parsedTool_of ''TOOL: none'' = Some ''none''"
  by code_simp

text \<open>
  C9 fails in the code. The test case below asks for the tool_call evaluator and has an
  empty \<open>expected_args\<close>, but names no expected tool. No tool call is parsed from the
  response, and the score 0.5 is not what comes back: \<open>toolCallMatch\<close> calls
  \<open>toLowerCase\<close> on \<open>undefined\<close>, and no verdict is returned at all.
\<close>

theorem toolCallMatch_without_expected_tool:
  "toolCallMatch rt [(''prompt'', JStr ''What is the weather in Tokyo?''),
                     (''eval_type'', JStr ''tool_call''), (''expected_args'', JArr [])]
       ''I cannot help with that''
     = Inl (TypeError ''Cannot read properties of undefined'')
   \<and> evaluate rt host PROVIDERS others
         [(''prompt'', JStr ''What is the weather in Tokyo?''),
          (''eval_type'', JStr ''tool_call''), (''expected_args'', JArr [])]
         (JStr ''I cannot help with that'') options
     = Inl (TypeError ''Cannot read properties of undefined'')"
proof -
  have s: "stripThinkingTags (JStr ''I cannot help with that'') = Inr ''I cannot help with that''"
    by code_simp
  have t: "toolCallMatch rt [(''prompt'', JStr ''What is the weather in Tokyo?''),
                     (''eval_type'', JStr ''tool_call''), (''expected_args'', JArr [])]
       ''I cannot help with that''
     = Inl (TypeError ''Cannot read properties of undefined'')"
    by (simp add: toolCallMatch_def get_def Let_def)
  show ?thesis
    using t by (simp add: evaluate_def s get_def js_or_def)
qed

text \<open>
  With an expected tool that is a text, the argument half is awarded whatever the
  response is when \<open>expected_args\<close> is absent (or otherwise falsy) or the empty list:
  the score is 1 and the verdict passes when the parsed tool is the expected one
  (compared in lower case), and the score is 0.5 and the verdict fails in every other
  case, whether no tool call is parsed, or another tool, or the "none" signal.
\<close>

theorem toolCallMatch_args_half:
  assumes tool: "get testCase ''expected_tool'' = JStr tool"
      and args: "\<not> truthy (get testCase ''expected_args'')
                 \<or> get testCase ''expected_args'' = JArr []"
  shows "\<exists>v. toolCallMatch rt testCase response = Inr v
           \<and> score v = JNum (if parsedTool_of response = Some (toLowerCase tool) then 1 else 1/2)
           \<and> pass v = JBool (parsedTool_of response = Some (toLowerCase tool))"
proof -
  have "js_or (get testCase ''expected_args'') (JArr []) = JArr []"
    using args by (auto simp: js_or_def)
  then show ?thesis
    using tool by (simp add: toolCallMatch_def args_match_def Let_def)
qed

theorem toolCallMatch_args_half_witness:
  "(\<exists>v. toolCallMatch example_runtime [(''expected_tool'', JStr ''Get_Weather'')] ''hello'' = Inr v
         \<and> score v = JNum (1/2) \<and> pass v = JBool False)
   \<and> (\<exists>v. toolCallMatch example_runtime [(''expected_tool'', JStr ''Get_Weather'')]
              ''TOOL: delete_all(x)'' = Inr v
         \<and> score v = JNum (1/2) \<and> pass v = JBool False)
   \<and> (\<exists>v. toolCallMatch example_runtime [(''expected_tool'', JStr ''Get_Weather'')]
              ''TOOL: none'' = Inr v
         \<and> score v = JNum (1/2) \<and> pass v = JBool False)
   \<and> (\<exists>v. toolCallMatch example_runtime [(''expected_tool'', JStr ''Get_Weather'')]
              ''TOOL: Get_Weather(Paris)'' = Inr v
         \<and> score v = JNum 1 \<and> pass v = JBool True)"
proof -
  have tool: "get [(''expected_tool'', JStr ''Get_Weather'')] ''expected_tool'' = JStr ''Get_Weather''"
    by (simp add: get_def)
  have args: "\<not> truthy (get [(''expected_tool'', JStr ''Get_Weather'')] ''expected_args'')
              \<or> get [(''expected_tool'', JStr ''Get_Weather'')] ''expected_args'' = JArr []"
    by (simp add: get_def)
  have ne: "''delete_all'' \<noteq> ''get_weather''" "''none'' \<noteq> ''get_weather''"
    by simp_all
  show ?thesis
    using toolCallMatch_args_half [OF tool args, of example_runtime "''hello''"]
          toolCallMatch_args_half [OF tool args, of example_runtime "''TOOL: delete_all(x)''"]
          toolCallMatch_args_half [OF tool args, of example_runtime "''TOOL: none''"]
          toolCallMatch_args_half [OF tool args, of example_runtime "''TOOL: Get_Weather(Paris)''"]
    by (simp add: parsedTool_of_hello parsedTool_of_call parsedTool_of_other
          parsedTool_of_refusal toLowerCase_Get_Weather del: One_nat_def)
qed

subsection \<open>The dispatch boundary\<close>

text \<open>
  C1. The dispatch does let a fault through. With \<open>eval_type\<close> forced to
  \<open>tool_call\<close> and no \<open>expected_tool\<close>, \<open>toolCallMatch\<close> calls \<open>toLowerCase\<close> on
  \<open>undefined\<close> outside any \<open>try\<close>; and \<open>llmJudge\<close> resolves its judge before its
  \<open>try\<close> block, so a judge that cannot be resolved is a fault as well. Both are the
  value of \<open>evaluate\<close> here, where a verdict was promised.
\<close>

theorem evaluate_throws_past_dispatch:
  "evaluate rt host PROVIDERS others [(''eval_type'', JStr ''tool_call'')]
       (JStr ''TOOL: get_weather(Tokyo)'') options
     = Inl (TypeError ''Cannot read properties of undefined'')
   \<and> evaluate rt host [] others [(''criteria'', JStr ''helpful'')] (JStr ''Hello'')
         \<lparr> judgeProvider = None, judgeModel = JUndefined \<rparr>
     = Inl (Error ''No judge provider available'')"
  by (simp add: evaluate_def stripThinkingTags_def js_or_def get_def toolCallMatch_def
      detectEvalType_def llmJudge_def getDefaultJudgeProvider_def getProvider_def Let_def)

subsection \<open>llm_judge\<close>

lemma terse_reply:
  "stripThinkingTags (JStr ''REASON: fine'') = Inr ''REASON: fine''"
  "first_match score_at ''REASON: fine'' = None"
  "first_match pass_at ''REASON: fine'' = None"
  by code_simp+

lemma judge_replies:
  "stripThinkingTags (JStr ''SCORE: 70'') = Inr ''SCORE: 70''"
  "first_match score_at ''SCORE: 70'' = Some ''70''"
  "first_match pass_at ''SCORE: 70'' = None"
  "stripThinkingTags (JStr ''SCORE: 69'') = Inr ''SCORE: 69''"
  "first_match score_at ''SCORE: 69'' = Some ''69''"
  "first_match pass_at ''SCORE: 69'' = None"
  "stripThinkingTags (JStr (''<think>hm</think>score: 95'' @ nl @ ''PASS: no''))
     = Inr (''score: 95'' @ nl @ ''PASS: no'')"
  "first_match score_at (''score: 95'' @ nl @ ''PASS: no'') = Some ''95''"
  "first_match pass_at (''score: 95'' @ nl @ ''PASS: no'') = Some ''no''"
  "stripThinkingTags (JStr ''PASS: YES'') = Inr ''PASS: YES''"
  "first_match score_at ''PASS: YES'' = None"
  "first_match pass_at ''PASS: YES'' = Some ''YES''"
  "toUpperCase ''no'' = ''NO''"
  "toUpperCase ''YES'' = ''YES''"
  "digits_to_nat 0 ''70'' = 70"
  "digits_to_nat 0 ''69'' = 69"
  "digits_to_nat 0 ''95'' = 95"
  by code_simp+

lemma default_judge:
  "getDefaultJudgeProvider example_host [(''ollama'', judge)] = Inr judge"
proof -
  have "toLowerCase ''ollama'' = ''ollama''" by code_simp
  then show ?thesis
    by (simp add: getDefaultJudgeProvider_def getProvider_def env_or_def example_host_def)
qed

text \<open>
  C7. The judge is the one in the options or, without one, the default judge. Once it is
  resolved, \<open>llmJudge\<close> always returns a verdict. When the call of the judge raises, or
  its result has no text that can be sanitized, the verdict fails with score 0 and the
  error's text in its reason. Otherwise the reply is sanitized and parsed: the score is
  the number of the SCORE line divided by 100, and 0.5 when there is no SCORE line; the
  verdict passes as the PASS line says, and when there is no PASS line it passes exactly
  when the score is at least 0.7.
\<close>

theorem llmJudge_degrades:
  assumes judge: "(case judgeProvider options of
                     Some p \<Rightarrow> Inr p
                   | None \<Rightarrow> getDefaultJudgeProvider host PROVIDERS) = Inr judge"
      and call: "outcome = complete judge (judge_messages (judgePrompt rt testCase response))
                   (judge_call_options (js_or (judgeModel options) (JStr ''qwen3:8b'')))"
  shows "(\<forall>err. outcome = Inl err \<longrightarrow>
            llmJudge rt host PROVIDERS testCase response options
              = Inr \<lparr> pass = JBool False, score = JNum 0,
                      reason = ''LLM judge error: '' @ message err,
                      evalType = ''llm_judge'', extra = [] \<rparr>)
       \<and> (\<forall>result err. outcome = Inr result
             \<and> (property (inherited host) result ''text'' = Inl err
                 \<or> (\<exists>reply. property (inherited host) result ''text'' = Inr reply
                       \<and> stripThinkingTags reply = Inl err)) \<longrightarrow>
            llmJudge rt host PROVIDERS testCase response options
              = Inr \<lparr> pass = JBool False, score = JNum 0,
                      reason = ''LLM judge error: '' @ message err,
                      evalType = ''llm_judge'', extra = [] \<rparr>)
       \<and> (\<forall>result reply judgeResponse.
             outcome = Inr result \<and> property (inherited host) result ''text'' = Inr reply
             \<and> stripThinkingTags reply = Inr judgeResponse \<longrightarrow>
            (\<exists>v sc. llmJudge rt host PROVIDERS testCase response options = Inr v
               \<and> score v = JNum sc
               \<and> (first_match score_at judgeResponse = None \<longrightarrow> sc = 1/2)
               \<and> (\<forall>ds. first_match score_at judgeResponse = Some ds
                      \<longrightarrow> sc = of_nat (digits_to_nat 0 ds) / 100)
               \<and> (first_match pass_at judgeResponse = None \<longrightarrow> pass v = JBool (sc \<ge> 7/10))
               \<and> (\<forall>w. first_match pass_at judgeResponse = Some w
                      \<longrightarrow> pass v = JBool (toUpperCase w = ''YES''))))"
proof -
  let ?failing = "\<lambda>err. Inr \<lparr> pass = JBool False, score = JNum 0,
                      reason = ''LLM judge error: '' @ message err,
                      evalType = ''llm_judge'', extra = ([] :: jsobj) \<rparr> :: js_error + verdict"
  have failed: "llmJudge rt host PROVIDERS testCase response options = ?failing err"
    if "outcome = Inl err" for err
    using judge call [symmetric] that by (simp add: llmJudge_def llmJudge_try_def Let_def)
  have broken: "llmJudge rt host PROVIDERS testCase response options = ?failing err"
    if "outcome = Inr result
             \<and> (property (inherited host) result ''text'' = Inl err
                 \<or> (\<exists>reply. property (inherited host) result ''text'' = Inr reply
                       \<and> stripThinkingTags reply = Inl err))" for result err
    using judge call [symmetric] that by (auto simp: llmJudge_def llmJudge_try_def Let_def)
  have replied: "\<exists>v sc. llmJudge rt host PROVIDERS testCase response options = Inr v
               \<and> score v = JNum sc
               \<and> (first_match score_at judgeResponse = None \<longrightarrow> sc = 1/2)
               \<and> (\<forall>ds. first_match score_at judgeResponse = Some ds
                      \<longrightarrow> sc = of_nat (digits_to_nat 0 ds) / 100)
               \<and> (first_match pass_at judgeResponse = None \<longrightarrow> pass v = JBool (sc \<ge> 7/10))
               \<and> (\<forall>w. first_match pass_at judgeResponse = Some w
                      \<longrightarrow> pass v = JBool (toUpperCase w = ''YES''))"
    if h: "outcome = Inr result \<and> property (inherited host) result ''text'' = Inr reply
             \<and> stripThinkingTags reply = Inr judgeResponse"
    for result reply judgeResponse
  proof -
    have v: "llmJudge rt host PROVIDERS testCase response options
               = Inr (judge_verdict judgeResponse)"
      using judge call [symmetric] h by (simp add: llmJudge_def llmJudge_try_def Let_def)
    let ?sc = "(case first_match score_at judgeResponse of
                  Some ds \<Rightarrow> of_nat (digits_to_nat 0 ds) / 100 | None \<Rightarrow> 1/2) :: rat"
    have sc: "score (judge_verdict judgeResponse) = JNum ?sc"
      by (simp add: judge_verdict_def Let_def)
    have s0: "first_match score_at judgeResponse = None \<Longrightarrow> ?sc = 1/2"
      by simp
    have s1: "first_match score_at judgeResponse = Some ds
                \<Longrightarrow> ?sc = of_nat (digits_to_nat 0 ds) / 100" for ds
      by simp
    have p0: "first_match pass_at judgeResponse = None \<Longrightarrow>
                pass (judge_verdict judgeResponse) = JBool (?sc \<ge> 7/10)"
      by (simp add: judge_verdict_def Let_def)
    have p1: "first_match pass_at judgeResponse = Some w \<Longrightarrow>
                pass (judge_verdict judgeResponse) = JBool (toUpperCase w = ''YES'')" for w
      by (simp add: judge_verdict_def Let_def)
    show ?thesis
      apply (rule exI [of _ "judge_verdict judgeResponse"])
      apply (rule exI [of _ ?sc])
      apply (intro conjI allI impI)
           apply (rule v)
          apply (rule sc)
         apply (erule s0)
        apply (erule s1)
       apply (erule p0)
      apply (erule p1)
      done
  qed
  show ?thesis
    using failed broken replied by blast
qed

theorem llmJudge_degrades_witness:
  "llmJudge example_runtime example_host [] [(''criteria'', JStr ''helpful'')] ''Hi''
       \<lparr> judgeProvider = Some failing_judge, judgeModel = JUndefined \<rparr>
     = Inr \<lparr> pass = JBool False, score = JNum 0,
             reason = ''LLM judge error: Ollama error: 500'',
             evalType = ''llm_judge'', extra = [] \<rparr>
   \<and> (\<exists>v. llmJudge example_runtime example_host [(''ollama'', judge_replying ''SCORE: 70'')]
              [(''criteria'', JStr ''helpful'')] ''Hi''
              \<lparr> judgeProvider = None, judgeModel = JUndefined \<rparr> = Inr v
          \<and> score v = JNum (7/10) \<and> pass v = JBool True)
   \<and> (\<exists>v. llmJudge example_runtime example_host [] [(''criteria'', JStr ''helpful'')] ''Hi''
              \<lparr> judgeProvider = Some (judge_replying ''SCORE: 69''), judgeModel = JUndefined \<rparr>
            = Inr v
          \<and> score v = JNum (69/100) \<and> pass v = JBool False)
   \<and> (\<exists>v. llmJudge example_runtime example_host [] [(''criteria'', JStr ''helpful'')] ''Hi''
              \<lparr> judgeProvider = Some (judge_replying
                    (''<think>hm</think>score: 95'' @ nl @ ''PASS: no'')),
                judgeModel = JUndefined \<rparr>
            = Inr v
          \<and> score v = JNum (19/20) \<and> pass v = JBool False)
   \<and> (\<exists>v. llmJudge example_runtime example_host [] [(''criteria'', JStr ''helpful'')] ''Hi''
              \<lparr> judgeProvider = Some (judge_replying ''PASS: YES''), judgeModel = JUndefined \<rparr>
            = Inr v
          \<and> score v = JNum (1/2) \<and> pass v = JBool True)
   \<and> (\<exists>v. llmJudge example_runtime example_host [] [(''criteria'', JStr ''helpful'')] ''Hi''
              \<lparr> judgeProvider = Some terse_judge, judgeModel = JUndefined \<rparr> = Inr v
          \<and> score v = JNum (1/2) \<and> pass v = JBool False)"
proof -
  let ?tc = "[(''criteria'', JStr ''helpful'')]"
  let ?o1 = "\<lparr> judgeProvider = Some failing_judge, judgeModel = JUndefined \<rparr>"
  have j1: "(case judgeProvider ?o1 of Some p \<Rightarrow> Inr p
            | None \<Rightarrow> getDefaultJudgeProvider example_host []) = Inr failing_judge"
    by simp
  have c1: "Inl (Error ''Ollama error: 500'')
              = complete failing_judge (judge_messages (judgePrompt example_runtime ?tc ''Hi''))
                  (judge_call_options (js_or (judgeModel ?o1) (JStr ''qwen3:8b'')))"
    by (simp add: failing_judge_def)
  have one: "llmJudge example_runtime example_host [] ?tc ''Hi'' ?o1
     = Inr \<lparr> pass = JBool False, score = JNum 0,
             reason = ''LLM judge error: '' @ message (Error ''Ollama error: 500''),
             evalType = ''llm_judge'', extra = [] \<rparr>"
    by (rule llmJudge_degrades [OF j1 c1, THEN conjunct1, THEN spec, THEN mp, OF refl])
  have replied: "\<exists>v sc. llmJudge example_runtime example_host table ?tc ''Hi'' opts = Inr v
               \<and> score v = JNum sc
               \<and> (first_match score_at J = None \<longrightarrow> sc = 1/2)
               \<and> (\<forall>ds. first_match score_at J = Some ds
                      \<longrightarrow> sc = of_nat (digits_to_nat 0 ds) / 100)
               \<and> (first_match pass_at J = None \<longrightarrow> pass v = JBool (sc \<ge> 7/10))
               \<and> (\<forall>w. first_match pass_at J = Some w
                      \<longrightarrow> pass v = JBool (toUpperCase w = ''YES''))"
    if j: "(case judgeProvider opts of Some p \<Rightarrow> Inr p
            | None \<Rightarrow> getDefaultJudgeProvider example_host table) = Inr (judge_replying R)"
      and s: "stripThinkingTags (JStr R) = Inr J"
    for table opts R J
  proof -
    have rd: "complete (judge_replying R) (judge_messages (judgePrompt example_runtime ?tc ''Hi''))
                (judge_call_options (js_or (judgeModel opts) (JStr ''qwen3:8b'')))
              = Inr (JObj [(''text'', JStr R)])
            \<and> property (inherited example_host) (JObj [(''text'', JStr R)]) ''text''
               = Inr (JStr R)
            \<and> stripThinkingTags (JStr R) = Inr J"
      by (simp add: judge_replying_def property_def own_property_def s)
    show ?thesis
      by (rule llmJudge_degrades [OF j refl, THEN conjunct2, THEN conjunct2, THEN spec,
            THEN spec, THEN spec, THEN mp, OF rd])
  qed
  have verdict: "\<exists>v. llmJudge example_runtime example_host table ?tc ''Hi'' opts = Inr v
               \<and> score v = JNum (case first_match score_at J of
                                    Some ds \<Rightarrow> of_nat (digits_to_nat 0 ds) / 100
                                  | None \<Rightarrow> 1/2)
               \<and> pass v = JBool (case first_match pass_at J of
                                    Some w \<Rightarrow> toUpperCase w = ''YES''
                                  | None \<Rightarrow>
                                      (case first_match score_at J of
                                         Some ds \<Rightarrow> of_nat (digits_to_nat 0 ds) / 100
                                       | None \<Rightarrow> 1/2) \<ge> (7/10 :: rat))"
    if j: "(case judgeProvider opts of Some p \<Rightarrow> Inr p
            | None \<Rightarrow> getDefaultJudgeProvider example_host table) = Inr (judge_replying R)"
      and s: "stripThinkingTags (JStr R) = Inr J"
    for table opts R J
  proof -
    from replied [OF j s] obtain v sc where
      all: "llmJudge example_runtime example_host table ?tc ''Hi'' opts = Inr v
               \<and> score v = JNum sc
               \<and> (first_match score_at J = None \<longrightarrow> sc = 1/2)
               \<and> (\<forall>ds. first_match score_at J = Some ds
                      \<longrightarrow> sc = of_nat (digits_to_nat 0 ds) / 100)
               \<and> (first_match pass_at J = None \<longrightarrow> pass v = JBool (sc \<ge> 7/10))
               \<and> (\<forall>w. first_match pass_at J = Some w
                      \<longrightarrow> pass v = JBool (toUpperCase w = ''YES''))"
      by (elim exE) (rule that, assumption)
    show ?thesis
      apply (rule exI [of _ v])
      using all by (cases "first_match score_at J"; cases "first_match pass_at J") auto
  qed
  let ?explicit = "\<lambda>R. \<lparr> judgeProvider = Some (judge_replying R), judgeModel = JUndefined \<rparr>"
  have explicit: "(case judgeProvider (?explicit R) of Some p \<Rightarrow> Inr p
            | None \<Rightarrow> getDefaultJudgeProvider example_host []) = Inr (judge_replying R)" for R
    by simp
  have dflt: "(case judgeProvider \<lparr> judgeProvider = None, judgeModel = JUndefined \<rparr> of
                 Some p \<Rightarrow> Inr p
               | None \<Rightarrow> getDefaultJudgeProvider example_host [(''ollama'', judge_replying R)])
               = Inr (judge_replying R)" for R
    by (simp add: default_judge)
  have two: "\<exists>v. llmJudge example_runtime example_host [(''ollama'', judge_replying ''SCORE: 70'')]
              ?tc ''Hi'' \<lparr> judgeProvider = None, judgeModel = JUndefined \<rparr> = Inr v
          \<and> score v = JNum (7/10) \<and> pass v = JBool True"
    using verdict [OF dflt judge_replies(1)] unfolding judge_replies option.case by simp
  have three: "\<exists>v. llmJudge example_runtime example_host [] ?tc ''Hi''
              \<lparr> judgeProvider = Some (judge_replying ''SCORE: 69''), judgeModel = JUndefined \<rparr>
            = Inr v
          \<and> score v = JNum (69/100) \<and> pass v = JBool False"
    using verdict [OF explicit judge_replies(4)] unfolding judge_replies option.case by simp
  have four: "\<exists>v. llmJudge example_runtime example_host [] ?tc ''Hi''
              \<lparr> judgeProvider = Some (judge_replying
                    (''<think>hm</think>score: 95'' @ nl @ ''PASS: no'')),
                judgeModel = JUndefined \<rparr>
            = Inr v
          \<and> score v = JNum (19/20) \<and> pass v = JBool False"
    using verdict [OF explicit judge_replies(7)] unfolding judge_replies option.case by simp
  have five: "\<exists>v. llmJudge example_runtime example_host [] ?tc ''Hi''
              \<lparr> judgeProvider = Some (judge_replying ''PASS: YES''), judgeModel = JUndefined \<rparr>
            = Inr v
          \<and> score v = JNum (1/2) \<and> pass v = JBool True"
    using verdict [OF explicit judge_replies(10)] unfolding judge_replies option.case by simp
  have t: "terse_judge = judge_replying ''REASON: fine''"
    by (simp add: terse_judge_def judge_replying_def)
  have six: "\<exists>v. llmJudge example_runtime example_host [] ?tc ''Hi''
              \<lparr> judgeProvider = Some terse_judge, judgeModel = JUndefined \<rparr> = Inr v
          \<and> score v = JNum (1/2) \<and> pass v = JBool False"
    using verdict [OF explicit terse_reply(1)] unfolding t terse_reply option.case by simp
  show ?thesis
    apply (intro conjI)
    using one apply simp
        apply (rule two)
       apply (rule three)
      apply (rule four)
     apply (rule five)
    apply (rule six)
    done
qed

section \<open>Properties of the retry orchestrator\<close>

lemma retry_loop_skip:
  assumes "\<forall>k. a \<le> k \<and> k < n \<longrightarrow> fails_retryably (run k)"
      and "a \<le> n" and "int n \<le> M + 2"
  shows "fst (retry_loop rt M tc mc p run a e)
           = fst (retry_loop rt M tc mc p run n (if a = n then e else get (run (n - 1)) ''error''))
       \<and> fst (snd (retry_loop rt M tc mc p run a e))
           = (n - a) + fst (snd (retry_loop rt M tc mc p run n
                                   (if a = n then e else get (run (n - 1)) ''error'')))"
  using assms
proof (induction "n - a" arbitrary: a e)
  case 0
  then show ?case by simp
next
  case (Suc d)
  then have lt: "a < n" by simp
  with Suc.prems have bad: "fails_retryably (run a)" by simp
  have le: "int a \<le> M + 1" using lt Suc.prems(3) by simp
  have step: "retry_loop rt M tc mc p run a e =
        (case retry_loop rt M tc mc p run (Suc a) (get (run a) ''error'') of
           (r, calls, slept) \<Rightarrow> (r, Suc calls, (if int a \<le> M then [a] else []) @ slept))"
    using bad le by (subst retry_loop.simps) (simp add: fails_retryably_def Let_def)
  have IH: "fst (retry_loop rt M tc mc p run (Suc a) (get (run a) ''error''))
           = fst (retry_loop rt M tc mc p run n
                   (if Suc a = n then get (run a) ''error'' else get (run (n - 1)) ''error''))
       \<and> fst (snd (retry_loop rt M tc mc p run (Suc a) (get (run a) ''error'')))
           = (n - Suc a) + fst (snd (retry_loop rt M tc mc p run n
                   (if Suc a = n then get (run a) ''error'' else get (run (n - 1)) ''error'')))"
    using Suc.hyps(1)[of "Suc a" "get (run a) ''error''"] Suc.hyps(2) Suc.prems lt by simp
  have e: "(if Suc a = n then get (run a) ''error'' else get (run (n - 1)) ''error'')
         = (if a = n then e else get (run (n - 1)) ''error'')"
    using lt by auto
  have d: "Suc (n - Suc a) = n - a" using lt by simp
  show ?case
    unfolding step using IH d unfolding e by (simp add: case_prod_beta)
qed

lemma get_set_prop: "get (set_prop obj k v) k = v"
  by (simp add: get_def set_prop_def update_conv')

lemma non_retryable_examples:
  "non_retryable (JStr ''Anthropic API key not configured'')"
  "\<not> non_retryable (JStr ''Request timed out'')"
  by code_simp+

lemma retry_loop_slept:
  assumes "\<forall>k. a \<le> k \<and> k < n \<longrightarrow> fails_retryably (run k)"
      and "a \<le> n" and "int n \<le> M + 2"
  shows "snd (snd (retry_loop rt M tc mc p run a e))
           = filter (\<lambda>k. int k \<le> M) [a..<n]
             @ snd (snd (retry_loop rt M tc mc p run n
                           (if a = n then e else get (run (n - 1)) ''error'')))"
  using assms
proof (induction "n - a" arbitrary: a e)
  case 0
  then show ?case by simp
next
  case (Suc d)
  then have lt: "a < n" by simp
  with Suc.prems have bad: "fails_retryably (run a)" by simp
  have le: "int a \<le> M + 1" using lt Suc.prems(3) by simp
  have step: "retry_loop rt M tc mc p run a e =
        (case retry_loop rt M tc mc p run (Suc a) (get (run a) ''error'') of
           (r, calls, slept) \<Rightarrow> (r, Suc calls, (if int a \<le> M then [a] else []) @ slept))"
    using bad le by (subst retry_loop.simps) (simp add: fails_retryably_def Let_def)
  have IH: "snd (snd (retry_loop rt M tc mc p run (Suc a) (get (run a) ''error'')))
           = filter (\<lambda>k. int k \<le> M) [Suc a..<n]
             @ snd (snd (retry_loop rt M tc mc p run n
                   (if Suc a = n then get (run a) ''error'' else get (run (n - 1)) ''error'')))"
    using Suc.hyps(1)[of "Suc a" "get (run a) ''error''"] Suc.hyps(2) Suc.prems lt by simp
  have e: "(if Suc a = n then get (run a) ''error'' else get (run (n - 1)) ''error'')
         = (if a = n then e else get (run (n - 1)) ''error'')"
    using lt by auto
  have u: "[a..<n] = a # [Suc a..<n]" using lt by (simp add: upt_conv_Cons)
  show ?case
    unfolding step u using IH unfolding e by (simp add: case_prod_beta)
qed

lemma filter_upt_all: "int n \<le> M + 1 \<Longrightarrow> filter (\<lambda>k. int k \<le> M) [a..<n] = [a..<n]"
  by (rule filter_True) auto

lemma filter_upt_last:
  "0 \<le> M \<Longrightarrow> filter (\<lambda>k. int k \<le> M) [1..<nat M + 2] = [1..<nat M + 1]"
proof -
  assume m: "0 \<le> M"
  have "[1..<nat M + 2] = [1..<nat M + 1] @ [nat M + 1]"
    by simp
  moreover have "filter (\<lambda>k. int k \<le> M) [1..<nat M + 1] = [1..<nat M + 1]"
    by (rule filter_True) (use m in auto)
  ultimately show ?thesis using m by simp
qed

lemma runTestCase_no_retries:
  "get (runTestCase rt host PROVIDERS others testCase modelConfig prov options elapsed fetched)
     ''retries'' = JUndefined"
proof (cases "runTestCase_try rt host PROVIDERS others testCase modelConfig prov options fetched")
  case (Inl err)
  then show ?thesis by (simp add: runTestCase_def get_def)
next
  case (Inr r)
  then have "get r ''retries'' = JUndefined"
    by (auto simp: runTestCase_try_def get_def split: sum.splits prod.splits if_splits)
  with Inr show ?thesis by (simp add: runTestCase_def)
qed

lemma retry_loop_reach:
  assumes "\<forall>k. 1 \<le> k \<and> k < n \<longrightarrow> fails_retryably (run k)"
      and "1 \<le> n" and "int n \<le> M + 2"
  shows "retry_loop rt M tc mc p run 1 JNull
           = (case retry_loop rt M tc mc p run n
                     (if n = 1 then JNull else get (run (n - 1)) ''error'') of
                (r, calls, slept) \<Rightarrow>
                  (r, (n - 1) + calls, filter (\<lambda>k. int k \<le> M) [1..<n] @ slept))"
proof -
  have e: "(if 1 = n then JNull else get (run (n - 1)) ''error'')
         = (if n = 1 then JNull else get (run (n - 1)) ''error'')"
    by auto
  show ?thesis
    using retry_loop_skip [OF assms, of rt tc mc p JNull]
          retry_loop_slept [OF assms, of rt tc mc p JNull]
    unfolding e by (simp add: case_prod_beta prod_eq_iff)
qed

lemma failed_attempt:
  "runTestCase rt host PROVIDERS others testCase modelConfig prov options elapsed (Inl err)
     = [(''success'', JBool False),
        (''testCase'', get testCase ''name''),
        (''model'', get modelConfig ''model''),
        (''provider'', JStr (provider_name prov)),
        (''text'', JNull),
        (''usage'', JNull),
        (''latencyMs'', JNum (of_int elapsed)),
        (''cost'', JNull),
        (''error'', JStr (message err)),
        (''pass'', JBool False),
        (''score'', JNum 0),
        (''evalReason'', JStr (''Error: '' @ message err)),
        (''evalType'', JStr ''error''),
        (''prompt'', get testCase ''prompt''),
        (''systemPrompt'', get testCase ''system_prompt'')]"
  by (simp add: runTestCase_def runTestCase_try_def)

lemma example_run_unconfigured:
  "\<not> truthy (get (example_run unconfigured k) ''success'')"
  "get (example_run unconfigured k) ''error'' = JStr ''Anthropic API key not configured''"
  by (simp_all add: example_run_def unconfigured_def failed_attempt get_def)

lemma example_run_down:
  "fails_retryably (example_run down k)"
  "get (example_run down k) ''error'' = JStr ''Request timed out''"
  by (simp_all add: example_run_def down_def failed_attempt get_def fails_retryably_def
        non_retryable_examples)

lemma hello_verdict:
  "evaluate rt host PROVIDERS others existence_case (JStr ''Hello'') options
     = Inr \<lparr> pass = JBool True, score = JNum 1, reason = ''Response received'',
             evalType = ''existence'', extra = [] \<rparr>"
proof -
  have s: "stripThinkingTags (JStr ''Hello'') = Inr ''Hello''"
    by code_simp
  show ?thesis
    by (simp add: evaluate_def s existence_case_def get_def js_or_def js_and_def
        detectEvalType_def Let_def)
qed

lemma example_run_flaky:
  "k < 3 \<Longrightarrow> fails_retryably (example_run flaky k)"
  "truthy (get (example_run flaky 3) ''success'')"
  "get (example_run flaky 3) ''pass'' = JBool True"
  by (simp_all add: example_run_def flaky_def failed_attempt get_def fails_retryably_def
        non_retryable_examples runTestCase_def runTestCase_try_def example_reply_def
        default_options_def property_def own_property_def hello_verdict)

lemma example_run_ready:
  "truthy (get (example_run ready k) ''success'')"
  by (simp add: example_run_def ready_def get_def runTestCase_def runTestCase_try_def
        example_reply_def default_options_def property_def own_property_def hello_verdict)

lemma example_run_made:
  "example_run fetched
     = (\<lambda>attempt. runTestCase example_runtime example_host [] example_collaborators
                     existence_case [] terse_judge default_options ((\<lambda>k. 0) attempt)
                     (fetched attempt))"
  by (rule ext) (simp add: example_run_def)

text \<open>
  C3, as stated, fails. A first attempt that fails because the provider is not configured
  is returned at once, but the record does not report a retry count of 0: it is the
  record \<open>runTestCase\<close> made, and that has no \<open>retries\<close> property.
\<close>

theorem unconfigured_run_has_no_retry_count:
  "get (fst (runTestCaseWithRetry example_runtime (Some 2) existence_case [] terse_judge
               (example_run unconfigured))) ''retries'' = JUndefined
   \<and> JUndefined \<noteq> JNum 0
   \<and> get (fst (runTestCaseWithRetry example_runtime (Some 2) existence_case [] terse_judge
                 (example_run unconfigured))) ''error''
       = JStr ''Anthropic API key not configured''"
proof -
  have "runTestCaseWithRetry example_runtime (Some 2) existence_case [] terse_judge
          (example_run unconfigured) = (example_run unconfigured 1, 1, [])"
    unfolding runTestCaseWithRetry_def
    by (subst retry_loop.simps)
      (simp add: example_run_unconfigured non_retryable_examples Let_def)
  then show ?thesis
    by (simp add: example_run_unconfigured)
      (simp add: example_run_def unconfigured_def failed_attempt get_def)
qed

text \<open>
  C3, amended. \<open>out\<close> is what \<open>runTestCaseWithRetry\<close> yields for the attempts that
  \<open>runTestCase\<close> makes: the record, the number of calls of \<open>runTestCase\<close> and the
  delays slept, and \<open>maxRetries\<close> is the value of \<open>MAX_RETRIES\<close>. An attempt that fails
  with a non-retryable error is returned as it is, and no further attempt is made; that
  record carries no retry count, and neither does a success on attempt 1. A success on
  attempt \<open>n > 1\<close>, after \<open>n - 1\<close> retried failures, carries \<open>retries = n - 1\<close>. When
  all \<open>MAX_RETRIES + 1\<close> attempts fail with retried errors, the record built after the
  loop is a failure that carries the error of the last attempt and
  \<open>retries = MAX_RETRIES\<close>; when \<open>MAX_RETRIES\<close> is negative or NaN no attempt is made
  and that record carries the error \<open>null\<close>.
\<close>

theorem retry_orchestrator:
  fixes elapsed :: "nat \<Rightarrow> int" and fetched :: "nat \<Rightarrow> js_error + jsval \<times> bool"
  assumes run: "run = (\<lambda>attempt. runTestCase rt host PROVIDERS others testCase modelConfig prov
                                   options (elapsed attempt) (fetched attempt))"
      and out: "out = runTestCaseWithRetry rt maxRetries testCase modelConfig prov run"
  shows "(\<forall>m n. maxRetries = Some m \<and> 1 \<le> n \<and> int n \<le> m + 1
               \<and> (\<forall>k. 1 \<le> k \<and> k < n \<longrightarrow> fails_retryably (run k))
               \<and> \<not> truthy (get (run n) ''success'') \<and> non_retryable (get (run n) ''error'')
            \<longrightarrow> out = (run n, n, [1..<n]) \<and> get (fst out) ''retries'' = JUndefined)
       \<and> (\<forall>m. maxRetries = Some m \<and> 0 \<le> m \<and> truthy (get (run 1) ''success'')
            \<longrightarrow> out = (run 1, 1, []) \<and> get (fst out) ''retries'' = JUndefined)
       \<and> (\<forall>m n. maxRetries = Some m \<and> 1 < n \<and> int n \<le> m + 1
               \<and> (\<forall>k. 1 \<le> k \<and> k < n \<longrightarrow> fails_retryably (run k))
               \<and> truthy (get (run n) ''success'')
            \<longrightarrow> out = (set_prop (run n) ''retries'' (JNum (of_nat (n - 1))), n, [1..<n])
                \<and> get (fst out) ''retries'' = JNum (of_nat (n - 1)))
       \<and> (\<forall>m. maxRetries = Some m
               \<and> (\<forall>k. 1 \<le> k \<and> int k \<le> m + 1 \<longrightarrow> fails_retryably (run k))
            \<longrightarrow> out = (exhausted rt maxRetries testCase modelConfig prov
                          (if 0 \<le> m then get (run (nat m + 1)) ''error'' else JNull),
                        nat (m + 1), [1..<nat m + 1])
                \<and> get (fst out) ''error''
                    = (if 0 \<le> m then get (run (nat m + 1)) ''error'' else JNull)
                \<and> get (fst out) ''retries'' = JNum (of_int m)
                \<and> get (fst out) ''success'' = JBool False
                \<and> get (fst out) ''pass'' = JBool False)
       \<and> (maxRetries = None
            \<longrightarrow> out = (exhausted rt maxRetries testCase modelConfig prov JNull, 0, [])
                \<and> get (fst out) ''retries'' = JNaN
                \<and> get (fst out) ''success'' = JBool False)"
proof -
  have none: "get (run k) ''retries'' = JUndefined" for k
    unfolding run by (rule runTestCase_no_retries)
  have refused: "out = (run n, n, [1..<n]) \<and> get (fst out) ''retries'' = JUndefined"
    if m: "maxRetries = Some m" and n: "1 \<le> n" "int n \<le> m + 1"
      and before: "\<forall>k. 1 \<le> k \<and> k < n \<longrightarrow> fails_retryably (run k)"
      and bad: "\<not> truthy (get (run n) ''success'')" "non_retryable (get (run n) ''error'')"
    for m n
  proof -
    have n2: "int n \<le> m + 2" using n by simp
    have last: "retry_loop rt m testCase modelConfig prov run n e = (run n, 1, [])" for e
      using n bad by (subst retry_loop.simps) (simp add: Let_def)
    have "out = (run n, n, filter (\<lambda>k. int k \<le> m) [1..<n])"
      unfolding out m runTestCaseWithRetry_def
      using retry_loop_reach [OF before n(1) n2, of rt testCase modelConfig prov] n
      by (simp add: last)
    moreover have "filter (\<lambda>k. int k \<le> m) [1..<n] = [1..<n]"
      using n(2) by (rule filter_upt_all)
    ultimately show ?thesis by (simp add: none)
  qed
  have first: "out = (run 1, 1, []) \<and> get (fst out) ''retries'' = JUndefined"
    if m: "maxRetries = Some m" "0 \<le> m" and ok: "truthy (get (run 1) ''success'')" for m
  proof -
    have "out = (run 1, 1, [])"
      unfolding out m runTestCaseWithRetry_def using m(2) ok
      by (subst retry_loop.simps) (simp add: Let_def)
    then show ?thesis by (simp add: none)
  qed
  have late: "out = (set_prop (run n) ''retries'' (JNum (of_nat (n - 1))), n, [1..<n])
                \<and> get (fst out) ''retries'' = JNum (of_nat (n - 1))"
    if m: "maxRetries = Some m" and n: "1 < n" "int n \<le> m + 1"
      and before: "\<forall>k. 1 \<le> k \<and> k < n \<longrightarrow> fails_retryably (run k)"
      and ok: "truthy (get (run n) ''success'')"
    for m n
  proof -
    have n1: "1 \<le> n" and n2: "int n \<le> m + 2" using n by simp_all
    have last: "retry_loop rt m testCase modelConfig prov run n e
                  = (set_prop (run n) ''retries'' (JNum (of_nat (n - 1))), 1, [])" for e
      using n ok by (subst retry_loop.simps) (simp add: Let_def)
    have "out = (set_prop (run n) ''retries'' (JNum (of_nat (n - 1))), n,
                 filter (\<lambda>k. int k \<le> m) [1..<n])"
      unfolding out m runTestCaseWithRetry_def
      using retry_loop_reach [OF before n1 n2, of rt testCase modelConfig prov] n
      by (simp add: last)
    moreover have "filter (\<lambda>k. int k \<le> m) [1..<n] = [1..<n]"
      using n(2) by (rule filter_upt_all)
    ultimately show ?thesis by (simp add: get_set_prop)
  qed
  have spent: "out = (exhausted rt maxRetries testCase modelConfig prov
                          (if 0 \<le> m then get (run (nat m + 1)) ''error'' else JNull),
                        nat (m + 1), [1..<nat m + 1])
                \<and> get (fst out) ''error''
                    = (if 0 \<le> m then get (run (nat m + 1)) ''error'' else JNull)
                \<and> get (fst out) ''retries'' = JNum (of_int m)
                \<and> get (fst out) ''success'' = JBool False
                \<and> get (fst out) ''pass'' = JBool False"
    if m: "maxRetries = Some m"
      and all: "\<forall>k. 1 \<le> k \<and> int k \<le> m + 1 \<longrightarrow> fails_retryably (run k)"
    for m
  proof -
    have o: "out = (exhausted rt maxRetries testCase modelConfig prov
                          (if 0 \<le> m then get (run (nat m + 1)) ''error'' else JNull),
                        nat (m + 1), [1..<nat m + 1])"
    proof (cases "0 \<le> m")
      case True
      let ?n = "nat m + 2"
      have before: "\<forall>k. 1 \<le> k \<and> k < ?n \<longrightarrow> fails_retryably (run k)"
        using all True by auto
      have n1: "1 \<le> ?n" and n2: "int ?n \<le> m + 2" using True by simp_all
      have last: "retry_loop rt m testCase modelConfig prov run ?n e
                    = (exhausted rt (Some m) testCase modelConfig prov e, 0, [])" for e
        using True by (subst retry_loop.simps) simp
      have ne: "(?n = 1) = False" and pred: "?n - 1 = nat m + 1"
        by simp_all
      have "retry_loop rt m testCase modelConfig prov run 1 JNull
              = (exhausted rt (Some m) testCase modelConfig prov
                   (if ?n = 1 then JNull else get (run (?n - 1)) ''error''),
                 (?n - 1) + 0, filter (\<lambda>k. int k \<le> m) [1..<?n] @ [])"
        by (subst retry_loop_reach [OF before n1 n2]) (simp only: last prod.case)
      then have "retry_loop rt m testCase modelConfig prov run 1 JNull
              = (exhausted rt (Some m) testCase modelConfig prov
                   (get (run (nat m + 1)) ''error''), nat m + 1, [1..<nat m + 1])"
        by (simp only: ne pred if_False add_0_right append_Nil2 filter_upt_last [OF True])
      moreover have "nat (m + 1) = nat m + 1" using True by simp
      ultimately show ?thesis
        unfolding out m runTestCaseWithRetry_def using True by (simp only: option.case if_True)
    next
      case False
      have "retry_loop rt m testCase modelConfig prov run 1 JNull
              = (exhausted rt (Some m) testCase modelConfig prov JNull, 0, [])"
        using False by (subst retry_loop.simps) simp
      then show ?thesis
        unfolding out m runTestCaseWithRetry_def using False by simp
    qed
    show ?thesis
      unfolding o by (simp add: exhausted_def get_def number_def m)
  qed
  have nan: "out = (exhausted rt maxRetries testCase modelConfig prov JNull, 0, [])
                \<and> get (fst out) ''retries'' = JNaN
                \<and> get (fst out) ''success'' = JBool False"
    if "maxRetries = None"
    unfolding out that runTestCaseWithRetry_def
    by (simp add: exhausted_def get_def number_def)
  show ?thesis
    apply (intro conjI allI impI)
            apply (elim conjE, rule refused [THEN conjunct1], assumption+)
           apply (elim conjE, rule refused [THEN conjunct2], assumption+)
          apply (elim conjE, rule first [THEN conjunct1], assumption+)
         apply (elim conjE, rule first [THEN conjunct2], assumption+)
        apply (elim conjE, rule late [THEN conjunct1], assumption+)
       apply (elim conjE, rule late [THEN conjunct2], assumption+)
      apply (elim conjE, rule spent [THEN conjunct1], assumption+)
     apply (elim conjE, rule spent [THEN conjunct2, THEN conjunct1], assumption+)
    apply (elim conjE, rule spent [THEN conjunct2, THEN conjunct2, THEN conjunct1], assumption+)
    apply (elim conjE, rule spent [THEN conjunct2, THEN conjunct2, THEN conjunct2, THEN conjunct1], assumption+)
    apply (elim conjE, rule spent [THEN conjunct2, THEN conjunct2, THEN conjunct2, THEN conjunct2], assumption+)
    apply (rule nan [THEN conjunct1], assumption)
    apply (rule nan [THEN conjunct2, THEN conjunct1], assumption)
    apply (rule nan [THEN conjunct2, THEN conjunct2], assumption)
    done
qed

theorem retry_orchestrator_witness:
  "runTestCaseWithRetry example_runtime (Some 2) existence_case [] terse_judge
       (example_run unconfigured)
     = (example_run unconfigured 1, 1, [])
   \<and> runTestCaseWithRetry example_runtime (Some 2) existence_case [] terse_judge
       (example_run ready)
     = (example_run ready 1, 1, [])
   \<and> get (fst (runTestCaseWithRetry example_runtime (Some 2) existence_case [] terse_judge
                 (example_run flaky))) ''retries'' = JNum 2
   \<and> snd (runTestCaseWithRetry example_runtime (Some 2) existence_case [] terse_judge
            (example_run flaky)) = (3, [1, 2])
   \<and> get (fst (runTestCaseWithRetry example_runtime (Some 2) existence_case [] terse_judge
                 (example_run down))) ''retries'' = JNum 2
   \<and> get (fst (runTestCaseWithRetry example_runtime (Some 2) existence_case [] terse_judge
                 (example_run down))) ''error'' = JStr ''Request timed out''
   \<and> snd (runTestCaseWithRetry example_runtime (Some 2) existence_case [] terse_judge
            (example_run down)) = (3, [1, 2])
   \<and> snd (runTestCaseWithRetry example_runtime (Some (- 1)) existence_case [] terse_judge
            (example_run down)) = (0, [])
   \<and> get (fst (runTestCaseWithRetry example_runtime None existence_case [] terse_judge
                 (example_run down))) ''retries'' = JNaN"
proof -
  let ?out = "\<lambda>m f. runTestCaseWithRetry example_runtime m existence_case [] terse_judge
                       (example_run f)"
  note inst = retry_orchestrator [where rt = example_runtime and host = example_host
      and PROVIDERS = "[]" and others = example_collaborators and testCase = existence_case
      and modelConfig = "[]" and prov = terse_judge and options = default_options
      and elapsed = "\<lambda>k. 0", OF example_run_made refl]
  have pa: "Some 2 = Some (2::int) \<and> 1 \<le> (1::nat) \<and> int 1 \<le> 2 + 1
              \<and> (\<forall>k. 1 \<le> k \<and> k < 1 \<longrightarrow> fails_retryably (example_run unconfigured k))
              \<and> \<not> truthy (get (example_run unconfigured 1) ''success'')
              \<and> non_retryable (get (example_run unconfigured 1) ''error'')"
    by (simp add: example_run_unconfigured non_retryable_examples)
  have a: "?out (Some 2) unconfigured = (example_run unconfigured 1, 1, [1..<1])
           \<and> get (fst (?out (Some 2) unconfigured)) ''retries'' = JUndefined"
    by (rule inst [where fetched = unconfigured and maxRetries = "Some 2",
          THEN conjunct1, THEN spec, THEN spec, THEN mp, OF pa])
  have pb: "Some 2 = Some (2::int) \<and> (0::int) \<le> 2
              \<and> truthy (get (example_run ready 1) ''success'')"
    by (simp add: example_run_ready)
  have b: "?out (Some 2) ready = (example_run ready 1, 1, [])
           \<and> get (fst (?out (Some 2) ready)) ''retries'' = JUndefined"
    by (rule inst [where fetched = ready and maxRetries = "Some 2",
          THEN conjunct2, THEN conjunct1, THEN spec, THEN mp, OF pb])
  have pc: "Some 2 = Some (2::int) \<and> 1 < (3::nat) \<and> int 3 \<le> 2 + 1
              \<and> (\<forall>k. 1 \<le> k \<and> k < 3 \<longrightarrow> fails_retryably (example_run flaky k))
              \<and> truthy (get (example_run flaky 3) ''success'')"
    by (simp add: example_run_flaky)
  have c: "?out (Some 2) flaky
             = (set_prop (example_run flaky 3) ''retries'' (JNum (of_nat (3 - 1))), 3, [1..<3])
           \<and> get (fst (?out (Some 2) flaky)) ''retries'' = JNum (of_nat (3 - 1))"
    by (rule inst [where fetched = flaky and maxRetries = "Some 2",
          THEN conjunct2, THEN conjunct2, THEN conjunct1, THEN spec, THEN spec, THEN mp, OF pc])
  have pd: "Some m = Some (m::int)
              \<and> (\<forall>k. 1 \<le> k \<and> int k \<le> m + 1 \<longrightarrow> fails_retryably (example_run down k))" for m
    by (simp add: example_run_down)
  have d: "?out (Some m) down
             = (exhausted example_runtime (Some m) existence_case [] terse_judge
                  (if 0 \<le> m then get (example_run down (nat m + 1)) ''error'' else JNull),
                nat (m + 1), [1..<nat m + 1])
           \<and> get (fst (?out (Some m) down)) ''error''
               = (if 0 \<le> m then get (example_run down (nat m + 1)) ''error'' else JNull)
           \<and> get (fst (?out (Some m) down)) ''retries'' = JNum (of_int m)
           \<and> get (fst (?out (Some m) down)) ''success'' = JBool False
           \<and> get (fst (?out (Some m) down)) ''pass'' = JBool False" for m
    by (rule inst [where fetched = down and maxRetries = "Some m",
          THEN conjunct2, THEN conjunct2, THEN conjunct2, THEN conjunct1, THEN spec, THEN mp,
          OF pd])
  have e: "?out None down
             = (exhausted example_runtime None existence_case [] terse_judge JNull, 0, [])
           \<and> get (fst (?out None down)) ''retries'' = JNaN
           \<and> get (fst (?out None down)) ''success'' = JBool False"
    by (rule inst [where fetched = down and maxRetries = None,
          THEN conjunct2, THEN conjunct2, THEN conjunct2, THEN conjunct2, THEN mp, OF refl])
  have u: "[1..<1] = ([]::nat list)" "[1..<3] = [1, 2::nat]" "[1..<nat 2 + 1] = [1, 2::nat]"
          "[1..<nat (- 1) + 1] = ([]::nat list)" "nat (2 + 1) = 3" "nat (- 1 + 1) = 0"
    by (simp_all add: upt_rec)
  have f1: "?out (Some 2) unconfigured = (example_run unconfigured 1, 1, [])"
    using a [THEN conjunct1] by (simp only: u)
  have f2: "?out (Some 2) ready = (example_run ready 1, 1, [])"
    by (rule b [THEN conjunct1])
  have f3: "get (fst (?out (Some 2) flaky)) ''retries'' = JNum 2"
    using c [THEN conjunct2] by simp
  have f4: "snd (?out (Some 2) flaky) = (3, [1, 2])"
    using c [THEN conjunct1] by (simp only: u snd_conv)
  have f5: "get (fst (?out (Some 2) down)) ''retries'' = JNum 2"
    using d [of 2, THEN conjunct2, THEN conjunct2, THEN conjunct1] by simp
  have f6: "get (fst (?out (Some 2) down)) ''error'' = JStr ''Request timed out''"
    using d [of 2, THEN conjunct2, THEN conjunct1] by (simp add: example_run_down)
  have f7: "snd (?out (Some 2) down) = (3, [1, 2])"
    using d [of 2, THEN conjunct1] by (simp only: u snd_conv)
  have f8: "snd (?out (Some (- 1)) down) = (0, [])"
    using d [of "- 1", THEN conjunct1] by (simp only: u snd_conv)
  have f9: "get (fst (?out None down)) ''retries'' = JNaN"
    by (rule e [THEN conjunct2, THEN conjunct1])
  show ?thesis
    by (intro conjI) (rule f1 f2 f3 f4 f5 f6 f7 f8 f9)+
qed

section \<open>Properties of the rate limiter\<close>






section \<open>Properties of the response cache\<close>







section \<open>Properties of the cache store\<close>

lemma code_digit:
  "code CHR ''0'' = 48" "code CHR ''1'' = 49" "code CHR ''2'' = 50" "code CHR ''3'' = 51"
  "code CHR ''4'' = 52" "code CHR ''5'' = 53" "code CHR ''6'' = 54" "code CHR ''7'' = 55"
  "code CHR ''8'' = 56" "code CHR ''9'' = 57"
  by (simp_all add: code_def)

lemma default_ttl: "env host ''CACHE_TTL_MS'' = None \<Longrightarrow> ttlMs host = Some 86400000"
  by (simp add: ttlMs_def env_or_def parseInt_def is_space_def is_digit_def Let_def code_digit)

text \<open>
  C6. \<open>getCachedResponse\<close> always returns a value. It returns \<open>null\<close> when there is
  no file for the key, when the file cannot be read, and when its text does not parse.
  For an entry that parses to an object with a numeric \<open>timestamp\<close> and a \<open>response\<close>,
  it returns \<open>null\<close> when \<open>now - timestamp\<close> exceeds the TTL and the stored response
  otherwise; the TTL is 86400000 ms when \<open>CACHE_TTL_MS\<close> is not set.
  \<open>setCachedResponse\<close> never raises: a write that fails leaves the directory as it was
  and logs one warning.
\<close>

theorem cache_get_put:
  "(\<exists>v. getCachedResponse rt host dir now cacheKey = Inr v)
   \<and> (files dir (cache_path cacheKey) = None
        \<longrightarrow> getCachedResponse rt host dir now cacheKey = Inr JNull)
   \<and> (\<forall>err. files dir (cache_path cacheKey) = Some (Inl err)
        \<longrightarrow> getCachedResponse rt host dir now cacheKey = Inr JNull)
   \<and> (\<forall>content err. files dir (cache_path cacheKey) = Some (Inr content)
          \<and> JSON_parse rt content = Inl err
        \<longrightarrow> getCachedResponse rt host dir now cacheKey = Inr JNull)
   \<and> (\<forall>content entry t stored. files dir (cache_path cacheKey) = Some (Inr content)
          \<and> JSON_parse rt content = Inr (JObj entry)
          \<and> map_of entry ''timestamp'' = Some (JNum t)
          \<and> map_of entry ''response'' = Some stored
        \<longrightarrow> getCachedResponse rt host dir now cacheKey
              = Inr (if \<exists>ttl. ttlMs host = Some ttl \<and> of_int now - t > of_int ttl
                     then JNull else stored))
   \<and> (env host ''CACHE_TTL_MS'' = None \<longrightarrow> ttlMs host = Some 86400000)
   \<and> (\<exists>dir' warnings. setCachedResponse rt dir now cacheKey response = Inr (dir', warnings))
   \<and> (\<forall>err. write_error dir (cache_path cacheKey) = Some err
        \<longrightarrow> (\<exists>warning. setCachedResponse rt dir now cacheKey response = Inr (dir, [warning])))
   \<and> (\<forall>content. write_error dir (cache_path cacheKey) = None
          \<and> JSON_stringify_indent rt
                (JObj [(''timestamp'', JNum (of_int now)), (''response'', response)]) = Inr content
        \<longrightarrow> setCachedResponse rt dir now cacheKey response
              = Inr (dir\<lparr> files := (files dir)(cache_path cacheKey := Some (Inr content)) \<rparr>, []))"
proof -
  have total: "\<exists>v. getCachedResponse rt host dir now cacheKey = Inr v"
    by (simp add: getCachedResponse_def Let_def split: sum.splits)
  have absent: "getCachedResponse rt host dir now cacheKey = Inr JNull"
    if "files dir (cache_path cacheKey) = None"
    using that by (simp add: getCachedResponse_def Let_def)
  have unreadable: "getCachedResponse rt host dir now cacheKey = Inr JNull"
    if "files dir (cache_path cacheKey) = Some (Inl err)" for err
    using that by (simp add: getCachedResponse_def getCachedResponse_try_def Let_def)
  have unparseable: "getCachedResponse rt host dir now cacheKey = Inr JNull"
    if "files dir (cache_path cacheKey) = Some (Inr content) \<and> JSON_parse rt content = Inl err"
    for content err
    using that by (simp add: getCachedResponse_def getCachedResponse_try_def Let_def)
  have entry: "getCachedResponse rt host dir now cacheKey
              = Inr (if \<exists>ttl. ttlMs host = Some ttl \<and> of_int now - t > of_int ttl
                     then JNull else stored)"
    if "files dir (cache_path cacheKey) = Some (Inr content)
          \<and> JSON_parse rt content = Inr (JObj entry)
          \<and> map_of entry ''timestamp'' = Some (JNum t)
          \<and> map_of entry ''response'' = Some stored"
    for content entry t stored
    using that
    by (auto simp: getCachedResponse_def getCachedResponse_try_def Let_def property_def
        own_property_def expired_def ToNumber_def split: option.splits)
  have put_total:
    "\<exists>dir' warnings. setCachedResponse rt dir now cacheKey response = Inr (dir', warnings)"
    by (simp add: setCachedResponse_def Let_def split: sum.splits)
  have put_fail: "\<exists>warning. setCachedResponse rt dir now cacheKey response = Inr (dir, [warning])"
    if "write_error dir (cache_path cacheKey) = Some err" for err
    using that by (simp add: setCachedResponse_def writeFileSync_def Let_def split: sum.splits)
  have put_ok: "setCachedResponse rt dir now cacheKey response
              = Inr (dir\<lparr> files := (files dir)(cache_path cacheKey := Some (Inr content)) \<rparr>, [])"
    if "write_error dir (cache_path cacheKey) = None
          \<and> JSON_stringify_indent rt
                (JObj [(''timestamp'', JNum (of_int now)), (''response'', response)]) = Inr content"
    for content
    using that by (simp add: setCachedResponse_def writeFileSync_def Let_def)
  show ?thesis
    apply (intro conjI allI impI)
    apply (rule total)
    apply (erule absent)
    apply (erule unreadable)
    apply (erule unparseable)
    apply (erule entry)
    apply (erule default_ttl)
    apply (rule put_total)
    apply (erule put_fail)
    apply (erule put_ok)
    done
qed

theorem cache_get_put_witness:
  "getCachedResponse example_runtime example_host example_cache 2000 ''k''
     = Inr (JObj [(''text'', JStr ''hi'')])
   \<and> getCachedResponse example_runtime example_host example_cache 86401001 ''k'' = Inr JNull
   \<and> getCachedResponse example_runtime example_host example_cache 2000 ''other'' = Inr JNull
   \<and> (\<exists>warning. setCachedResponse example_runtime example_cache 2000 ''k'' JNull
                   = Inr (example_cache, [warning]))"
proof -
  have ttl: "ttlMs example_host = Some 86400000"
    by (rule default_ttl) (simp add: example_host_def)
  have stored: "files example_cache (cache_path ''k'')
                  = Some (Inr ''{\"timestamp\":1000,\"response\":{\"text\":\"hi\"}}'')
          \<and> JSON_parse example_runtime ''{\"timestamp\":1000,\"response\":{\"text\":\"hi\"}}''
               = Inr (JObj [(''timestamp'', JNum 1000), (''response'', JObj [(''text'', JStr ''hi'')])])
          \<and> map_of [(''timestamp'', JNum 1000), (''response'', JObj [(''text'', JStr ''hi'')])]
               ''timestamp'' = Some (JNum 1000)
          \<and> map_of [(''timestamp'', JNum 1000), (''response'', JObj [(''text'', JStr ''hi'')])]
               ''response'' = Some (JObj [(''text'', JStr ''hi'')])"
    by (simp add: example_cache_def cache_path_def example_runtime_def example_parse_def)
  have fresh: "getCachedResponse example_runtime example_host example_cache 2000 ''k''
      = Inr (if \<exists>ttl. ttlMs example_host = Some ttl \<and> (of_int 2000 :: rat) - 1000 > of_int ttl
             then JNull else JObj [(''text'', JStr ''hi'')])"
    by (rule cache_get_put [THEN conjunct2, THEN conjunct2, THEN conjunct2, THEN conjunct2,
          THEN conjunct1, THEN spec, THEN spec, THEN spec, THEN spec, THEN mp, OF stored])
  have stale: "getCachedResponse example_runtime example_host example_cache 86401001 ''k''
      = Inr (if \<exists>ttl. ttlMs example_host = Some ttl \<and> (of_int 86401001 :: rat) - 1000 > of_int ttl
             then JNull else JObj [(''text'', JStr ''hi'')])"
    by (rule cache_get_put [THEN conjunct2, THEN conjunct2, THEN conjunct2, THEN conjunct2,
          THEN conjunct1, THEN spec, THEN spec, THEN spec, THEN spec, THEN mp, OF stored])
  have nofile: "files example_cache (cache_path ''other'') = None"
    by (simp add: example_cache_def cache_path_def)
  have missing: "getCachedResponse example_runtime example_host example_cache 2000 ''other''
      = Inr JNull"
    by (rule cache_get_put [THEN conjunct2, THEN conjunct1, THEN mp, OF nofile])
  have denied: "write_error example_cache (cache_path ''k'')
                  = Some (Error ''EACCES: permission denied'')"
    by (simp add: example_cache_def)
  have put: "\<exists>warning. setCachedResponse example_runtime example_cache 2000 ''k'' JNull
                   = Inr (example_cache, [warning])"
    by (rule cache_get_put [THEN conjunct2, THEN conjunct2, THEN conjunct2, THEN conjunct2,
          THEN conjunct2, THEN conjunct2, THEN conjunct2, THEN conjunct1, THEN spec, THEN mp,
          OF denied])
  show ?thesis
    using fresh stale missing put by (simp add: ttl)
qed

section \<open>Properties of json_match\<close>

lemma upto_last_None: "c \<notin> set xs \<Longrightarrow> upto_last c xs = None"
  by (induction xs) auto

lemma upto_last_append: "c \<notin> set post \<Longrightarrow> upto_last c (mid @ c # post) = Some (mid @ [c])"
  by (induction mid) (auto simp: upto_last_None)

lemma filter_keys_total:
  "\<forall>k \<in> set ks. f k = Inr (P k) \<Longrightarrow> filter_keys f ks = Inr (filter P ks)"
  by (induction ks) auto

lemma length_filter_all:
  "(length (filter P xs) = length xs) = (\<forall>x \<in> set xs. P x)"
proof
  assume eq: "length (filter P xs) = length xs"
  show "\<forall>x \<in> set xs. P x"
  proof
    fix x assume "x \<in> set xs"
    then show "P x"
      using length_filter_less [of x xs P] eq by auto
  qed
next
  assume "\<forall>x \<in> set xs. P x"
  then show "length (filter P xs) = length xs" by simp
qed

lemma key_matches_object:
  assumes "key \<in> set (map fst expected)"
  shows "key_matches rt host (JObj expected) (JObj actual) key
           = Inr (key_holds rt host expected actual key)"
proof -
  from assms obtain v where v: "map_of expected key = Some v"
    by (cases "map_of expected key") (auto simp: map_of_eq_None_iff)
  show ?thesis
    by (simp add: key_matches_def key_holds_def property_def own_property_def js_in_def get_def v
        split: option.splits)
qed

lemma jsonMatch_objects:
  assumes "extract_json response = Some found" "JSON_parse rt found = Inr (JObj actual)"
      "get testCase ''expected_json'' = JObj expected"
  shows "pass (jsonMatch rt host testCase response)
           = JBool (\<forall>key \<in> set (map fst expected). key_holds rt host expected actual key)"
proof -
  have "filter_keys (key_matches rt host (JObj expected) (JObj actual)) (map fst expected)
          = Inr (filter (key_holds rt host expected actual) (map fst expected))"
    by (rule filter_keys_total) (simp add: key_matches_object)
  then show ?thesis
    using assms
    by (simp add: jsonMatch_def jsonMatch_try_def object_keys_def Let_def length_filter_all)
qed

lemma first_match_Some_iff:
  "first_match m s = Some y \<longleftrightarrow>
     (\<exists>i \<le> length s. m (drop i s) = Some y \<and> (\<forall>j < i. m (drop j s) = None))"
proof (induction s)
  case Nil
  then show ?case by auto
next
  case (Cons c cs)
  show ?case
  proof (cases "m (c # cs)")
    case (Some z)
    have "(\<exists>i \<le> length (c # cs). m (drop i (c # cs)) = Some y
             \<and> (\<forall>j < i. m (drop j (c # cs)) = None)) \<longleftrightarrow> z = y"
    proof
      assume "\<exists>i \<le> length (c # cs). m (drop i (c # cs)) = Some y
             \<and> (\<forall>j < i. m (drop j (c # cs)) = None)"
      then obtain i where i: "m (drop i (c # cs)) = Some y" "\<forall>j < i. m (drop j (c # cs)) = None"
        by blast
      have "i = 0"
      proof (rule ccontr)
        assume "i \<noteq> 0"
        then have "m (drop 0 (c # cs)) = None" using i(2) by blast
        with Some show False by simp
      qed
      with i(1) Some show "z = y" by simp
    next
      assume "z = y"
      with Some have "m (drop 0 (c # cs)) = Some y \<and> (\<forall>j < 0. m (drop j (c # cs)) = None)"
        by simp
      then show "\<exists>i \<le> length (c # cs). m (drop i (c # cs)) = Some y
             \<and> (\<forall>j < i. m (drop j (c # cs)) = None)"
        by blast
    qed
    with Some show ?thesis by simp
  next
    case None
    have "(\<exists>i \<le> length (c # cs). m (drop i (c # cs)) = Some y
             \<and> (\<forall>j < i. m (drop j (c # cs)) = None))
          \<longleftrightarrow> (\<exists>i \<le> length cs. m (drop i cs) = Some y \<and> (\<forall>j < i. m (drop j cs) = None))"
    proof
      assume "\<exists>i \<le> length (c # cs). m (drop i (c # cs)) = Some y
             \<and> (\<forall>j < i. m (drop j (c # cs)) = None)"
      then obtain i where i: "i \<le> length (c # cs)" "m (drop i (c # cs)) = Some y"
          "\<forall>j < i. m (drop j (c # cs)) = None"
        by blast
      from i(2) None obtain i' where i': "i = Suc i'" by (cases i) auto
      have "\<forall>j < i'. m (drop j cs) = None"
      proof (intro allI impI)
        fix j assume "j < i'"
        then have "Suc j < i" using i' by simp
        then have "m (drop (Suc j) (c # cs)) = None" using i(3) by blast
        then show "m (drop j cs) = None" by simp
      qed
      with i i' show "\<exists>i \<le> length cs. m (drop i cs) = Some y \<and> (\<forall>j < i. m (drop j cs) = None)"
        by auto
    next
      assume "\<exists>i \<le> length cs. m (drop i cs) = Some y \<and> (\<forall>j < i. m (drop j cs) = None)"
      then obtain i where i: "i \<le> length cs" "m (drop i cs) = Some y"
          "\<forall>j < i. m (drop j cs) = None"
        by blast
      have "\<forall>j < Suc i. m (drop j (c # cs)) = None"
      proof (intro allI impI)
        fix j assume "j < Suc i"
        then show "m (drop j (c # cs)) = None"
          using None i(3) by (cases j) auto
      qed
      with i show "\<exists>i \<le> length (c # cs). m (drop i (c # cs)) = Some y
             \<and> (\<forall>j < i. m (drop j (c # cs)) = None)"
        by (intro exI [of _ "Suc i"]) auto
    qed
    with None Cons.IH show ?thesis by simp
  qed
qed

lemma first_match_None_iff:
  "first_match m s = None \<longleftrightarrow> (\<forall>i \<le> length s. m (drop i s) = None)"
proof (induction s)
  case Nil
  then show ?case by auto
next
  case (Cons c cs)
  have "(\<forall>i \<le> length (c # cs). m (drop i (c # cs)) = None)
          \<longleftrightarrow> m (c # cs) = None \<and> (\<forall>i \<le> length cs. m (drop i cs) = None)"
  proof
    assume a: "\<forall>i \<le> length (c # cs). m (drop i (c # cs)) = None"
    have "m (drop 0 (c # cs)) = None" using a by blast
    moreover have "m (drop i cs) = None" if "i \<le> length cs" for i
      using a [rule_format, of "Suc i"] that by simp
    ultimately show "m (c # cs) = None \<and> (\<forall>i \<le> length cs. m (drop i cs) = None)" by simp
  next
    assume a: "m (c # cs) = None \<and> (\<forall>i \<le> length cs. m (drop i cs) = None)"
    show "\<forall>i \<le> length (c # cs). m (drop i (c # cs)) = None"
    proof (intro allI impI)
      fix i assume "i \<le> length (c # cs)"
      then show "m (drop i (c # cs)) = None" using a by (cases i) auto
    qed
  qed
  with Cons.IH show ?case by (auto split: option.splits)
qed

lemma upto_last_None_iff: "upto_last c r = None \<longleftrightarrow> c \<notin> set r"
  by (induction r) (auto split: option.splits)

lemma upto_last_Some:
  "upto_last c r = Some p \<Longrightarrow> \<exists>post. r = p @ post \<and> p \<noteq> [] \<and> last p = c \<and> c \<notin> set post"
proof (induction r arbitrary: p)
  case Nil
  then show ?case by simp
next
  case (Cons x xs)
  show ?case
  proof (cases "upto_last c xs")
    case None
    with Cons.prems have "x = c" "p = [x]" by (auto split: if_splits)
    moreover have "c \<notin> set xs" using None by (simp add: upto_last_None_iff)
    ultimately show ?thesis by auto
  next
    case (Some q)
    with Cons.prems have p: "p = x # q" by simp
    from Cons.IH [OF Some] obtain post where "xs = q @ post" "q \<noteq> []" "last q = c" "c \<notin> set post"
      by blast
    then show ?thesis using p by auto
  qed
qed

lemma upto_last_Some_iff:
  "upto_last c r = Some p \<longleftrightarrow> (\<exists>post. r = p @ post \<and> p \<noteq> [] \<and> last p = c \<and> c \<notin> set post)"
proof
  assume "upto_last c r = Some p"
  then show "\<exists>post. r = p @ post \<and> p \<noteq> [] \<and> last p = c \<and> c \<notin> set post"
    by (rule upto_last_Some)
next
  assume "\<exists>post. r = p @ post \<and> p \<noteq> [] \<and> last p = c \<and> c \<notin> set post"
  then obtain post where h: "r = p @ post" "p \<noteq> []" "last p = c" "c \<notin> set post"
    by blast
  have "p = butlast p @ [c]" using h(2,3) by (metis append_butlast_last_id)
  then have "r = butlast p @ c # post" using h(1) by (metis append.assoc append_Cons append_Nil)
  then have "upto_last c r = Some (butlast p @ [c])"
    using h(4) by (simp add: upto_last_append)
  with \<open>p = butlast p @ [c]\<close> show "upto_last c r = Some p" by simp
qed


lemma json_span_Nil: "json_span [] = None"
  by (simp add: json_span_def)

lemma json_span_None_iff:
  assumes "j < length s"
  shows "json_span (drop j s) = None \<longleftrightarrow>
           \<not> ((s ! j = CHR ''{'' \<and> CHR ''}'' \<in> set (drop (Suc j) s))
              \<or> (s ! j = CHR ''['' \<and> CHR '']'' \<in> set (drop (Suc j) s)))"
proof -
  have d: "drop j s = s ! j # drop (Suc j) s"
    using assms by (simp add: Cons_nth_drop_Suc)
  show ?thesis
    unfolding d by (auto simp: json_span_def upto_last_None_iff)
qed

lemma json_span_Some_iff:
  assumes "j < length s"
  shows "json_span (drop j s) = Some found \<longleftrightarrow>
           (\<exists>c post. ((s ! j = CHR ''{'' \<and> c = CHR ''}'') \<or> (s ! j = CHR ''['' \<and> c = CHR '']''))
              \<and> drop j s = found @ post \<and> 2 \<le> length found \<and> last found = c
              \<and> c \<notin> set post)"
proof -
  let ?o = "s ! j" and ?r = "drop (Suc j) s"
  have d: "drop j s = ?o # ?r"
    using assms by (simp add: Cons_nth_drop_Suc)
  have span: "json_span (?o # ?r) = Some found \<longleftrightarrow>
          (\<exists>c p. ((?o = CHR ''{'' \<and> c = CHR ''}'') \<or> (?o = CHR ''['' \<and> c = CHR '']''))
             \<and> found = ?o # p \<and> upto_last c ?r = Some p)"
    by (auto simp: json_span_def)
  have shape: "(found = ?o # p \<and> upto_last c ?r = Some p) \<longleftrightarrow>
          (p = tl found \<and> (\<exists>post. ?o # ?r = found @ post \<and> 2 \<le> length found \<and> last found = c
                \<and> c \<notin> set post))" for c p
  proof
    assume a: "found = ?o # p \<and> upto_last c ?r = Some p"
    then obtain post where "?r = p @ post" "p \<noteq> []" "last p = c" "c \<notin> set post"
      using upto_last_Some by blast
    then have "?o # ?r = found @ post \<and> 2 \<le> length found \<and> last found = c \<and> c \<notin> set post"
      using a by (cases p) auto
    then show "p = tl found \<and> (\<exists>post. ?o # ?r = found @ post \<and> 2 \<le> length found
                \<and> last found = c \<and> c \<notin> set post)"
      using a by auto
  next
    assume b: "p = tl found \<and> (\<exists>post. ?o # ?r = found @ post \<and> 2 \<le> length found
                \<and> last found = c \<and> c \<notin> set post)"
    then obtain post where h: "?o # ?r = found @ post" "2 \<le> length found" "last found = c"
        "c \<notin> set post"
      by blast
    from h(2) obtain x q where f: "found = x # q" "q \<noteq> []"
      by (cases found; cases "tl found") auto
    with h(1) have x: "x = ?o" and r: "?r = q @ post" by auto
    have "last q = c" using f h(3) by simp
    then have "upto_last c ?r = Some q"
      using r f(2) h(4) by (auto simp: upto_last_Some_iff)
    then show "found = ?o # p \<and> upto_last c ?r = Some p"
      using b f x by simp
  qed
  show ?thesis
    unfolding d span by (metis shape)
qed

lemma extract_json_Some_iff:
  "extract_json s = Some found \<longleftrightarrow>
     (\<exists>i c post. i < length s
        \<and> ((s ! i = CHR ''{'' \<and> c = CHR ''}'') \<or> (s ! i = CHR ''['' \<and> c = CHR '']''))
        \<and> drop i s = found @ post \<and> 2 \<le> length found \<and> last found = c \<and> c \<notin> set post
        \<and> (\<forall>j < i. \<not> ((s ! j = CHR ''{'' \<and> CHR ''}'' \<in> set (drop (Suc j) s))
                       \<or> (s ! j = CHR ''['' \<and> CHR '']'' \<in> set (drop (Suc j) s)))))"
  (is "?L \<longleftrightarrow> ?R")
proof
  assume ?L
  then obtain i where i: "i \<le> length s" "json_span (drop i s) = Some found"
      "\<forall>j < i. json_span (drop j s) = None"
    unfolding extract_json_def first_match_Some_iff by blast
  have lt: "i < length s"
    using i(1,2) by (cases "i = length s") (auto simp: json_span_Nil)
  from i(2) obtain c post where
    c: "(s ! i = CHR ''{'' \<and> c = CHR ''}'') \<or> (s ! i = CHR ''['' \<and> c = CHR '']'')"
       "drop i s = found @ post" "2 \<le> length found" "last found = c" "c \<notin> set post"
    unfolding json_span_Some_iff [OF lt] by blast
  have "\<not> ((s ! j = CHR ''{'' \<and> CHR ''}'' \<in> set (drop (Suc j) s))
           \<or> (s ! j = CHR ''['' \<and> CHR '']'' \<in> set (drop (Suc j) s)))" if "j < i" for j
  proof -
    have "j < length s" using that lt by simp
    moreover have "json_span (drop j s) = None" using i(3) that by blast
    ultimately show ?thesis by (simp add: json_span_None_iff)
  qed
  with lt c show ?R by blast
next
  assume ?R
  then obtain i c post where lt: "i < length s"
    and c: "(s ! i = CHR ''{'' \<and> c = CHR ''}'') \<or> (s ! i = CHR ''['' \<and> c = CHR '']'')"
       "drop i s = found @ post" "2 \<le> length found" "last found = c" "c \<notin> set post"
    and before: "\<forall>j < i. \<not> ((s ! j = CHR ''{'' \<and> CHR ''}'' \<in> set (drop (Suc j) s))
                       \<or> (s ! j = CHR ''['' \<and> CHR '']'' \<in> set (drop (Suc j) s)))"
    by blast
  have at: "json_span (drop i s) = Some found"
    unfolding json_span_Some_iff [OF lt] using c by blast
  have "json_span (drop j s) = None" if "j < i" for j
  proof -
    have "j < length s" using that lt by simp
    then show ?thesis using before that by (simp add: json_span_None_iff)
  qed
  with at lt show ?L
    unfolding extract_json_def first_match_Some_iff by (intro exI [of _ i]) auto
qed

lemma extract_json_None_iff:
  "extract_json s = None \<longleftrightarrow>
     (\<forall>j < length s. \<not> ((s ! j = CHR ''{'' \<and> CHR ''}'' \<in> set (drop (Suc j) s))
                        \<or> (s ! j = CHR ''['' \<and> CHR '']'' \<in> set (drop (Suc j) s))))"
proof -
  have "(\<forall>i \<le> length s. json_span (drop i s) = None)
          \<longleftrightarrow> (\<forall>j < length s. json_span (drop j s) = None)"
    by (metis drop_all json_span_Nil le_neq_implies_less less_imp_le_nat order_refl)
  then show ?thesis
    unfolding extract_json_def first_match_None_iff by (simp add: json_span_None_iff)
qed


lemma filter_keys_all:
  "\<forall>k \<in> set ks. f k = Inr True \<Longrightarrow> filter_keys f ks = Inr ks"
  by (induction ks) auto

lemma filter_keys_Inr:
  "filter_keys f ks = Inr ms \<Longrightarrow> ms = filter (\<lambda>k. f k = Inr True) ks"
  by (induction ks arbitrary: ms) (auto split: sum.splits if_splits)

lemma jsonMatch_is_verdict:
  "pass (jsonMatch rt host testCase response) = JBool True
   \<or> pass (jsonMatch rt host testCase response) = JBool False"
  by (auto simp: jsonMatch_def jsonMatch_try_def Let_def split: sum.splits option.splits)

lemma jsonMatch_pass_iff:
  "pass (jsonMatch rt host testCase response) = JBool True \<longleftrightarrow>
     (\<exists>found actual expected keys.
        extract_json response = Some found \<and> JSON_parse rt found = Inr actual
        \<and> ((\<exists>e. get testCase ''expected_json'' = JStr e \<and> JSON_parse rt e = Inr expected)
            \<or> ((\<forall>e. get testCase ''expected_json'' \<noteq> JStr e)
                \<and> expected = get testCase ''expected_json''))
        \<and> object_keys expected = Inr keys
        \<and> (\<forall>key \<in> set keys. key_matches rt host expected actual key = Inr True))"
  (is "?L \<longleftrightarrow> ?R")
proof
  assume l: ?L
  let ?x = "get testCase ''expected_json''"
  from l obtain found where f: "extract_json response = Some found"
    by (cases "extract_json response")
       (auto simp: jsonMatch_def jsonMatch_try_def Let_def)
  from l f obtain actual where a: "JSON_parse rt found = Inr actual"
    by (cases "JSON_parse rt found")
       (auto simp: jsonMatch_def jsonMatch_try_def Let_def)
  let ?e = "case ?x of JStr e \<Rightarrow> JSON_parse rt e | _ \<Rightarrow> Inr ?x"
  from l f a obtain expected where e: "?e = Inr expected"
    by (cases ?e) (auto simp: jsonMatch_def jsonMatch_try_def Let_def)
  from l f a e obtain keys where k: "object_keys expected = Inr keys"
    by (cases "object_keys expected") (auto simp: jsonMatch_def jsonMatch_try_def Let_def)
  from l f a e k obtain ms where m: "filter_keys (key_matches rt host expected actual) keys = Inr ms"
    by (cases "filter_keys (key_matches rt host expected actual) keys")
       (auto simp: jsonMatch_def jsonMatch_try_def Let_def)
  have "length ms = length keys"
    using l f a e k m by (simp add: jsonMatch_def jsonMatch_try_def Let_def)
  then have all: "\<forall>key \<in> set keys. key_matches rt host expected actual key = Inr True"
    using filter_keys_Inr [OF m] by (simp add: length_filter_all)
  have "(\<exists>t. ?x = JStr t \<and> JSON_parse rt t = Inr expected)
            \<or> ((\<forall>t. ?x \<noteq> JStr t) \<and> expected = ?x)"
    using e by (cases ?x) auto
  with f a k all show ?R by blast
next
  assume ?R
  then obtain found actual expected keys where
    f: "extract_json response = Some found" and a: "JSON_parse rt found = Inr actual"
    and e: "(\<exists>e. get testCase ''expected_json'' = JStr e \<and> JSON_parse rt e = Inr expected)
            \<or> ((\<forall>e. get testCase ''expected_json'' \<noteq> JStr e)
                \<and> expected = get testCase ''expected_json'')"
    and k: "object_keys expected = Inr keys"
    and all: "\<forall>key \<in> set keys. key_matches rt host expected actual key = Inr True"
    by blast
  let ?x = "get testCase ''expected_json''"
  have e': "(case ?x of JStr e \<Rightarrow> JSON_parse rt e | _ \<Rightarrow> Inr ?x) = Inr expected"
    using e by (cases ?x) auto
  have m: "filter_keys (key_matches rt host expected actual) keys = Inr keys"
    using all by (rule filter_keys_all)
  show ?L
    using f a e' k m by (simp add: jsonMatch_def jsonMatch_try_def Let_def)
qed

lemma key_holds_equal:
  assumes "inj_on (JSON_stringify rt) V" "property (inherited host) (JObj a) key = Inr have"
      "have \<in> V" "get e key \<in> V" "get e key \<noteq> JStr ''*''"
  shows "key_holds rt host e a key = (have = get e key)"
proof -
  have "have = (case map_of a key of
                  Some x \<Rightarrow> x
                | None \<Rightarrow> (case inherited host (JObj a) key of Some x \<Rightarrow> x | None \<Rightarrow> JUndefined))"
    using assms(2) by (auto simp: property_def own_property_def split: option.splits)
  then have "key_holds rt host e a key
               = (JSON_stringify rt have = JSON_stringify rt (get e key))"
    using assms(5) by (simp add: key_holds_def)
  then show ?thesis
    using assms(1,3,4) by (simp add: inj_on_eq_iff)
qed

text \<open>
  C2, as stated, fails, twice. The first response below contains the object of the
  specification's example, followed by a second object. Its first balanced literal is
  the example object, but \<open>jsonMatch\<close> extracts the text from the first brace to the
  last brace, which is not JSON, and the verdict fails. In the second response the value
  of \<open>a\<close> is deep-equal to the expected one, with its keys in another order; the two are
  compared through their serializations, which differ, and the verdict fails.
\<close>

theorem jsonMatch_not_first_balanced:
  "spec_first_balanced ''{\"status\":\"ok\",\"x\":1} {}'' = Some ''{\"status\":\"ok\",\"x\":1}''
   \<and> extract_json ''{\"status\":\"ok\",\"x\":1} {}'' = Some ''{\"status\":\"ok\",\"x\":1} {}''
   \<and> pass (jsonMatch example_runtime example_host
               [(''expected_json'', JObj [(''status'', JStr ''*'')])]
               ''{\"status\":\"ok\",\"x\":1} {}'') = JBool False
   \<and> spec_deep_equal (JObj [(''y'', JNum 2), (''x'', JNum 1)]) (JObj [(''x'', JNum 1), (''y'', JNum 2)])
   \<and> pass (jsonMatch example_runtime example_host
               [(''expected_json'', JObj [(''a'', JObj [(''x'', JNum 1), (''y'', JNum 2)])])]
               ''{\"a\":{\"y\":2,\"x\":1}}'') = JBool False"
proof -
  have a: "spec_first_balanced ''{\"status\":\"ok\",\"x\":1} {}'' = Some ''{\"status\":\"ok\",\"x\":1}''"
    by code_simp
  have b: "extract_json ''{\"status\":\"ok\",\"x\":1} {}'' = Some ''{\"status\":\"ok\",\"x\":1} {}''"
    by code_simp
  have c: "pass (jsonMatch example_runtime example_host
               [(''expected_json'', JObj [(''status'', JStr ''*'')])]
               ''{\"status\":\"ok\",\"x\":1} {}'') = JBool False"
    by code_simp
  have d: "spec_deep_equal (JObj [(''y'', JNum 2), (''x'', JNum 1)])
             (JObj [(''x'', JNum 1), (''y'', JNum 2)])"
    by code_simp
  have e: "pass (jsonMatch example_runtime example_host
               [(''expected_json'', JObj [(''a'', JObj [(''x'', JNum 1), (''y'', JNum 2)])])]
               ''{\"a\":{\"y\":2,\"x\":1}}'') = JBool False"
    by code_simp
  show ?thesis using a b c d e by simp
qed

text \<open>
  C2, amended. For every response, the text that \<open>jsonMatch\<close> extracts starts at the
  first opening brace or bracket that has its closing character somewhere after it, and
  ends at the last occurrence of that closing character; there is none exactly when no
  opening brace or bracket has its closing character after it. The verdict passes exactly
  when a text is extracted and parses, the expected structure can be read (it is parsed
  when it is a text) and every one of its keys matches. Between two objects a key matches
  when, with the wildcard as expected value, the key is in the response (own or
  inherited), and otherwise when the two values serialize to the same text, which for a
  serialization that tells values apart means that they are the same value, keys in the
  same order. So the specification's example passes when the example object is what is
  extracted. A text that does not parse, like every other fault, gives the failing
  verdict with the fault's message, and a response without such a text gives the failing
  verdict "No JSON found in response".
\<close>

theorem jsonMatch_greedy_span:
  "(extract_json response = Some found \<longleftrightarrow>
     (\<exists>i c post. i < length response
        \<and> ((response ! i = CHR ''{'' \<and> c = CHR ''}'') \<or> (response ! i = CHR ''['' \<and> c = CHR '']''))
        \<and> drop i response = found @ post \<and> 2 \<le> length found \<and> last found = c
        \<and> c \<notin> set post
        \<and> (\<forall>j < i. \<not> ((response ! j = CHR ''{'' \<and> CHR ''}'' \<in> set (drop (Suc j) response))
                       \<or> (response ! j = CHR ''['' \<and> CHR '']'' \<in> set (drop (Suc j) response))))))
   \<and> (extract_json response = None \<longleftrightarrow>
        (\<forall>j < length response.
            \<not> ((response ! j = CHR ''{'' \<and> CHR ''}'' \<in> set (drop (Suc j) response))
               \<or> (response ! j = CHR ''['' \<and> CHR '']'' \<in> set (drop (Suc j) response)))))
   \<and> (pass (jsonMatch rt host testCase response) = JBool True \<longleftrightarrow>
        (\<exists>span actual expected keys.
           extract_json response = Some span \<and> JSON_parse rt span = Inr actual
           \<and> ((\<exists>e. get testCase ''expected_json'' = JStr e \<and> JSON_parse rt e = Inr expected)
               \<or> ((\<forall>e. get testCase ''expected_json'' \<noteq> JStr e)
                   \<and> expected = get testCase ''expected_json''))
           \<and> object_keys expected = Inr keys
           \<and> (\<forall>key \<in> set keys. key_matches rt host expected actual key = Inr True)))
   \<and> (pass (jsonMatch rt host testCase response) = JBool True
        \<or> pass (jsonMatch rt host testCase response) = JBool False)
   \<and> (\<forall>key \<in> set (map fst e).
         key_matches rt host (JObj e) (JObj a) key = Inr (key_holds rt host e a key))
   \<and> (\<forall>V key have.
         inj_on (JSON_stringify rt) V \<and> property (inherited host) (JObj a) key = Inr have
         \<and> have \<in> V \<and> get e key \<in> V \<and> get e key \<noteq> JStr ''*''
        \<longrightarrow> key_holds rt host e a key = (have = get e key))
   \<and> (extract_json response = Some ''{\"status\":\"ok\",\"x\":1}''
        \<and> JSON_parse rt ''{\"status\":\"ok\",\"x\":1}''
             = Inr (JObj [(''status'', JStr ''ok''), (''x'', JNum 1)])
        \<and> get testCase ''expected_json'' = JObj [(''status'', JStr ''*'')]
        \<longrightarrow> pass (jsonMatch rt host testCase response) = JBool True)
   \<and> (\<forall>err. jsonMatch_try rt host testCase response = Inl err
        \<longrightarrow> jsonMatch rt host testCase response
              = \<lparr> pass = JBool False, score = JNum 0,
                  reason = ''JSON parse error: '' @ message err,
                  evalType = ''json_match'', extra = [] \<rparr>)
   \<and> (\<forall>span err.
         extract_json response = Some span \<and> JSON_parse rt span = Inl err
        \<longrightarrow> jsonMatch_try rt host testCase response = Inl err)
   \<and> (extract_json response = None
        \<longrightarrow> jsonMatch rt host testCase response
              = \<lparr> pass = JBool False, score = JNum 0, reason = ''No JSON found in response'',
                  evalType = ''json_match'', extra = [] \<rparr>)"
proof -
  have keys: "\<forall>key \<in> set (map fst e).
         key_matches rt host (JObj e) (JObj a) key = Inr (key_holds rt host e a key)"
    by (intro ballI) (rule key_matches_object)
  have equal: "key_holds rt host e a key = (have = get e key)"
    if "inj_on (JSON_stringify rt) V \<and> property (inherited host) (JObj a) key = Inr have
         \<and> have \<in> V \<and> get e key \<in> V \<and> get e key \<noteq> JStr ''*''" for V key "have"
    using that key_holds_equal [of rt V host a key "have" e] by blast
  have example: "pass (jsonMatch rt host testCase response) = JBool True"
    if h: "extract_json response = Some ''{\"status\":\"ok\",\"x\":1}''
        \<and> JSON_parse rt ''{\"status\":\"ok\",\"x\":1}''
             = Inr (JObj [(''status'', JStr ''ok''), (''x'', JNum 1)])
        \<and> get testCase ''expected_json'' = JObj [(''status'', JStr ''*'')]"
  proof -
    have "pass (jsonMatch rt host testCase response)
           = JBool (\<forall>key \<in> set (map fst [(''status'', JStr ''*'')]).
                      key_holds rt host [(''status'', JStr ''*'')]
                        [(''status'', JStr ''ok''), (''x'', JNum 1)] key)"
      by (rule jsonMatch_objects [OF h [THEN conjunct1] h [THEN conjunct2, THEN conjunct1]
            h [THEN conjunct2, THEN conjunct2]])
    then show ?thesis
      by (simp add: key_holds_def get_def)
  qed
  have caught: "jsonMatch rt host testCase response
              = \<lparr> pass = JBool False, score = JNum 0,
                  reason = ''JSON parse error: '' @ message err,
                  evalType = ''json_match'', extra = [] \<rparr>"
    if "jsonMatch_try rt host testCase response = Inl err" for err
    using that by (simp add: jsonMatch_def)
  have broken: "jsonMatch_try rt host testCase response = Inl err"
    if "extract_json response = Some span \<and> JSON_parse rt span = Inl err" for span err
    using that by (simp add: jsonMatch_try_def Let_def)
  have none_found: "jsonMatch rt host testCase response
              = \<lparr> pass = JBool False, score = JNum 0, reason = ''No JSON found in response'',
                  evalType = ''json_match'', extra = [] \<rparr>"
    if "extract_json response = None"
    using that by (simp add: jsonMatch_def jsonMatch_try_def Let_def)
  show ?thesis
    apply (intro conjI)
             apply (rule extract_json_Some_iff)
            apply (rule extract_json_None_iff)
           apply (rule jsonMatch_pass_iff)
          apply (rule jsonMatch_is_verdict)
         apply (rule keys)
        apply (intro allI impI, erule equal)
       apply (rule impI, erule example)
      apply (intro allI impI, erule caught)
     apply (intro allI impI, erule broken)
    apply (rule impI, erule none_found)
    done
qed

theorem jsonMatch_greedy_span_witness:
  "extract_json ''{ [1,2]'' = Some ''[1,2]''
   \<and> extract_json ''} {'' = None
   \<and> pass (jsonMatch example_runtime example_host
             [(''expected_json'', JStr ''{\"status\":\"ok\",\"x\":1}'')]
             ''It is {\"status\":\"ok\",\"x\":1}'') = JBool True
   \<and> pass (jsonMatch example_runtime example_host
             [(''expected_json'', JObj [(''status'', JStr ''*'')])]
             ''Result: {\"status\":\"ok\",\"x\":1}'') = JBool True
   \<and> key_matches example_runtime example_host (JObj [(''status'', JStr ''*'')])
         (JObj [(''status'', JStr ''ok''), (''x'', JNum 1)]) ''status''
       = Inr (key_holds example_runtime example_host [(''status'', JStr ''*'')]
                [(''status'', JStr ''ok''), (''x'', JNum 1)] ''status'')
   \<and> \<not> key_holds example_runtime example_host [(''status'', JStr ''no'')]
         [(''status'', JStr ''ok'')] ''status''
   \<and> jsonMatch example_runtime example_host [(''expected_json'', JObj [(''status'', JStr ''*'')])]
         ''{oops}''
       = \<lparr> pass = JBool False, score = JNum 0,
           reason = ''JSON parse error: Unexpected token'',
           evalType = ''json_match'', extra = [] \<rparr>
   \<and> jsonMatch example_runtime example_host [(''expected_json'', JObj [(''status'', JStr ''*'')])]
         ''hello''
       = \<lparr> pass = JBool False, score = JNum 0, reason = ''No JSON found in response'',
           evalType = ''json_match'', extra = [] \<rparr>"
proof -
  note span = jsonMatch_greedy_span [THEN conjunct1, THEN iffD2]
  note nothing_there = jsonMatch_greedy_span [THEN conjunct2, THEN conjunct1, THEN iffD2]
  note passes = jsonMatch_greedy_span [THEN conjunct2, THEN conjunct2, THEN conjunct1, THEN iffD2]
  note keys = jsonMatch_greedy_span [THEN conjunct2, THEN conjunct2, THEN conjunct2,
      THEN conjunct2, THEN conjunct1, THEN bspec]
  note equal = jsonMatch_greedy_span [THEN conjunct2, THEN conjunct2, THEN conjunct2,
      THEN conjunct2, THEN conjunct2, THEN conjunct1, THEN spec, THEN spec, THEN spec, THEN mp]
  note example = jsonMatch_greedy_span [THEN conjunct2, THEN conjunct2, THEN conjunct2,
      THEN conjunct2, THEN conjunct2, THEN conjunct2, THEN conjunct1, THEN mp]
  note caught = jsonMatch_greedy_span [THEN conjunct2, THEN conjunct2, THEN conjunct2,
      THEN conjunct2, THEN conjunct2, THEN conjunct2, THEN conjunct2, THEN conjunct1,
      THEN spec, THEN mp]
  note broken = jsonMatch_greedy_span [THEN conjunct2, THEN conjunct2, THEN conjunct2,
      THEN conjunct2, THEN conjunct2, THEN conjunct2, THEN conjunct2, THEN conjunct2,
      THEN conjunct1, THEN spec, THEN spec, THEN mp]
  note absent = jsonMatch_greedy_span [THEN conjunct2, THEN conjunct2, THEN conjunct2,
      THEN conjunct2, THEN conjunct2, THEN conjunct2, THEN conjunct2, THEN conjunct2,
      THEN conjunct2, THEN mp]
  have "\<exists>i c post. i < length ''{ [1,2]''
        \<and> ((''{ [1,2]'' ! i = CHR ''{'' \<and> c = CHR ''}'') \<or> (''{ [1,2]'' ! i = CHR ''['' \<and> c = CHR '']''))
        \<and> drop i ''{ [1,2]'' = ''[1,2]'' @ post \<and> 2 \<le> length ''[1,2]'' \<and> last ''[1,2]'' = c
        \<and> c \<notin> set post
        \<and> (\<forall>j < i. \<not> ((''{ [1,2]'' ! j = CHR ''{'' \<and> CHR ''}'' \<in> set (drop (Suc j) ''{ [1,2]''))
                       \<or> (''{ [1,2]'' ! j = CHR ''['' \<and> CHR '']'' \<in> set (drop (Suc j) ''{ [1,2]''))))"
    apply (rule exI [of _ 2])
    apply (rule exI [of _ "CHR '']''"])
    apply (rule exI [of _ "[]"])
    apply (simp add: numeral_2_eq_2 All_less_Suc)
    done
  then have one: "extract_json ''{ [1,2]'' = Some ''[1,2]''"
    by (rule span)
  have "\<forall>j < length ''} {''.
            \<not> ((''} {'' ! j = CHR ''{'' \<and> CHR ''}'' \<in> set (drop (Suc j) ''} {''))
               \<or> (''} {'' ! j = CHR ''['' \<and> CHR '']'' \<in> set (drop (Suc j) ''} {'')))"
    by (simp add: All_less_Suc)
  then have two: "extract_json ''} {'' = None"
    by (rule nothing_there)
  let ?doc = "''{\"status\":\"ok\",\"x\":1}''"
  let ?obj = "JObj [(''status'', JStr ''ok''), (''x'', JNum 1)]"
  let ?tc = "[(''expected_json'', JStr ?doc)]"
  have parsed: "JSON_parse example_runtime ?doc = Inr ?obj"
    by (simp add: example_runtime_def example_parse_def)
  have "\<exists>span actual expected keys.
           extract_json ''It is {\"status\":\"ok\",\"x\":1}'' = Some span
           \<and> JSON_parse example_runtime span = Inr actual
           \<and> ((\<exists>e. get ?tc ''expected_json'' = JStr e \<and> JSON_parse example_runtime e = Inr expected)
               \<or> ((\<forall>e. get ?tc ''expected_json'' \<noteq> JStr e)
                   \<and> expected = get ?tc ''expected_json''))
           \<and> object_keys expected = Inr keys
           \<and> (\<forall>key \<in> set keys. key_matches example_runtime example_host expected actual key
                                   = Inr True)"
  proof (rule exI [of _ ?doc], rule exI [of _ ?obj], rule exI [of _ ?obj],
      rule exI [of _ "[''status'', ''x'']"], intro conjI)
    show "extract_json ''It is {\"status\":\"ok\",\"x\":1}'' = Some ?doc"
      by code_simp
    show "JSON_parse example_runtime ?doc = Inr ?obj"
      by (rule parsed)
    show "(\<exists>e. get ?tc ''expected_json'' = JStr e \<and> JSON_parse example_runtime e = Inr ?obj)
               \<or> ((\<forall>e. get ?tc ''expected_json'' \<noteq> JStr e) \<and> ?obj = get ?tc ''expected_json'')"
      using parsed by (simp add: get_def)
    show "object_keys ?obj = Inr [''status'', ''x'']"
      by (simp add: object_keys_def)
    have "key_matches example_runtime example_host ?obj ?obj ''status'' = Inr True"
         "key_matches example_runtime example_host ?obj ?obj ''x'' = Inr True"
      by code_simp+
    then show "\<forall>key \<in> set [''status'', ''x''].
                 key_matches example_runtime example_host ?obj ?obj key = Inr True"
      by simp
  qed
  then have three: "pass (jsonMatch example_runtime example_host ?tc
                      ''It is {\"status\":\"ok\",\"x\":1}'') = JBool True"
    by (rule passes)
  have ex: "extract_json ''Result: {\"status\":\"ok\",\"x\":1}'' = Some ?doc
        \<and> JSON_parse example_runtime ?doc = Inr ?obj
        \<and> get [(''expected_json'', JObj [(''status'', JStr ''*'')])] ''expected_json''
             = JObj [(''status'', JStr ''*'')]"
  proof (intro conjI)
    show "extract_json ''Result: {\"status\":\"ok\",\"x\":1}'' = Some ?doc" by code_simp
    show "JSON_parse example_runtime ?doc = Inr ?obj" by (rule parsed)
    show "get [(''expected_json'', JObj [(''status'', JStr ''*'')])] ''expected_json''
             = JObj [(''status'', JStr ''*'')]"
      by (simp add: get_def)
  qed
  have four: "pass (jsonMatch example_runtime example_host
             [(''expected_json'', JObj [(''status'', JStr ''*'')])]
             ''Result: {\"status\":\"ok\",\"x\":1}'') = JBool True"
    by (rule example [OF ex])
  have mem: "''status'' \<in> set (map fst [(''status'', JStr ''*'')])"
    by simp
  have five: "key_matches example_runtime example_host (JObj [(''status'', JStr ''*'')])
         (JObj [(''status'', JStr ''ok''), (''x'', JNum 1)]) ''status''
       = Inr (key_holds example_runtime example_host [(''status'', JStr ''*'')]
                [(''status'', JStr ''ok''), (''x'', JNum 1)] ''status'')"
    by (rule keys [OF mem])
  have inj: "inj_on (JSON_stringify example_runtime) {JStr ''ok'', JStr ''no''}
         \<and> property (inherited example_host) (JObj [(''status'', JStr ''ok'')]) ''status''
             = Inr (JStr ''ok'')
         \<and> JStr ''ok'' \<in> {JStr ''ok'', JStr ''no''}
         \<and> get [(''status'', JStr ''no'')] ''status'' \<in> {JStr ''ok'', JStr ''no''}
         \<and> get [(''status'', JStr ''no'')] ''status'' \<noteq> JStr ''*''"
    by (simp add: example_runtime_def example_stringify_def property_def own_property_def get_def)
  have "key_holds example_runtime example_host [(''status'', JStr ''no'')]
          [(''status'', JStr ''ok'')] ''status''
        = (JStr ''ok'' = get [(''status'', JStr ''no'')] ''status'')"
    by (rule equal [OF inj])
  then have six: "\<not> key_holds example_runtime example_host [(''status'', JStr ''no'')]
         [(''status'', JStr ''ok'')] ''status''"
    by (simp add: get_def)
  let ?star = "[(''expected_json'', JObj [(''status'', JStr ''*'')])]"
  have bad: "extract_json ''{oops}'' = Some ''{oops}''
             \<and> JSON_parse example_runtime ''{oops}'' = Inl (SyntaxError ''Unexpected token'')"
  proof (intro conjI)
    show "extract_json ''{oops}'' = Some ''{oops}''" by code_simp
    show "JSON_parse example_runtime ''{oops}'' = Inl (SyntaxError ''Unexpected token'')"
      by (simp add: example_runtime_def example_parse_def)
  qed
  have "jsonMatch_try example_runtime example_host ?star ''{oops}''
          = Inl (SyntaxError ''Unexpected token'')"
    by (rule broken [OF bad])
  then have "jsonMatch example_runtime example_host ?star ''{oops}''
       = \<lparr> pass = JBool False, score = JNum 0,
           reason = ''JSON parse error: '' @ message (SyntaxError ''Unexpected token''),
           evalType = ''json_match'', extra = [] \<rparr>"
    by (rule caught)
  then have seven: "jsonMatch example_runtime example_host ?star ''{oops}''
       = \<lparr> pass = JBool False, score = JNum 0,
           reason = ''JSON parse error: Unexpected token'',
           evalType = ''json_match'', extra = [] \<rparr>"
    by simp
  have no: "extract_json ''hello'' = None" by code_simp
  have eight: "jsonMatch example_runtime example_host ?star ''hello''
       = \<lparr> pass = JBool False, score = JNum 0, reason = ''No JSON found in response'',
           evalType = ''json_match'', extra = [] \<rparr>"
    by (rule absent [OF no])
  show ?thesis
    by (intro conjI) (rule one two three four five six seven eight)+
qed

section \<open>Properties of the sanitizer\<close>

lemma starts_ci_drop: "starts_ci p x = Some r \<Longrightarrow> r = drop (length p) x"
  by (induction p x rule: starts_ci.induct) (auto split: if_splits)

lemma starts_ci_self: "starts_ci p (p @ r) = Some r"
  by (induction p) auto

lemma starts_ci_append: "starts_ci p x = Some r \<Longrightarrow> starts_ci p (x @ y) = Some (r @ y)"
  by (induction p x rule: starts_ci.induct) (auto split: if_splits)

lemma index_ci_empty_pattern: "index_ci [] s \<noteq> None"
  by (cases s) auto

lemma index_ci_None_Nil: "index_ci p s = None \<Longrightarrow> p \<noteq> []"
  using index_ci_empty_pattern by blast

lemma index_ci_suffix_None: "index_ci p (x @ y) = None \<Longrightarrow> index_ci p y = None"
  by (induction x) (auto split: option.splits)

lemma index_ci_prefix_None: "index_ci p (x @ y) = None \<Longrightarrow> index_ci p x = None"
proof (induction x)
  case Nil
  then have "p \<noteq> []" using index_ci_None_Nil by blast
  then show ?case by simp
next
  case (Cons c cs)
  then have a: "starts_ci p (c # cs @ y) = None" and b: "index_ci p (cs @ y) = None"
    by (auto split: option.splits)
  have "starts_ci p (c # cs) = None"
  proof (cases "starts_ci p (c # cs)")
    case None
    then show ?thesis .
  next
    case (Some r)
    then have "starts_ci p ((c # cs) @ y) = Some (r @ y)" by (rule starts_ci_append)
    with a show ?thesis by simp
  qed
  with Cons.IH b show ?case by simp
qed

lemma index_ci_None_starts: "index_ci p s = None \<Longrightarrow> starts_ci p (drop j s) = None"
proof (induction s arbitrary: j)
  case Nil
  then have "p \<noteq> []" using index_ci_None_Nil by blast
  then show ?case by (cases p) auto
next
  case (Cons c cs)
  then show ?case by (cases j) (auto split: option.splits)
qed

lemma index_ci_before: "index_ci p s = Some i \<Longrightarrow> j < i \<Longrightarrow> starts_ci p (drop j s) = None"
proof (induction s arbitrary: i j)
  case Nil
  then show ?case by (auto split: if_splits)
next
  case (Cons c cs)
  then show ?case by (cases j) (auto split: option.splits)
qed

lemma index_ci_le: "index_ci p s = Some i \<Longrightarrow> i \<le> length s"
  by (induction s arbitrary: i) (auto split: option.splits if_splits)

lemma remove_from_drop: "remove_from m k s = remove_from m 0 (drop k s)"
proof (induction s arbitrary: k)
  case Nil
  then show ?case by simp
next
  case (Cons a s)
  show ?case
  proof (cases k)
    case 0
    then show ?thesis by simp
  next
    case (Suc k')
    then show ?thesis using Cons.IH[of k'] by simp
  qed
qed

lemma remove_from_id: "(\<And>j. m (drop j s) = None) \<Longrightarrow> remove_from m 0 s = s"
proof (induction s)
  case Nil
  then show ?case by simp
next
  case (Cons c cs)
  have "m (c # cs) = None" using Cons.prems[of 0] by simp
  moreover have "remove_from m 0 cs = cs"
  proof (rule Cons.IH)
    fix j show "m (drop j cs) = None" using Cons.prems[of "Suc j"] by simp
  qed
  ultimately show ?case by simp
qed

lemma remove_from_first:
  "(\<And>j. j < i \<Longrightarrow> m (drop j s) = None) \<Longrightarrow> i \<le> length s \<Longrightarrow> m (drop i s) = Some (Suc n) \<Longrightarrow>
     remove_from m 0 s = take i s @ remove_from m 0 (drop (i + Suc n) s)"
proof (induction i arbitrary: s)
  case 0
  show ?case
  proof (cases s)
    case Nil
    then show ?thesis by simp
  next
    case (Cons c cs)
    with 0 show ?thesis by (simp add: remove_from_drop[of m n cs])
  qed
next
  case (Suc i)
  then obtain c cs where s: "s = c # cs" by (cases s) auto
  have none: "m (c # cs) = None" using Suc.prems(1)[of 0] s by simp
  have "remove_from m 0 cs = take i cs @ remove_from m 0 (drop (i + Suc n) cs)"
  proof (rule Suc.IH)
    fix j assume "j < i"
    then show "m (drop j cs) = None" using Suc.prems(1)[of "Suc j"] s by simp
  next
    show "i \<le> length cs" using Suc.prems(2) s by simp
    show "m (drop i cs) = Some (Suc n)" using Suc.prems(3) s by simp
  qed
  then show ?case using none s by simp
qed

lemma remove_pair_none: "index_ci opn s = None \<Longrightarrow> remove_all (paired opn cls) s = s"
  unfolding remove_all_def
  by (rule remove_from_id) (simp add: paired_def index_ci_None_starts)

lemma remove_unclosed_none: "index_ci opn s = None \<Longrightarrow> remove_all (unclosed opn) s = s"
  unfolding remove_all_def
  by (rule remove_from_id) (simp add: unclosed_def index_ci_None_starts)

lemma index_ci_at: "index_ci p s = Some i \<Longrightarrow> starts_ci p (drop i s) = Some (drop (i + length p) s)"
proof (induction s arbitrary: i)
  case Nil
  then show ?case by (auto split: if_splits)
next
  case (Cons c cs)
  show ?case
  proof (cases "starts_ci p (c # cs)")
    case None
    with Cons.prems obtain i' where i: "i = Suc i'" and "index_ci p cs = Some i'"
      by auto
    then have "starts_ci p (drop i' cs) = Some (drop (i' + length p) cs)"
      using Cons.IH by blast
    then show ?thesis by (simp add: i)
  next
    case (Some r)
    with Cons.prems have i: "i = 0" by simp
    have "r = drop (length p) (c # cs)" using Some by (rule starts_ci_drop)
    then show ?thesis using Some by (simp add: i)
  qed
qed

lemma starts_ci_iff:
  "starts_ci p x \<noteq> None \<longleftrightarrow>
     length p \<le> length x \<and> map toLowerCase_char (take (length p) x) = map toLowerCase_char p"
  by (induction p x rule: starts_ci.induct) auto

lemma index_ci_least:
  "index_ci p s = Some i \<longleftrightarrow>
     i \<le> length s \<and> starts_ci p (drop i s) \<noteq> None
     \<and> (\<forall>j < i. starts_ci p (drop j s) = None)"
proof
  assume "index_ci p s = Some i"
  then show "i \<le> length s \<and> starts_ci p (drop i s) \<noteq> None
     \<and> (\<forall>j < i. starts_ci p (drop j s) = None)"
    using index_ci_le index_ci_at index_ci_before by fastforce
next
  assume h: "i \<le> length s \<and> starts_ci p (drop i s) \<noteq> None
     \<and> (\<forall>j < i. starts_ci p (drop j s) = None)"
  show "index_ci p s = Some i"
  proof (cases "index_ci p s")
    case None
    then have "starts_ci p (drop i s) = None" by (rule index_ci_None_starts)
    with h show ?thesis by simp
  next
    case (Some i')
    have "\<not> i' < i"
      using index_ci_at [OF Some] h by auto
    moreover have "\<not> i < i'"
      using index_ci_before [OF Some, of i] h by auto
    ultimately show ?thesis using Some by simp
  qed
qed

lemma remove_paired_first:
  assumes first: "index_ci opn s = Some i"
      and nearest: "index_ci cls (drop (i + length opn) s) = Some k"
      and ne: "opn \<noteq> []"
  shows "remove_all (paired opn cls) s
           = take i s @ remove_all (paired opn cls) (drop (i + length opn + k + length cls) s)"
proof -
  obtain n where n: "length opn + k + length cls = Suc n"
    using ne by (cases opn) auto
  have before: "paired opn cls (drop j s) = None" if "j < i" for j
    using index_ci_before [OF first that] by (simp add: paired_def)
  have at: "paired opn cls (drop i s) = Some (Suc n)"
    using index_ci_at [OF first] nearest n by (simp add: paired_def)
  have cut: "remove_from (paired opn cls) 0 s
          = take i s @ remove_from (paired opn cls) 0 (drop (i + Suc n) s)"
    using before index_ci_le [OF first] at by (rule remove_from_first)
  have e: "i + Suc n = i + length opn + k + length cls"
    using n by simp
  show ?thesis unfolding remove_all_def cut e by (rule refl)
qed

lemma remove_paired_open:
  assumes first: "index_ci opn s = Some i"
      and never: "index_ci cls (drop (i + length opn) s) = None"
  shows "remove_all (paired opn cls) s = s"
  unfolding remove_all_def
proof (rule remove_from_id)
  fix j
  show "paired opn cls (drop j s) = None"
  proof (cases "starts_ci opn (drop j s)")
    case None
    then show ?thesis by (simp add: paired_def)
  next
    case (Some r)
    have ge: "i \<le> j"
      using index_ci_before [OF first, of j] Some by (cases "j < i") auto
    then obtain d where d: "j = i + d"
      using le_Suc_ex by blast
    have "r = drop (length opn) (drop j s)" using Some by (rule starts_ci_drop)
    then have r: "r = drop d (drop (i + length opn) s)"
      unfolding d by (simp add: add.commute add.left_commute)
    have "index_ci cls (take d (drop (i + length opn) s) @ drop d (drop (i + length opn) s))
            = None"
      using never by (simp only: append_take_drop_id)
    then have "index_ci cls (drop d (drop (i + length opn) s)) = None"
      by (rule index_ci_suffix_None)
    then show ?thesis using Some r by (simp add: paired_def)
  qed
qed

lemma remove_unclosed_first:
  assumes first: "index_ci opn s = Some i" and ne: "opn \<noteq> []"
  shows "remove_all (unclosed opn) s = take i s"
proof -
  have st: "starts_ci opn (drop i s) = Some (drop (i + length opn) s)"
    using first by (rule index_ci_at)
  then have "drop i s \<noteq> []"
    using ne by (cases opn; cases "drop i s") auto
  then obtain n where n: "length (drop i s) = Suc n"
    by (cases "drop i s") auto
  have before: "unclosed opn (drop j s) = None" if "j < i" for j
    using index_ci_before [OF first that] by (simp add: unclosed_def)
  have at: "unclosed opn (drop i s) = Some (Suc n)"
    using st n by (simp add: unclosed_def)
  have "remove_from (unclosed opn) 0 s
          = take i s @ remove_from (unclosed opn) 0 (drop (i + Suc n) s)"
    using before index_ci_le [OF first] at by (rule remove_from_first)
  moreover have "drop (i + Suc n) s = []"
    using n by simp
  ultimately show ?thesis by (simp add: remove_all_def)
qed

lemma stripThinkingTags_text: "stripThinkingTags (JStr s) = Inr (strip_text s)"
  by (cases s) (simp_all add: stripThinkingTags_def strip_text_def remove_all_def trim_def)

text \<open>
  C8, as stated, fails. The sanitizer does not remove exactly the reasoning spans: it
  also trims the text that is left. From the response below the span and the spaces
  around the answer are gone.
\<close>

theorem sanitizer_also_trims:
  "stripThinkingTags (JStr (''<think>'' @ ''x'' @ ''</think>'' @ '' hi '')) = Inr ''hi''
   \<and> ''hi'' \<noteq> '' hi ''"
proof -
  have "stripThinkingTags (JStr (''<think>'' @ ''x'' @ ''</think>'' @ '' hi '')) = Inr ''hi''"
    by code_simp
  then show ?thesis by simp
qed

text \<open>
  C8, amended. For every text, \<open>stripThinkingTags\<close> makes four passes in this order and
  then trims leading and trailing whitespace: it removes every \<open><think>\<close> span, then
  every \<open><thinking>\<close> span, then an unclosed \<open><think>\<close> with all that follows it, then
  an unclosed \<open><thinking>\<close> with all that follows it. A pass that removes spans goes
  from the left: the first opening tag is paired with the nearest closing tag after it,
  the span is removed and the pass goes on behind it; when no closing tag follows the
  first opening tag the pass changes nothing. A pass for an unclosed tag cuts the text at
  the first opening tag. A text without the opening tag is left as it is by either pass.
  Tags are found without regard to the case of their letters: \<open>index_ci\<close> is the least
  position where the text continues with the tag. \<open>evaluate\<close> depends on the response
  only through the sanitized text, whatever the evaluator, and the judge's reply is
  sanitized before the verdict is read from it.
\<close>

theorem sanitizer_removes_spans_then_trims:
  "stripThinkingTags (JStr s)
     = Inr (trim (remove_all (unclosed ''<thinking>'')
                   (remove_all (unclosed ''<think>'')
                     (remove_all (paired ''<thinking>'' ''</thinking>'')
                       (remove_all (paired ''<think>'' ''</think>'') s)))))
   \<and> (index_ci opn s = None
        \<longrightarrow> remove_all (paired opn cls) s = s \<and> remove_all (unclosed opn) s = s)
   \<and> (\<forall>i. opn \<noteq> [] \<and> index_ci opn s = Some i \<longrightarrow>
          remove_all (unclosed opn) s = take i s
          \<and> (index_ci cls (drop (i + length opn) s) = None
               \<longrightarrow> remove_all (paired opn cls) s = s)
          \<and> (\<forall>k. index_ci cls (drop (i + length opn) s) = Some k \<longrightarrow>
                 remove_all (paired opn cls) s
                   = take i s
                     @ remove_all (paired opn cls) (drop (i + length opn + k + length cls) s)))
   \<and> (\<forall>i. index_ci opn s = Some i \<longleftrightarrow>
            i \<le> length s \<and> starts_ci opn (drop i s) \<noteq> None
            \<and> (\<forall>j < i. starts_ci opn (drop j s) = None))
   \<and> (starts_ci opn s \<noteq> None \<longleftrightarrow>
         length opn \<le> length s
         \<and> map toLowerCase_char (take (length opn) s) = map toLowerCase_char opn)
   \<and> (stripThinkingTags response1 = stripThinkingTags response2
      \<longrightarrow> evaluate rt host PROVIDERS others testCase response1 options
            = evaluate rt host PROVIDERS others testCase response2 options)
   \<and> (\<forall>result reply judgeResponse.
         complete judge (judge_messages prompt) (judge_call_options model) = Inr result
         \<and> property (inherited host) result ''text'' = Inr reply
         \<and> stripThinkingTags reply = Inr judgeResponse
        \<longrightarrow> llmJudge_try host judge model prompt = Inr (judge_verdict judgeResponse))"
proof -
  have order: "stripThinkingTags (JStr s)
     = Inr (trim (remove_all (unclosed ''<thinking>'')
                   (remove_all (unclosed ''<think>'')
                     (remove_all (paired ''<thinking>'' ''</thinking>'')
                       (remove_all (paired ''<think>'' ''</think>'') s)))))"
    by (simp only: stripThinkingTags_text strip_text_def Let_def)
  have absent: "remove_all (paired opn cls) s = s \<and> remove_all (unclosed opn) s = s"
    if "index_ci opn s = None"
    using that by (simp add: remove_pair_none remove_unclosed_none)
  have found: "remove_all (unclosed opn) s = take i s
          \<and> (index_ci cls (drop (i + length opn) s) = None
               \<longrightarrow> remove_all (paired opn cls) s = s)
          \<and> (\<forall>k. index_ci cls (drop (i + length opn) s) = Some k \<longrightarrow>
                 remove_all (paired opn cls) s
                   = take i s
                     @ remove_all (paired opn cls) (drop (i + length opn + k + length cls) s))"
    if "opn \<noteq> [] \<and> index_ci opn s = Some i" for i
  proof (intro conjI impI allI)
    show "remove_all (unclosed opn) s = take i s"
      using that by (simp add: remove_unclosed_first)
    show "remove_all (paired opn cls) s = s"
      if "index_ci cls (drop (i + length opn) s) = None"
      using \<open>opn \<noteq> [] \<and> index_ci opn s = Some i\<close> that by (simp add: remove_paired_open)
    show "remove_all (paired opn cls) s
            = take i s @ remove_all (paired opn cls) (drop (i + length opn + k + length cls) s)"
      if "index_ci cls (drop (i + length opn) s) = Some k" for k
      using \<open>opn \<noteq> [] \<and> index_ci opn s = Some i\<close> that by (simp add: remove_paired_first)
  qed
  have dispatch: "evaluate rt host PROVIDERS others testCase response1 options
            = evaluate rt host PROVIDERS others testCase response2 options"
    if "stripThinkingTags response1 = stripThinkingTags response2"
    using that by (simp only: evaluate_def)
  have judged: "llmJudge_try host judge model prompt = Inr (judge_verdict judgeResponse)"
    if "complete judge (judge_messages prompt) (judge_call_options model) = Inr result
         \<and> property (inherited host) result ''text'' = Inr reply
         \<and> stripThinkingTags reply = Inr judgeResponse"
    for result reply judgeResponse
    using that by (simp add: llmJudge_try_def)
  show ?thesis
    apply (intro conjI allI)
          apply (rule order)
         apply (rule impI, erule absent)
        apply (rule impI, erule found)
       apply (rule index_ci_least)
      apply (rule starts_ci_iff)
     apply (rule impI, erule dispatch)
    apply (rule impI, erule judged)
    done
qed

theorem sanitizer_removes_spans_then_trims_witness:
  "stripThinkingTags (JStr ''<thinking>a</thinking>b<think>c'') = Inr ''b''
   \<and> stripThinkingTags (JStr ''<thinking>a<think>b</thinking>c'') = Inr ''c''
   \<and> stripThinkingTags (JStr ''<THINK>x</think> Hi <think>y</Think> there '') = Inr ''Hi  there''
   \<and> starts_ci ''<think>'' ''<Think>'' \<noteq> None
   \<and> evaluate example_runtime example_host [] example_collaborators
         [(''expected'', JStr ''Paris'')] (JStr ''<think>x</think>Paris'')
         \<lparr> judgeProvider = None, judgeModel = JUndefined \<rparr>
       = evaluate example_runtime example_host [] example_collaborators
         [(''expected'', JStr ''Paris'')] (JStr ''Paris'')
         \<lparr> judgeProvider = None, judgeModel = JUndefined \<rparr>
   \<and> llmJudge_try example_host pondering_judge (JStr ''qwen3:8b'') ''Rate it''
       = Inr (judge_verdict ''REASON: fine'')"
proof -
  note order = sanitizer_removes_spans_then_trims [THEN conjunct1]
  note absent = sanitizer_removes_spans_then_trims [THEN conjunct2, THEN conjunct1, THEN mp]
  note found = sanitizer_removes_spans_then_trims [THEN conjunct2, THEN conjunct2, THEN conjunct1, THEN spec, THEN mp]
  note same_case = sanitizer_removes_spans_then_trims [THEN conjunct2, THEN conjunct2, THEN conjunct2, THEN conjunct2,
      THEN conjunct1, THEN iffD2]
  note dispatch = sanitizer_removes_spans_then_trims [THEN conjunct2, THEN conjunct2, THEN conjunct2, THEN conjunct2,
      THEN conjunct2, THEN conjunct1, THEN mp]
  note judged = sanitizer_removes_spans_then_trims [THEN conjunct2, THEN conjunct2, THEN conjunct2, THEN conjunct2,
      THEN conjunct2, THEN conjunct2, THEN spec, THEN spec, THEN spec, THEN mp]
  let ?think = "paired ''<think>'' ''</think>''"
  let ?thinking = "paired ''<thinking>'' ''</thinking>''"
  let ?a = "''<thinking>a</thinking>b<think>c''"
  have a0: "''<think>'' \<noteq> [] \<and> index_ci ''<think>'' ?a = Some 23" by code_simp
  have a1: "index_ci ''</think>'' (drop (23 + length ''<think>'') ?a) = None" by code_simp
  have a2: "remove_all ?think ?a = ?a"
    by (rule found [OF a0, THEN conjunct2, THEN conjunct1, THEN mp, OF a1])
  have a3: "''<thinking>'' \<noteq> [] \<and> index_ci ''<thinking>'' ?a = Some 0" by code_simp
  have a4: "index_ci ''</thinking>'' (drop (0 + length ''<thinking>'') ?a) = Some 1" by code_simp
  have "remove_all ?thinking ?a
          = take 0 ?a @ remove_all ?thinking
              (drop (0 + length ''<thinking>'' + 1 + length ''</thinking>'') ?a)"
    by (rule found [OF a3, THEN conjunct2, THEN conjunct2, THEN spec, THEN mp, OF a4])
  then have a5: "remove_all ?thinking ?a = remove_all ?thinking ''b<think>c''"
    by simp
  have a6: "index_ci ''<thinking>'' ''b<think>c'' = None" by code_simp
  have a7: "remove_all ?thinking ''b<think>c'' = ''b<think>c''"
    by (rule absent [OF a6, THEN conjunct1])
  have a8: "''<think>'' \<noteq> [] \<and> index_ci ''<think>'' ''b<think>c'' = Some 1" by code_simp
  have "remove_all (unclosed ''<think>'') ''b<think>c'' = take 1 ''b<think>c''"
    by (rule found [OF a8, THEN conjunct1])
  then have a9: "remove_all (unclosed ''<think>'') ''b<think>c'' = ''b''"
    by simp
  have a10: "index_ci ''<thinking>'' ''b'' = None" by code_simp
  have a11: "remove_all (unclosed ''<thinking>'') ''b'' = ''b''"
    by (rule absent [OF a10, THEN conjunct2])
  have ta: "trim ''b'' = ''b''" by code_simp
  have one: "stripThinkingTags (JStr ?a) = Inr ''b''"
    using order [of ?a] by (simp only: a2 a5 a7 a9 a11 ta)
  let ?b = "''<thinking>a<think>b</thinking>c''"
  have b0: "''<think>'' \<noteq> [] \<and> index_ci ''<think>'' ?b = Some 11" by code_simp
  have b1: "index_ci ''</think>'' (drop (11 + length ''<think>'') ?b) = None" by code_simp
  have b2: "remove_all ?think ?b = ?b"
    by (rule found [OF b0, THEN conjunct2, THEN conjunct1, THEN mp, OF b1])
  have b3: "''<thinking>'' \<noteq> [] \<and> index_ci ''<thinking>'' ?b = Some 0" by code_simp
  have b4: "index_ci ''</thinking>'' (drop (0 + length ''<thinking>'') ?b) = Some 9" by code_simp
  have "remove_all ?thinking ?b
          = take 0 ?b @ remove_all ?thinking
              (drop (0 + length ''<thinking>'' + 9 + length ''</thinking>'') ?b)"
    by (rule found [OF b3, THEN conjunct2, THEN conjunct2, THEN spec, THEN mp, OF b4])
  then have b5: "remove_all ?thinking ?b = remove_all ?thinking ''c''"
    by simp
  have b6: "index_ci ''<thinking>'' ''c'' = None" "index_ci ''<think>'' ''c'' = None"
    by code_simp+
  have b7: "remove_all ?thinking ''c'' = ''c''"
    by (rule absent [OF b6(1), THEN conjunct1])
  have b8: "remove_all (unclosed ''<think>'') ''c'' = ''c''"
    by (rule absent [OF b6(2), THEN conjunct2])
  have b9: "remove_all (unclosed ''<thinking>'') ''c'' = ''c''"
    by (rule absent [OF b6(1), THEN conjunct2])
  have tb: "trim ''c'' = ''c''" by code_simp
  have two: "stripThinkingTags (JStr ?b) = Inr ''c''"
    using order [of ?b] by (simp only: b2 b5 b7 b8 b9 tb)
  let ?c = "''<THINK>x</think> Hi <think>y</Think> there ''"
  have c0: "''<think>'' \<noteq> [] \<and> index_ci ''<think>'' ?c = Some 0" by code_simp
  have c1: "index_ci ''</think>'' (drop (0 + length ''<think>'') ?c) = Some 1" by code_simp
  have "remove_all ?think ?c
          = take 0 ?c @ remove_all ?think (drop (0 + length ''<think>'' + 1 + length ''</think>'') ?c)"
    by (rule found [OF c0, THEN conjunct2, THEN conjunct2, THEN spec, THEN mp, OF c1])
  then have c2: "remove_all ?think ?c = remove_all ?think '' Hi <think>y</Think> there ''"
    by simp
  let ?d = "'' Hi <think>y</Think> there ''"
  have c3: "''<think>'' \<noteq> [] \<and> index_ci ''<think>'' ?d = Some 4" by code_simp
  have c4: "index_ci ''</think>'' (drop (4 + length ''<think>'') ?d) = Some 1" by code_simp
  have "remove_all ?think ?d
          = take 4 ?d @ remove_all ?think (drop (4 + length ''<think>'' + 1 + length ''</think>'') ?d)"
    by (rule found [OF c3, THEN conjunct2, THEN conjunct2, THEN spec, THEN mp, OF c4])
  then have c5: "remove_all ?think ?d = '' Hi '' @ remove_all ?think '' there ''"
    by simp
  have c6: "index_ci ''<think>'' '' there '' = None" "index_ci ''<thinking>'' '' Hi  there '' = None"
           "index_ci ''<think>'' '' Hi  there '' = None"
    by code_simp+
  have c7: "remove_all ?think '' there '' = '' there ''"
    by (rule absent [OF c6(1), THEN conjunct1])
  have c8: "'' Hi '' @ '' there '' = '' Hi  there ''" by simp
  have c9: "remove_all ?thinking '' Hi  there '' = '' Hi  there ''"
    by (rule absent [OF c6(2), THEN conjunct1])
  have c10: "remove_all (unclosed ''<think>'') '' Hi  there '' = '' Hi  there ''"
    by (rule absent [OF c6(3), THEN conjunct2])
  have c11: "remove_all (unclosed ''<thinking>'') '' Hi  there '' = '' Hi  there ''"
    by (rule absent [OF c6(2), THEN conjunct2])
  have tc: "trim '' Hi  there '' = ''Hi  there''" by code_simp
  have three: "stripThinkingTags (JStr ?c) = Inr ''Hi  there''"
    using order [of ?c] by (simp only: c2 c5 c7 c8 c9 c10 c11 tc)
  have e0: "length ''<think>'' \<le> length ''<Think>''
            \<and> map toLowerCase_char (take (length ''<think>'') ''<Think>'')
                = map toLowerCase_char ''<think>''"
    by code_simp
  have four: "starts_ci ''<think>'' ''<Think>'' \<noteq> None"
    by (rule same_case [OF e0])
  have h6: "stripThinkingTags (JStr ''<think>x</think>Paris'') = stripThinkingTags (JStr ''Paris'')"
    by code_simp
  have five: "evaluate example_runtime example_host [] example_collaborators
         [(''expected'', JStr ''Paris'')] (JStr ''<think>x</think>Paris'')
         \<lparr> judgeProvider = None, judgeModel = JUndefined \<rparr>
       = evaluate example_runtime example_host [] example_collaborators
         [(''expected'', JStr ''Paris'')] (JStr ''Paris'')
         \<lparr> judgeProvider = None, judgeModel = JUndefined \<rparr>"
    by (rule dispatch [OF h6])
  have s7: "stripThinkingTags (JStr ''<think>hm</think> REASON: fine'') = Inr ''REASON: fine''"
    by code_simp
  have h7: "complete pondering_judge (judge_messages ''Rate it'')
                (judge_call_options (JStr ''qwen3:8b''))
              = Inr (JObj [(''text'', JStr ''<think>hm</think> REASON: fine'')])
            \<and> property (inherited example_host)
                (JObj [(''text'', JStr ''<think>hm</think> REASON: fine'')]) ''text''
               = Inr (JStr ''<think>hm</think> REASON: fine'')
            \<and> stripThinkingTags (JStr ''<think>hm</think> REASON: fine'') = Inr ''REASON: fine''"
    by (simp add: pondering_judge_def property_def own_property_def s7)
  have six: "llmJudge_try example_host pondering_judge (JStr ''qwen3:8b'') ''Rate it''
       = Inr (judge_verdict ''REASON: fine'')"
    by (rule judged [OF h7])
  show ?thesis
    by (intro conjI) (rule one two three four five six)+
qed

section \<open>Properties of the run summary\<close>

lemma existence_verdict:
  "evaluate rt host PROVIDERS others existence_case (JStr []) options
     = Inr \<lparr> pass = JStr [], score = JNum 0, reason = ''No response (or only thinking tags)'',
             evalType = ''existence'', extra = [] \<rparr>"
  by (simp add: evaluate_def stripThinkingTags_def existence_case_def get_def js_or_def js_and_def
      detectEvalType_def Let_def)

lemma silent_record:
  "runTestCase rt host PROVIDERS others existence_case modelConfig prov default_options elapsed
       silent_reply
     = [(''success'', JBool True),
        (''testCase'', JStr ''greeting''),
        (''model'', get modelConfig ''model''),
        (''provider'', JStr (provider_name prov)),
        (''text'', JStr []),
        (''usage'', JNull),
        (''latencyMs'', JNum 12),
        (''cost'', JNull),
        (''error'', JNull),
        (''pass'', JStr []),
        (''score'', JNum 0),
        (''evalReason'', JStr ''No response (or only thinking tags)''),
        (''evalType'', JStr ''existence''),
        (''fromCache'', JBool False),
        (''prompt'', JStr ''Say hello''),
        (''systemPrompt'', JUndefined)]"
  by (simp add: runTestCase_def runTestCase_try_def silent_reply_def default_options_def
      property_def own_property_def existence_verdict)
    (simp add: existence_case_def get_def)

text \<open>
  C10 fails in the code. For a test case with no expectation, \<open>evaluate\<close> computes
  \<open>pass\<close> as \<open>cleanedResponse && cleanedResponse.length > 0\<close>, which is the empty text,
  not \<open>false\<close>, when the sanitized response is empty. The record of such a run reports
  success with \<open>pass = ''\<close>; in the summary it is counted neither as passed nor as
  failed, and its \<open>pass\<close> is not \<open>null\<close>, so the three counts do not add up to the total.
\<close>

theorem summary_misses_empty_pass:
  "get (silent_run rt host PROVIDERS others modelConfig prov) ''success'' = JBool True
   \<and> get (silent_run rt host PROVIDERS others modelConfig prov) ''pass'' = JStr []
   \<and> summarize [silent_run rt host PROVIDERS others modelConfig prov]
       = \<lparr> passed = 0, failed = 0, errors = 0, total = 1 \<rparr>
   \<and> length (filter (\<lambda>r. get r ''pass'' = JNull)
               [silent_run rt host PROVIDERS others modelConfig prov]) = 0"
proof -
  have "silent_run rt host PROVIDERS others modelConfig prov
          = runTestCase rt host PROVIDERS others existence_case modelConfig prov
              default_options 0 silent_reply"
    unfolding silent_run_def runTestCaseWithRetry_def
    by (subst retry_loop.simps) (simp add: silent_record get_def Let_def)
  then show ?thesis
    by (simp add: silent_record summarize_def get_def)
qed

lemma runTestCase_failure:
  assumes "\<not> truthy (get (runTestCase rt host PROVIDERS others testCase modelConfig prov options
                             elapsed fetched) ''success'')"
  shows "get (runTestCase rt host PROVIDERS others testCase modelConfig prov options elapsed fetched)
           ''pass'' = JBool False
       \<and> get (runTestCase rt host PROVIDERS others testCase modelConfig prov options elapsed fetched)
           ''score'' = JNum 0"
proof (cases "runTestCase_try rt host PROVIDERS others testCase modelConfig prov options fetched")
  case (Inl err)
  then show ?thesis by (simp add: runTestCase_def get_def)
next
  case (Inr r)
  then have "get r ''success'' = JBool True"
    by (auto simp: runTestCase_try_def get_def split: sum.splits prod.splits if_splits)
  with Inr assms show ?thesis by (simp add: runTestCase_def)
qed

lemma get_set_prop_other: "k' \<noteq> k \<Longrightarrow> get (set_prop obj k v) k' = get obj k'"
  by (simp add: get_def set_prop_def update_conv')

lemma retry_loop_shape:
  assumes "\<forall>k. failure_shape (run k)"
  shows "failure_shape (fst (retry_loop rt M tc mc p run a e))"
proof (induction "nat (M + 2 - int a)" arbitrary: a e)
  case 0
  then have "\<not> int a \<le> M + 1" by simp
  then show ?case
    by (subst retry_loop.simps) (simp add: failure_shape_def exhausted_def get_def)
next
  case (Suc d)
  then have le: "int a \<le> M + 1" by simp
  show ?case
  proof (cases "truthy (get (run a) ''success'')")
    case True
    then show ?thesis
      using le by (subst retry_loop.simps) (simp add: failure_shape_def Let_def get_set_prop_other)
  next
    case nosucc: False
    show ?thesis
    proof (cases "non_retryable (get (run a) ''error'')")
      case True
      then show ?thesis
        using le nosucc assms[rule_format, of a]
        by (subst retry_loop.simps) (simp add: Let_def)
    next
      case False
      have "d = nat (M + 2 - int (Suc a))" using Suc.hyps(2) by simp
      then have "failure_shape (fst (retry_loop rt M tc mc p run (Suc a) (get (run a) ''error'')))"
        by (rule Suc.hyps(1))
      then show ?thesis
        using le nosucc False
        by (subst retry_loop.simps) (simp add: Let_def case_prod_beta)
    qed
  qed
qed

lemma filter_length_mono:
  "(\<And>x. x \<in> set xs \<Longrightarrow> P x \<Longrightarrow> Q x) \<Longrightarrow> length (filter P xs) \<le> length (filter Q xs)"
  by (induction xs) auto

text \<open>
  What holds of every run: a record of \<open>runTestCaseWithRetry\<close> that reports no success
  has \<open>pass = false\<close> and \<open>score = 0\<close>, so in the summary \<open>errors\<close> is at most \<open>failed\<close>,
  and the passed, failed and \<open>null\<close> records together are at most the total.
\<close>

theorem failures_count_as_failed:
  assumes made: "\<forall>r \<in> set results. \<exists>maxRetries testCase modelConfig prov options elapsed fetched.
             r = fst (runTestCaseWithRetry rt maxRetries testCase modelConfig prov
                        (\<lambda>attempt. runTestCase rt host PROVIDERS others testCase modelConfig prov
                                      options (elapsed attempt) (fetched attempt)))"
  shows "(\<forall>r \<in> set results. \<not> truthy (get r ''success'')
            \<longrightarrow> get r ''pass'' = JBool False \<and> get r ''score'' = JNum 0)
       \<and> errors (summarize results) \<le> failed (summarize results)
       \<and> passed (summarize results) + failed (summarize results)
           + length (filter (\<lambda>r. get r ''pass'' = JNull) results) \<le> total (summarize results)"
proof -
  have shape: "failure_shape r" if "r \<in> set results" for r
  proof -
    from made that obtain M tc mc p opts elapsed fetched where
      r: "r = fst (runTestCaseWithRetry rt M tc mc p
                        (\<lambda>attempt. runTestCase rt host PROVIDERS others tc mc p
                                      opts (elapsed attempt) (fetched attempt)))"
      by blast
    have "\<forall>k. failure_shape (runTestCase rt host PROVIDERS others tc mc p opts (elapsed k) (fetched k))"
      using runTestCase_failure by (simp add: failure_shape_def)
    then show ?thesis
      unfolding r runTestCaseWithRetry_def
      by (cases M) (simp_all add: retry_loop_shape, simp add: failure_shape_def exhausted_def get_def)
  qed
  have one: "\<forall>r \<in> set results. \<not> truthy (get r ''success'')
            \<longrightarrow> get r ''pass'' = JBool False \<and> get r ''score'' = JNum 0"
    using shape by (simp add: failure_shape_def)
  have two: "errors (summarize results) \<le> failed (summarize results)"
    using one by (simp add: summarize_def filter_length_mono)
  have "length (filter (\<lambda>r. get r ''pass'' = JBool True) results)
        + length (filter (\<lambda>r. get r ''pass'' = JBool False) results)
        + length (filter (\<lambda>r. get r ''pass'' = JNull) results) \<le> length results"
  proof (induction results)
    case Nil
    then show ?case by simp
  next
    case (Cons r rs)
    then show ?case by (cases "get r ''pass''") auto
  qed
  then have three: "passed (summarize results) + failed (summarize results)
           + length (filter (\<lambda>r. get r ''pass'' = JNull) results) \<le> total (summarize results)"
    by (simp add: summarize_def)
  show ?thesis using one two three by blast
qed

lemma refused_run_fails: "\<not> truthy (get refused_run ''success'')"
  unfolding refused_run_def runTestCaseWithRetry_def
  by (subst retry_loop.simps)
    (simp add: runTestCase_def runTestCase_try_def get_def Let_def non_retryable_examples)

theorem failures_count_as_failed_witness:
  "get refused_run ''pass'' = JBool False \<and> get refused_run ''score'' = JNum 0
   \<and> errors (summarize [refused_run]) \<le> failed (summarize [refused_run])"
proof -
  have made: "\<forall>r \<in> set [refused_run].
           \<exists>maxRetries testCase modelConfig prov options elapsed fetched.
             r = fst (runTestCaseWithRetry example_runtime maxRetries testCase modelConfig prov
                        (\<lambda>attempt. runTestCase example_runtime example_host []
                                      example_collaborators testCase modelConfig prov
                                      options (elapsed attempt) (fetched attempt)))"
  proof (intro ballI)
    fix r
    assume "r \<in> set [refused_run]"
    then have r: "r = refused_run" by simp
    show "\<exists>maxRetries testCase modelConfig prov options elapsed fetched.
             r = fst (runTestCaseWithRetry example_runtime maxRetries testCase modelConfig prov
                        (\<lambda>attempt. runTestCase example_runtime example_host []
                                      example_collaborators testCase modelConfig prov
                                      options (elapsed attempt) (fetched attempt)))"
      unfolding r refused_run_def by (intro exI) (rule refl)
  qed
  have mem: "refused_run \<in> set [refused_run]" by simp
  have one: "get refused_run ''pass'' = JBool False \<and> get refused_run ''score'' = JNum 0"
    by (rule failures_count_as_failed [OF made, THEN conjunct1, THEN bspec, OF mem, THEN mp,
          OF refused_run_fails])
  have two: "errors (summarize [refused_run]) \<le> failed (summarize [refused_run])"
    by (rule failures_count_as_failed [OF made, THEN conjunct2, THEN conjunct1])
  show ?thesis using one two by simp
qed

end
